theory Spec2Isabelle
  imports Complex_Main "HOL-Library.Signed_Division"
begin

section \<open>Double precision numbers\<close>

text \<open>
  A C++ \<^verbatim>\<open>double\<close> is modelled by \<open>dbl\<close>: a real number, one of the two
  infinities, or NaN. The sign of a zero is not modelled (zero stands for positive
  zero). The operations \<open>dbl_add\<close>, \<open>dbl_sub\<close>, \<open>dbl_sum\<close> and \<open>dbl_mean\<close> give the
  IEEE 754 results for infinities and NaN and do not round.
\<close>

datatype dbl = Finite real | PosInf | NegInf | NaN

fun dbl_add :: "dbl \<Rightarrow> dbl \<Rightarrow> dbl" where
  "dbl_add (Finite x) (Finite y) = Finite (x + y)"
| "dbl_add NaN _ = NaN"
| "dbl_add _ NaN = NaN"
| "dbl_add PosInf NegInf = NaN"
| "dbl_add NegInf PosInf = NaN"
| "dbl_add PosInf _ = PosInf"
| "dbl_add _ PosInf = PosInf"
| "dbl_add NegInf _ = NegInf"
| "dbl_add _ NegInf = NegInf"

fun dbl_neg :: "dbl \<Rightarrow> dbl" where
  "dbl_neg (Finite x) = Finite (- x)"
| "dbl_neg PosInf = NegInf"
| "dbl_neg NegInf = PosInf"
| "dbl_neg NaN = NaN"

definition dbl_sub :: "dbl \<Rightarrow> dbl \<Rightarrow> dbl" where
  "dbl_sub a b = dbl_add a (dbl_neg b)"

fun dbl_div_count :: "dbl \<Rightarrow> nat \<Rightarrow> dbl" where
  \<comment> \<open>division by a size, a non-negative integer converted to \<^verbatim>\<open>double\<close>\<close>
  "dbl_div_count (Finite x) n =
     (if n = 0 then (if x = 0 then NaN else if 0 < x then PosInf else NegInf)
      else Finite (x / real n))"
| "dbl_div_count PosInf n = PosInf"
| "dbl_div_count NegInf n = NegInf"
| "dbl_div_count NaN n = NaN"

fun dbl_less :: "dbl \<Rightarrow> dbl \<Rightarrow> bool" where
  \<comment> \<open>\<^verbatim>\<open>a < b\<close> on doubles; every comparison with NaN is false\<close>
  "dbl_less NaN _ = False"
| "dbl_less _ NaN = False"
| "dbl_less (Finite x) (Finite y) = (x < y)"
| "dbl_less PosInf _ = False"
| "dbl_less _ PosInf = True"
| "dbl_less _ NegInf = False"
| "dbl_less NegInf _ = True"

definition dbl_sum :: "dbl list \<Rightarrow> dbl" where
  \<comment> \<open>\<^verbatim>\<open>.sum()\<close>, accumulated from the first coefficient\<close>
  "dbl_sum xs = foldl dbl_add (Finite 0) xs"

definition dbl_mean :: "dbl list \<Rightarrow> dbl" where
  \<comment> \<open>\<^verbatim>\<open>.mean()\<close>: the sum divided by the size\<close>
  "dbl_mean xs = dbl_div_count (dbl_sum xs) (length xs)"

fun is_finite :: "dbl \<Rightarrow> bool" where
  "is_finite (Finite x) = True"
| "is_finite _ = False"

definition dbl_log :: "real \<Rightarrow> dbl" where
  \<comment> \<open>\<^verbatim>\<open>log\<close> of a finite double: minus infinity at zero, NaN below it\<close>
  "dbl_log x = (if x < 0 then NaN else if x = 0 then NegInf else Finite (ln x))"

fun dbl_half :: "dbl \<Rightarrow> dbl" where
  \<comment> \<open>\<^verbatim>\<open>0.5 * a\<close>\<close>
  "dbl_half (Finite x) = Finite (0.5 * x)"
| "dbl_half d = d"


definition dbl_value :: "dbl \<Rightarrow> real" where
  \<comment> \<open>the real number of a finite value\<close>
  "dbl_value d = (case d of Finite x \<Rightarrow> x | _ \<Rightarrow> 0)"

text \<open>
  Rounding. \<open>binary64\<close> rounds a real number to the nearest IEEE 754 double, ties to
  even: the number is scaled by the spacing \<open>2\<^sup>e\<^sup>-\<^sup>5\<^sup>2\<close> of the doubles of its binade
  (\<open>e\<close> at least \<open>-1022\<close>, the subnormal spacing), rounded to an integer, and scaled
  back; a result of magnitude \<open>2\<^sup>1\<^sup>0\<^sup>2\<^sup>4\<close> or more overflows to an infinity.
  \<open>no_rounding\<close> is exact arithmetic.
\<close>

definition round_half_even :: "real \<Rightarrow> int" where
  "round_half_even x =
     (let f = \<lfloor>x\<rfloor>; r = x - of_int f
      in if r < 1 / 2 then f else if 1 / 2 < r then f + 1 else if even f then f else f + 1)"

definition binary64_exponent :: "real \<Rightarrow> int" where
  "binary64_exponent x = max \<lfloor>log 2 \<bar>x\<bar>\<rfloor> (- 1022)"

definition binary64 :: "real \<Rightarrow> dbl" where
  "binary64 x =
     (if x = 0 then Finite 0
      else
        (let q = 2 powi (binary64_exponent x - 52);
             r = of_int (round_half_even (x / q)) * q
         in if 2 ^ 1024 \<le> \<bar>r\<bar> then (if 0 < x then PosInf else NegInf) else Finite r))"

definition no_rounding :: "real \<Rightarrow> dbl" where
  "no_rounding x = Finite x"

text \<open>
  The arithmetic operations on doubles, with the rounding \<open>rnd\<close> applied to the exact
  result of an operation on two finite numbers, and the IEEE 754 results otherwise.
  Every operation rounds once (no fused multiply-add).
\<close>

fun is_zero :: "dbl \<Rightarrow> bool" where
  "is_zero (Finite x) = (x = 0)"
| "is_zero _ = False"

fun sign_bit :: "dbl \<Rightarrow> bool" where
  \<comment> \<open>true for a negative number and for minus infinity\<close>
  "sign_bit (Finite x) = (x < 0)"
| "sign_bit NegInf = True"
| "sign_bit _ = False"

fun fp_add :: "(real \<Rightarrow> dbl) \<Rightarrow> dbl \<Rightarrow> dbl \<Rightarrow> dbl" where
  "fp_add rnd (Finite x) (Finite y) = rnd (x + y)"
| "fp_add rnd a b = dbl_add a b"

definition fp_sub :: "(real \<Rightarrow> dbl) \<Rightarrow> dbl \<Rightarrow> dbl \<Rightarrow> dbl" where
  "fp_sub rnd a b = fp_add rnd a (dbl_neg b)"

fun fp_mul :: "(real \<Rightarrow> dbl) \<Rightarrow> dbl \<Rightarrow> dbl \<Rightarrow> dbl" where
  "fp_mul rnd (Finite x) (Finite y) = rnd (x * y)"
| "fp_mul rnd a b =
     (if a = NaN \<or> b = NaN \<or> is_zero a \<or> is_zero b then NaN
      else if sign_bit a = sign_bit b then PosInf else NegInf)"

fun fp_div :: "(real \<Rightarrow> dbl) \<Rightarrow> dbl \<Rightarrow> dbl \<Rightarrow> dbl" where
  "fp_div rnd (Finite x) (Finite y) =
     (if y = 0 then (if x = 0 then NaN else if 0 < x then PosInf else NegInf)
      else rnd (x / y))"
| "fp_div rnd (Finite x) PosInf = Finite 0"
| "fp_div rnd (Finite x) NegInf = Finite 0"
| "fp_div rnd PosInf (Finite y) = (if y < 0 then NegInf else PosInf)"
| "fp_div rnd NegInf (Finite y) = (if y < 0 then PosInf else NegInf)"
| "fp_div rnd a b = NaN"

text \<open>
  Sums and dot products accumulate from the first coefficient in index order, as
  Eigen's scalar reduction does. (Its vectorised reduction may add the same terms in
  another order; for two terms there is one order.)
\<close>

fun fp_sum :: "(real \<Rightarrow> dbl) \<Rightarrow> dbl list \<Rightarrow> dbl" where
  "fp_sum rnd [] = Finite 0"
| "fp_sum rnd (x # xs) = foldl (fp_add rnd) x xs"

definition fp_dot :: "(real \<Rightarrow> dbl) \<Rightarrow> dbl list \<Rightarrow> dbl list \<Rightarrow> dbl" where
  \<comment> \<open>\<^verbatim>\<open>a.dot(b)\<close>\<close>
  "fp_dot rnd a b = fp_sum rnd (map2 (fp_mul rnd) a b)"

text \<open>
  Comparisons of doubles: every comparison with NaN is false.
\<close>

instantiation dbl :: ord
begin

fun less_eq_dbl :: "dbl \<Rightarrow> dbl \<Rightarrow> bool" where
  "less_eq_dbl NaN _ = False"
| "less_eq_dbl _ NaN = False"
| "less_eq_dbl (Finite x) (Finite y) = (x \<le> y)"
| "less_eq_dbl NegInf _ = True"
| "less_eq_dbl _ PosInf = True"
| "less_eq_dbl _ _ = False"

definition less_dbl :: "dbl \<Rightarrow> dbl \<Rightarrow> bool" where
  "less_dbl a b = dbl_less a b"

instance ..

end

text \<open>
  \<^verbatim>\<open>maxCoeff\<close> and \<^verbatim>\<open>minCoeff\<close> of a non-empty array, as Eigen's scalar reduction
  with \<^verbatim>\<open>std::max\<close> and \<^verbatim>\<open>std::min\<close> computes them.
\<close>

definition maxCoeff :: "'a::ord list \<Rightarrow> 'a" where
  "maxCoeff v = foldl (\<lambda>m x. if m < x then x else m) (hd v) (tl v)"

definition minCoeff :: "'a::ord list \<Rightarrow> 'a" where
  "minCoeff v = foldl (\<lambda>m x. if x < m then x else m) (hd v) (tl v)"

definition fp_mean :: "(real \<Rightarrow> dbl) \<Rightarrow> dbl list \<Rightarrow> dbl" where
  \<comment> \<open>\<^verbatim>\<open>.mean()\<close>: the sum divided by the size\<close>
  "fp_mean rnd v = fp_div rnd (fp_sum rnd v) (Finite (real (length v)))"

text \<open>
  The functions of the C math library. \<^verbatim>\<open>sqrt\<close> is correctly rounded by IEEE 754;
  for \<^verbatim>\<open>exp\<close>, \<^verbatim>\<open>log\<close>, \<^verbatim>\<open>log1p\<close> and \<^verbatim>\<open>expm1\<close> the model takes the rounded
  exact value, from which a library may differ in the last place.
\<close>

fun fp_exp :: "(real \<Rightarrow> dbl) \<Rightarrow> dbl \<Rightarrow> dbl" where
  "fp_exp rnd (Finite x) = rnd (exp x)"
| "fp_exp rnd PosInf = PosInf"
| "fp_exp rnd NegInf = Finite 0"
| "fp_exp rnd NaN = NaN"

fun fp_log :: "(real \<Rightarrow> dbl) \<Rightarrow> dbl \<Rightarrow> dbl" where
  "fp_log rnd (Finite x) = (if x < 0 then NaN else if x = 0 then NegInf else rnd (ln x))"
| "fp_log rnd PosInf = PosInf"
| "fp_log rnd NegInf = NaN"
| "fp_log rnd NaN = NaN"

fun fp_log1p :: "(real \<Rightarrow> dbl) \<Rightarrow> dbl \<Rightarrow> dbl" where
  "fp_log1p rnd (Finite x) =
     (if x < - 1 then NaN else if x = - 1 then NegInf else rnd (ln (1 + x)))"
| "fp_log1p rnd PosInf = PosInf"
| "fp_log1p rnd NegInf = NaN"
| "fp_log1p rnd NaN = NaN"

fun fp_expm1 :: "(real \<Rightarrow> dbl) \<Rightarrow> dbl \<Rightarrow> dbl" where
  "fp_expm1 rnd (Finite x) = rnd (exp x - 1)"
| "fp_expm1 rnd PosInf = PosInf"
| "fp_expm1 rnd NegInf = Finite (- 1)"
| "fp_expm1 rnd NaN = NaN"

fun fp_sqrt :: "(real \<Rightarrow> dbl) \<Rightarrow> dbl \<Rightarrow> dbl" where
  "fp_sqrt rnd (Finite x) = (if x < 0 then NaN else rnd (sqrt x))"
| "fp_sqrt rnd PosInf = PosInf"
| "fp_sqrt rnd NegInf = NaN"
| "fp_sqrt rnd NaN = NaN"

fun dbl_abs :: "dbl \<Rightarrow> dbl" where
  \<comment> \<open>\<^verbatim>\<open>std::abs\<close>\<close>
  "dbl_abs (Finite x) = Finite \<bar>x\<bar>"
| "dbl_abs NegInf = PosInf"
| "dbl_abs d = d"

fun isinf :: "dbl \<Rightarrow> bool" where
  \<comment> \<open>\<^verbatim>\<open>std::isinf\<close>\<close>
  "isinf PosInf = True"
| "isinf NegInf = True"
| "isinf _ = False"

section \<open>PSIS: extraction of the largest elements\<close>

text \<open>
  An \<^verbatim>\<open>Eigen::Array<double, -1, 1>\<close> is a list and an \<^verbatim>\<open>Eigen::Index\<close> (a signed
  64-bit integer) an \<open>int\<close>; the index arithmetic of the functions below stays within
  the array sizes, far from the 64-bit bounds. A coefficient is read with
  \<open>xs ! nat i\<close>; the functions are only called with indices inside the arrays, as in
  the source. The functions of this section compare and move coefficients and do no
  arithmetic on them, so they are stated for every type of coefficients with
  comparisons: the doubles \<open>dbl\<close>, and the real numbers, which are the doubles without
  infinities and NaN.
\<close>

type_synonym vec = "real list"

definition swap_coeff :: "'a list \<Rightarrow> int \<Rightarrow> int \<Rightarrow> 'a list" where
  \<comment> \<open>\<^verbatim>\<open>std::swap(arr.coeffRef(i), arr.coeffRef(j))\<close>\<close>
  "swap_coeff arr i j = arr[nat i := arr ! nat j, nat j := arr ! nat i]"

text \<open>
  The \<^verbatim>\<open>for (j = low; j <= high - 1; ++j)\<close> loop of \<^verbatim>\<open>quick_sort_partition\<close>,
  with the loop variable \<open>j\<close>, the index \<open>i\<close> of the last smaller element and the
  two arrays as its state.
\<close>

function partition_loop ::
  "'a::ord \<Rightarrow> int \<Rightarrow> int \<Rightarrow> int \<Rightarrow> 'a list \<Rightarrow> int list \<Rightarrow> int \<times> 'a list \<times> int list" where
  "partition_loop pivot high j i arr idx =
     (if j \<le> high - 1 then
        (if arr ! nat j \<le> pivot
         then partition_loop pivot high (j + 1) (i + 1)
                (swap_coeff arr (i + 1) j) (swap_coeff idx (i + 1) j)
         else partition_loop pivot high (j + 1) i arr idx)
      else (i, arr, idx))"
  by pat_completeness auto
termination
  by (relation "measure (\<lambda>(pivot, high, j, i, arr, idx). nat (high - j))") auto

definition quick_sort_partition ::
  "'a::ord list \<Rightarrow> int list \<Rightarrow> int \<Rightarrow> int \<Rightarrow> int \<times> 'a list \<times> int list" where
  "quick_sort_partition arr idx low high =
     (let pivot = arr ! nat high in
      case partition_loop pivot high low (low - 1) arr idx of
        (i, arr1, idx1) \<Rightarrow>
          (i + 1, swap_coeff arr1 (i + 1) high, swap_coeff idx1 (i + 1) high))"

lemma partition_loop_bounds:
  "i < j \<Longrightarrow> j \<le> high \<Longrightarrow>
   i \<le> fst (partition_loop pivot high j i arr idx)
   \<and> fst (partition_loop pivot high j i arr idx) < high"
proof (induction pivot high j i arr idx rule: partition_loop.induct)
  case (1 pivot high j i arr idx)
  show ?case
  proof (cases "j \<le> high - 1")
    case False
    with "1.prems" show ?thesis by (subst (1 2) partition_loop.simps) simp
  next
    case True
    show ?thesis
    proof (cases "arr ! nat j \<le> pivot")
      case True
      have "i + 1 \<le> fst (partition_loop pivot high (j + 1) (i + 1)
                (swap_coeff arr (i + 1) j) (swap_coeff idx (i + 1) j))
            \<and> fst (partition_loop pivot high (j + 1) (i + 1)
                (swap_coeff arr (i + 1) j) (swap_coeff idx (i + 1) j)) < high"
        using "1.IH"(1) [OF \<open>j \<le> high - 1\<close> True] "1.prems" \<open>j \<le> high - 1\<close> by simp
      with True \<open>j \<le> high - 1\<close> show ?thesis
        by (subst (1 2) partition_loop.simps) simp
    next
      case False
      have "i \<le> fst (partition_loop pivot high (j + 1) i arr idx)
            \<and> fst (partition_loop pivot high (j + 1) i arr idx) < high"
        using "1.IH"(2) [OF \<open>j \<le> high - 1\<close> False] "1.prems" \<open>j \<le> high - 1\<close> by simp
      with False \<open>j \<le> high - 1\<close> show ?thesis
        by (subst (1 2) partition_loop.simps) simp
    qed
  qed
qed

lemma quick_sort_partition_bounds:
  assumes "low \<le> high"
  shows "low \<le> fst (quick_sort_partition arr idx low high)"
    and "fst (quick_sort_partition arr idx low high) \<le> high"
proof -
  obtain i arr1 idx1
    where loop: "partition_loop (arr ! nat high) high low (low - 1) arr idx = (i, arr1, idx1)"
    by (cases "partition_loop (arr ! nat high) high low (low - 1) arr idx") blast
  have "low - 1 \<le> i \<and> i < high"
    using partition_loop_bounds [of "low - 1" low high "arr ! nat high" arr idx] assms
    unfolding loop by simp
  moreover have "fst (quick_sort_partition arr idx low high) = i + 1"
    unfolding quick_sort_partition_def Let_def loop by simp
  ultimately show "low \<le> fst (quick_sort_partition arr idx low high)"
    and "fst (quick_sort_partition arr idx low high) \<le> high"
    by simp_all
qed

text \<open>
  \<^verbatim>\<open>quick_sort(arr, idx, low, high)\<close>. For \<^verbatim>\<open>high - low >= 400\<close> the source
  runs the two recursive calls through \<^verbatim>\<open>tbb::parallel_invoke\<close>; they work on
  the disjoint index ranges \<open>[low, p - 1]\<close> and \<open>[p + 1, high]\<close> of the same
  arrays, so both branches of that test are the two calls one after the other.
\<close>

function quick_sort :: "'a::ord list \<Rightarrow> int list \<Rightarrow> int \<Rightarrow> int \<Rightarrow> 'a list \<times> int list" where
  "quick_sort arr idx low high =
     (if low < high then
        (case quick_sort_partition arr idx low high of
           (partition_index, arr1, idx1) \<Rightarrow>
             (case quick_sort arr1 idx1 low (partition_index - 1) of
                (arr2, idx2) \<Rightarrow> quick_sort arr2 idx2 (partition_index + 1) high))
      else (arr, idx))"
  by pat_completeness auto
termination
  apply (relation "measure (\<lambda>(arr, idx, low, high). nat (high - low + 1))")
  apply simp
  subgoal for arr idx low high partition_index
    using quick_sort_partition_bounds(2) [of low high arr idx]
    by (cases "quick_sort_partition arr idx low high") simp
  subgoal for arr idx low high partition_index
    using quick_sort_partition_bounds(1) [of low high arr idx]
    by (cases "quick_sort_partition arr idx low high") simp
  done

definition quick_sort_all :: "'a::ord list \<Rightarrow> int list \<Rightarrow> 'a list \<times> int list" where
  \<comment> \<open>the two-argument overload \<^verbatim>\<open>quick_sort(arr, idx)\<close>\<close>
  "quick_sort_all arr idx = quick_sort arr idx 0 (int (length arr) - 1)"

text \<open>
  The binary search of \<^verbatim>\<open>max_n_insertion_start\<close>. The C++ division of
  \<^verbatim>\<open>Eigen::Index\<close> values truncates towards zero (\<open>sdiv\<close>).
\<close>

lemma sdiv_two_between:
  fixes low high :: int
  assumes "high - low > 1"
  shows "low < (low + high) sdiv 2" and "(low + high) sdiv 2 < high"
proof -
  show "low < (low + high) sdiv 2"
  proof (cases "0 \<le> low + high")
    case True
    then have "(low + high) sdiv 2 = (low + high) div 2"
      by (simp add: signed_divide_int_def sgn_if)
    then show ?thesis using assms by linarith
  next
    case False
    then have "(low + high) sdiv 2 = - ((- (low + high)) div 2)"
      by (simp add: signed_divide_int_def sgn_if)
    then show ?thesis using assms by linarith
  qed
  show "(low + high) sdiv 2 < high"
  proof (cases "0 \<le> low + high")
    case True
    then have "(low + high) sdiv 2 = (low + high) div 2"
      by (simp add: signed_divide_int_def sgn_if)
    then show ?thesis using assms by linarith
  next
    case False
    then have "(low + high) sdiv 2 = - ((- (low + high)) div 2)"
      by (simp add: signed_divide_int_def sgn_if)
    then show ?thesis using assms by linarith
  qed
qed

function insertion_loop :: "'a::ord list \<Rightarrow> 'a \<Rightarrow> int \<Rightarrow> int \<Rightarrow> int" where
  "insertion_loop top_n v low_idx high_idx =
     (if high_idx - low_idx > 1 then
        (let probe_idx = (low_idx + high_idx) sdiv 2;
             curr_val = top_n ! nat probe_idx
         in if curr_val > v
            then insertion_loop top_n v low_idx probe_idx
            else insertion_loop top_n v probe_idx high_idx)
      else high_idx)"
  by pat_completeness auto
termination
  apply (relation "measure (\<lambda>(top_n, v, low_idx, high_idx). nat (high_idx - low_idx))")
  apply simp
  subgoal for top_n v low_idx high_idx
    using sdiv_two_between [where low = low_idx and high = high_idx] by simp
  subgoal for top_n v low_idx high_idx
    using sdiv_two_between [where low = low_idx and high = high_idx] by simp
  done

definition max_n_insertion_start :: "'a::ord list \<Rightarrow> 'a \<Rightarrow> int" where
  "max_n_insertion_start top_n v =
     (let top_size = int (length top_n);
          high_idx = insertion_loop top_n v (- 1) top_size
      in if high_idx = top_size then top_size - 1 else high_idx - 1)"

text \<open>
  The two shifting loops \<^verbatim>\<open>for (k = 1; k <= starting_pos; ++k) a[k - 1] = a[k]\<close>
  in the body of the scan of \<^verbatim>\<open>max_n_elements\<close>.
\<close>

function shift_loop :: "int \<Rightarrow> int \<Rightarrow> 'a list \<Rightarrow> 'a list" where
  "shift_loop k starting_pos a =
     (if k \<le> starting_pos
      then shift_loop (k + 1) starting_pos (a[nat (k - 1) := a ! nat k])
      else a)"
  by pat_completeness auto
termination
  by (relation "measure (\<lambda>(k, starting_pos, a). nat (starting_pos + 1 - k))") auto

text \<open>
  The scan \<^verbatim>\<open>for (Eigen::Index i = tail_len_i; i < tail_len_i; ++i)\<close> of
  \<^verbatim>\<open>max_n_elements\<close>, with its bound as the parameter \<open>bound\<close> and the loop
  variable \<open>i\<close>; the source starts it at \<open>i = tail_len_i\<close> with
  \<open>bound = tail_len_i\<close>.
\<close>

function max_n_scan ::
  "'a::ord list \<Rightarrow> int \<Rightarrow> int \<Rightarrow> 'a list \<Rightarrow> int list \<Rightarrow> 'a list \<times> int list" where
  "max_n_scan lw_i bound i top_n top_n_idx =
     (if i < bound then
        (if lw_i ! nat i \<ge> top_n ! 0 then
           (let starting_pos = max_n_insertion_start top_n (lw_i ! nat i);
                top_n1 = (shift_loop 1 starting_pos top_n)[nat starting_pos := lw_i ! nat i];
                top_n_idx1 = (shift_loop 1 starting_pos top_n_idx)[nat starting_pos := i]
            in max_n_scan lw_i bound (i + 1) top_n1 top_n_idx1)
         else max_n_scan lw_i bound (i + 1) top_n top_n_idx)
      else (top_n, top_n_idx))"
  by pat_completeness auto
termination
  by (relation "measure (\<lambda>(lw_i, bound, i, top_n, top_n_idx). nat (bound - i))") auto

text \<open>
  Modelled from the spec: Eigen's \<^verbatim>\<open>LinSpaced(size, low, high)\<close> is not under
  \<^verbatim>\<open>src/\<close>. The specification has the index array hold the original positions
  \<open>0, \<dots>, n - 1\<close> of the extracted elements. This is what Eigen's rule for an
  integer scalar, written out here, gives for a size \<open>n \<ge> 3\<close> with \<open>low = 0\<close> and
  \<open>high = n\<close>: coefficient \<open>i\<close> is \<open>low + i * ((high - low) div (n - 1))\<close> (or
  \<open>low + i div divisor\<close> when the range is shorter than the size).
\<close>

definition LinSpaced_index :: "int \<Rightarrow> int \<Rightarrow> int \<Rightarrow> int list" where
  "LinSpaced_index n low high =
     (let multiplier = (high - low) sdiv (if n \<le> 1 then 1 else n - 1);
          divisor = ((if high \<ge> low then n else - n) + (high - low))
                      sdiv (\<bar>high - low\<bar> + 1);
          use_divisor = (n > 1 \<and> \<bar>high - low\<bar> + 1 < n)
      in map (\<lambda>i. if use_divisor then low + int i sdiv divisor else low + int i * multiplier)
             [0..<nat n])"

text \<open>
  \<^verbatim>\<open>max_n_elements(lw_i, tail_len_i)\<close>. \<^verbatim>\<open>lw_i.head(tail_len_i)\<close> is outside
  Eigen's domain when \<open>tail_len_i\<close> is negative or exceeds the size of \<open>lw_i\<close>
  (the library asserts); the model returns \<open>None\<close> there.
\<close>

definition max_n_elements :: "'a::ord list \<Rightarrow> int \<Rightarrow> ('a list \<times> int list) option" where
  "max_n_elements lw_i tail_len_i =
     (if tail_len_i < 0 \<or> int (length lw_i) < tail_len_i then None
      else
        (let top_n = take (nat tail_len_i) lw_i;
             top_n_idx = LinSpaced_index tail_len_i 0 tail_len_i
         in case quick_sort_all top_n top_n_idx of
              (top_n1, top_n_idx1) \<Rightarrow>
                Some (max_n_scan lw_i tail_len_i tail_len_i top_n1 top_n_idx1)))"

text \<open>
  The specification's reading of the tail extraction: the \<open>n\<close> largest elements of
  \<open>lw\<close> in ascending order.
\<close>

definition largest_n :: "vec \<Rightarrow> nat \<Rightarrow> vec" where
  "largest_n lw n = drop (length lw - n) (sort lw)"

section \<open>PSIS: generalized Pareto fit and smoothed weights\<close>

text \<open>
  The functions of this section compute with doubles. Each takes the rounding
  \<open>rnd\<close> as its first argument and applies it after every operation of the source:
  with \<open>binary64\<close> it is the function as it runs, with \<open>no_rounding\<close> its expression
  in exact arithmetic.
\<close>

text \<open>
  Modelled from the spec: \<^verbatim>\<open>stan::math::log_sum_exp\<close> is not under \<^verbatim>\<open>src/\<close>.
  The specification normalises the weights by \<open>exp(lw - logsumexp(lw))\<close>, with
  \<open>logsumexp\<close> the logarithm of the sum of the exponentials; the library returns minus
  infinity for an empty vector and the maximum when that is not finite, and otherwise
  the maximum plus the logarithm of the sum of the exponentials of the differences to
  the maximum.
\<close>

definition log_sum_exp :: "(real \<Rightarrow> dbl) \<Rightarrow> dbl list \<Rightarrow> dbl" where
  "log_sum_exp rnd v =
     (if v = [] then NegInf
      else
        (let max = maxCoeff v
         in if \<not> is_finite max then max
            else fp_add rnd max
                   (fp_log rnd (fp_sum rnd (map (\<lambda>x. fp_exp rnd (fp_sub rnd x max)) v)))))"

text \<open>
  \<^verbatim>\<open>lx(a, x)\<close>: the outer product \<open>(-a) x\<^sup>T\<close> has one row for each coefficient of
  \<open>a\<close>; \<open>k\<close> is the mean of \<open>log1p\<close> along each row.
\<close>

definition lx :: "(real \<Rightarrow> dbl) \<Rightarrow> dbl list \<Rightarrow> dbl list \<Rightarrow> dbl list" where
  "lx rnd a x =
     map (\<lambda>aj. let k = fp_mean rnd (map (\<lambda>xi. fp_log1p rnd (fp_mul rnd (dbl_neg aj) xi)) x)
               in fp_sub rnd (fp_sub rnd (fp_log rnd (fp_div rnd (dbl_neg aj) k)) k) (Finite 1))
         a"

text \<open>
  \<^verbatim>\<open>gpdfit(x, min_grid_pts)\<close>. The sample \<open>x\<close> is read at the indices
  \<open>floor(N / 4 + 0.5) - 1\<close> and \<open>N - 1\<close>, which are inside it when \<open>N \<ge> 2\<close>;
  the model returns \<open>None\<close> for a shorter sample. The sizes \<open>N\<close> and \<open>M\<close> and the
  grid \<open>jj\<close> = \<^verbatim>\<open>LinSpaced(M, 1, M)\<close>, the numbers \<open>1, \<dots>, M\<close>, are small integers,
  which the conversions to \<^verbatim>\<open>double\<close>, \<^verbatim>\<open>floor(sqrt(N))\<close> and the index arithmetic give
  exactly.
\<close>

definition gpdfit :: "(real \<Rightarrow> dbl) \<Rightarrow> dbl list \<Rightarrow> nat \<Rightarrow> (dbl \<times> dbl) option" where
  "gpdfit rnd x min_grid_pts =
     (let N = length x in
      if N < 2 then None
      else
        (let prior = Finite 3;
             M = min_grid_pts + nat \<lfloor>sqrt (real N)\<rfloor>;
             jj = map (\<lambda>j. Finite (real j)) [1..<M + 1];
             xstar = x ! (nat \<lfloor>real N / 4 + 0.5\<rfloor> - 1);
             x_last_inv = fp_div rnd (Finite 1) (x ! (N - 1));
             theta =
               map (\<lambda>j. fp_add rnd x_last_inv
                          (fp_div rnd
                             (fp_div rnd
                                (fp_sub rnd (Finite 1)
                                   (fp_sqrt rnd
                                      (fp_div rnd (Finite (real M)) (fp_sub rnd j (Finite 0.5)))))
                                prior)
                             xstar))
                   jj;
             l_theta = map (\<lambda>l. fp_mul rnd (Finite (real N)) l) (lx rnd theta x);
             lse = log_sum_exp rnd l_theta;
             w_theta = map (\<lambda>l. fp_exp rnd (fp_sub rnd l lse)) l_theta;
             theta_hat = fp_sum rnd (map2 (fp_mul rnd) theta w_theta);
             k = fp_mean rnd (map (\<lambda>xi. fp_log1p rnd (fp_mul rnd (dbl_neg theta_hat) xi)) x);
             sigma = fp_div rnd (dbl_neg k) theta_hat;
             a = Finite 10;
             n_plus_a = fp_add rnd (Finite (real N)) a;
             k1 = fp_add rnd (fp_div rnd (fp_mul rnd k (Finite (real N))) n_plus_a)
                    (fp_div rnd (fp_mul rnd a (Finite 0.5)) n_plus_a)
         in Some (sigma, k1)))"

definition qgpd :: "(real \<Rightarrow> dbl) \<Rightarrow> dbl list \<Rightarrow> dbl \<Rightarrow> dbl \<Rightarrow> dbl list" where
  "qgpd rnd p k sigma =
     map (\<lambda>pi. fp_div rnd
                  (fp_mul rnd sigma
                     (fp_expm1 rnd (fp_mul rnd (dbl_neg k) (fp_log1p rnd (dbl_neg pi)))))
                  k)
         p"

definition psis_smooth_tail ::
  "(real \<Rightarrow> dbl) \<Rightarrow> dbl list \<Rightarrow> dbl \<Rightarrow> (dbl list \<times> dbl) option" where
  "psis_smooth_tail rnd x cutoff =
     (let exp_cutoff = fp_exp rnd cutoff in
      case gpdfit rnd (map (\<lambda>xi. fp_sub rnd (fp_exp rnd xi) exp_cutoff) x) 30 of
        None \<Rightarrow> None
      | Some (sigma, k) \<Rightarrow>
          (if isinf k then Some (x, k)
           else
             (let x_size = length x;
                  p = map (\<lambda>i. fp_div rnd (fp_sub rnd (Finite (real i)) (Finite 0.5))
                                  (Finite (real x_size)))
                          [1..<x_size + 1]
              in Some (map (\<lambda>q. fp_log rnd (fp_add rnd q exp_cutoff)) (qgpd rnd p k sigma),
                       k))))"

text \<open>
  \<^verbatim>\<open>insert_smooth_to_tail(lw_i, idx, smoothed)\<close>: the loop
  \<^verbatim>\<open>lw_i.coeffRef(idx.coeff(i)) = smoothed.coeff(i)\<close> over the positions of \<open>idx\<close>.
\<close>

definition insert_smooth_to_tail :: "'a list \<Rightarrow> int list \<Rightarrow> 'a list \<Rightarrow> 'a list" where
  "insert_smooth_to_tail lw_i idx smoothed =
     foldl (\<lambda>lw i. lw[nat (idx ! i) := smoothed ! i]) lw_i [0..<length idx]"

definition tail_coeffs :: "'a list \<Rightarrow> nat \<Rightarrow> 'a list" where
  \<comment> \<open>\<^verbatim>\<open>v.tail(n)\<close>: the last \<open>n\<close> coefficients\<close>
  "tail_coeffs v n = drop (length v - n) v"

definition DBL_MIN :: real where
  \<comment> \<open>\<^verbatim>\<open>std::numeric_limits<double>::min()\<close>\<close>
  "DBL_MIN = 1 / 2 ^ 1022"

text \<open>
  \<^verbatim>\<open>psis_weights(log_ratios_i, tail_len_i)\<close>. \<^verbatim>\<open>maxCoeff\<close> of an empty array is
  outside Eigen's domain, as is \<^verbatim>\<open>max_n_elements\<close> with more elements than the
  array has; the model returns \<open>None\<close> there.
\<close>

definition psis_weights :: "(real \<Rightarrow> dbl) \<Rightarrow> dbl list \<Rightarrow> nat \<Rightarrow> dbl list option" where
  "psis_weights rnd log_ratios_i tail_len_i =
     (if log_ratios_i = [] then None
      else
        (let max_log_ratio = maxCoeff log_ratios_i;
             lw_i = map (\<lambda>r. fp_sub rnd r max_log_ratio) log_ratios_i;
             smoothed_lw =
               (if tail_len_i \<ge> 5 then
                  (case max_n_elements lw_i (int tail_len_i + 1) of
                     None \<Rightarrow> None
                   | Some (top_n, top_n_idx) \<Rightarrow>
                       (let lw_tail = tail_coeffs top_n tail_len_i;
                            cutoff = top_n ! 0
                        in if fp_sub rnd (maxCoeff lw_tail) (minCoeff lw_tail)
                                \<le> fp_mul rnd (Finite DBL_MIN) (Finite 10)
                           then Some lw_i
                           else
                             (case psis_smooth_tail rnd lw_tail cutoff of
                                None \<Rightarrow> None
                              | Some (smoothed, khat) \<Rightarrow>
                                  Some (insert_smooth_to_tail lw_i
                                          (tail_coeffs top_n_idx tail_len_i) smoothed))))
                else Some lw_i)
         in case smoothed_lw of
              None \<Rightarrow> None
            | Some lw1 \<Rightarrow>
                (let lw2 = map (\<lambda>w. if Finite 0 < w then Finite 0 else w) lw1;
                     max_adj = map (\<lambda>w. fp_add rnd w max_log_ratio) lw2
                 in Some (map (\<lambda>w. fp_exp rnd (fp_sub rnd w (log_sum_exp rnd max_adj)))
                            max_adj))))"

section \<open>Pathfinder: curvature filter and diagonal update\<close>

text \<open>
  An \<^verbatim>\<open>Eigen::VectorXd\<close> is a list. Eigen's coefficient-wise operations require
  operands of equal size (an assertion in the library); the list versions below pair the
  operands with \<open>zip\<close>, and every statement about them assumes equal lengths.
  \<open>check_curve\<close> and \<open>form_diag\<close> are stated twice: first on real numbers, as the
  model of the driver loop uses them (it follows which pairs enter the history and when
  the diagonal is updated, and leaves rounding out), then, as \<open>form_diag_fp\<close>, on
  doubles with the rounding of every operation.
\<close>

definition dot :: "vec \<Rightarrow> vec \<Rightarrow> real" where
  "dot xs ys = sum_list (map2 (*) xs ys)"

definition squared_sum :: "vec \<Rightarrow> real" where
  "squared_sum xs = sum_list (map (\<lambda>x. x\<^sup>2) xs)"

text \<open>
  \<^verbatim>\<open>check_curve(Yk, Sk, logger)\<close> of \<^verbatim>\<open>single.hpp\<close>: \<^verbatim>\<open>Dk = Yk.dot(Sk)\<close>,
  \<^verbatim>\<open>thetak = abs(Yk.array().square().sum() / Dk)\<close>, result
  \<^verbatim>\<open>Dk > 0 && thetak <= 1e12\<close>. The logger only prints.
\<close>

definition check_curve :: "vec \<Rightarrow> vec \<Rightarrow> bool" where
  "check_curve Yk Sk =
     (let Dk = dot Yk Sk;
          thetak = \<bar>squared_sum Yk / Dk\<bar>
      in Dk > 0 \<and> thetak \<le> 10 ^ 12)"

text \<open>
  \<^verbatim>\<open>form_diag(alpha_init, Yk, Sk)\<close> of \<^verbatim>\<open>single.hpp\<close>: three scalars, then one
  coefficient-wise expression over the arrays.
\<close>

definition form_diag :: "vec \<Rightarrow> vec \<Rightarrow> vec \<Rightarrow> vec" where
  "form_diag alpha_init Yk Sk =
     (let y_alpha_y = dot Yk (map2 (*) alpha_init Yk);
          y_s = dot Yk Sk;
          s_inv_alpha_s = dot Sk (map2 (*) (map inverse alpha_init) Sk)
      in map (\<lambda>(a, y, s).
                y_s / (y_alpha_y / a + y\<^sup>2 - (y_alpha_y / s_inv_alpha_s) * (s / a)\<^sup>2))
             (zip alpha_init (zip Yk Sk)))"

text \<open>
  The diagonal update as the specification writes it (Gilbert and Lemarechal, eq. 4.9),
  coefficient by coefficient, with the quadratic forms as sums over the index range.
\<close>

definition gilbert_lemarechal_update :: "vec \<Rightarrow> vec \<Rightarrow> vec \<Rightarrow> vec" where
  "gilbert_lemarechal_update al y s =
     (let d = length al;
          yTs = (\<Sum>j<d. y ! j * s ! j);
          yTay = (\<Sum>j<d. y ! j * (al ! j * y ! j));
          sTais = (\<Sum>j<d. s ! j * (inverse (al ! j) * s ! j))
      in map (\<lambda>i. yTs / (yTay / al ! i + (y ! i)\<^sup>2 - (yTay / sTais) * (s ! i / al ! i)\<^sup>2))
             [0..<d])"

text \<open>
  \<^verbatim>\<open>check_curve\<close> on doubles, with the rounding \<open>rnd\<close> applied after every
  operation of the source.
\<close>

definition check_curve_fp :: "(real \<Rightarrow> dbl) \<Rightarrow> dbl list \<Rightarrow> dbl list \<Rightarrow> bool" where
  "check_curve_fp rnd Yk Sk =
     (let Dk = fp_dot rnd Yk Sk;
          thetak = dbl_abs (fp_div rnd (fp_sum rnd (map (\<lambda>y. fp_mul rnd y y) Yk)) Dk)
      in Finite 0 < Dk \<and> thetak \<le> Finite (10 ^ 12))"

text \<open>
  \<^verbatim>\<open>form_diag\<close> on doubles, with the rounding \<open>rnd\<close> applied after every operation
  of the source: \<^verbatim>\<open>alpha_init.asDiagonal() * Yk\<close> and the products of the dot
  products, \<^verbatim>\<open>alpha_init.array().inverse()\<close>, the scalar quotient
  \<^verbatim>\<open>y_alpha_y / s_inv_alpha_s\<close>, and, coefficient by coefficient, the quotient by
  \<open>alpha\<close>, the two squares, the product, the sum, the difference and the final
  quotient. \<open>form_diag_fp binary64\<close> is the function as it runs;
  \<open>form_diag_fp no_rounding\<close> is its expression in exact arithmetic.
\<close>

definition form_diag_fp :: "(real \<Rightarrow> dbl) \<Rightarrow> dbl list \<Rightarrow> dbl list \<Rightarrow> dbl list \<Rightarrow> dbl list" where
  "form_diag_fp rnd alpha_init Yk Sk =
     (let y_alpha_y = fp_dot rnd Yk (map2 (fp_mul rnd) alpha_init Yk);
          y_s = fp_dot rnd Yk Sk;
          s_inv_alpha_s =
            fp_dot rnd Sk (map2 (fp_mul rnd) (map (fp_div rnd (Finite 1)) alpha_init) Sk);
          ratio = fp_div rnd y_alpha_y s_inv_alpha_s
      in map (\<lambda>(a, y, s).
                fp_div rnd y_s
                  (fp_sub rnd
                     (fp_add rnd (fp_div rnd y_alpha_y a) (fp_mul rnd y y))
                     (fp_mul rnd ratio (fp_mul rnd (fp_div rnd s a) (fp_div rnd s a)))))
             (zip alpha_init (zip Yk Sk)))"

section \<open>Pathfinder: matrices and the records of the approximation\<close>

text \<open>
  An \<^verbatim>\<open>Eigen::MatrixXd\<close> is modelled by its two dimensions and its coefficient
  function (row index first); only the coefficients inside the dimensions are
  meaningful. Matrix expressions of the source become the corresponding coefficient
  functions. Eigen asserts that the dimensions of the operands of a product, a sum or
  an assignment agree; the model takes the dimensions the source relies on.
\<close>

record 'a matrix =
  rows :: nat
  cols :: nat
  coeff :: "nat \<Rightarrow> nat \<Rightarrow> 'a"

definition col :: "'a matrix \<Rightarrow> nat \<Rightarrow> 'a list" where
  \<comment> \<open>\<^verbatim>\<open>M.col(j)\<close> as a vector\<close>
  "col M j = map (\<lambda>i. coeff M i j) [0..<rows M]"

definition mat_of_cols :: "nat \<Rightarrow> vec list \<Rightarrow> real matrix" where
  \<comment> \<open>the matrix whose column \<open>j\<close> is the \<open>j\<close>-th vector of the list\<close>
  "mat_of_cols r vs = \<lparr>rows = r, cols = length vs, coeff = (\<lambda>i j. vs ! j ! i)\<rparr>"

definition mat_mul :: "real matrix \<Rightarrow> real matrix \<Rightarrow> real matrix" where
  \<comment> \<open>\<^verbatim>\<open>A * B\<close>\<close>
  "mat_mul A B =
     \<lparr>rows = rows A, cols = cols B, coeff = (\<lambda>i j. \<Sum>k<cols A. coeff A i k * coeff B k j)\<rparr>"

definition mat_vec :: "real matrix \<Rightarrow> vec \<Rightarrow> vec" where
  \<comment> \<open>\<^verbatim>\<open>A * v\<close> for a column vector \<open>v\<close>\<close>
  "mat_vec A v = map (\<lambda>i. \<Sum>k<cols A. coeff A i k * v ! k) [0..<rows A]"

definition mat_transpose :: "'a matrix \<Rightarrow> 'a matrix" where
  \<comment> \<open>\<^verbatim>\<open>A.transpose()\<close>\<close>
  "mat_transpose A = \<lparr>rows = cols A, cols = rows A, coeff = (\<lambda>i j. coeff A j i)\<rparr>"

definition mat_add :: "real matrix \<Rightarrow> real matrix \<Rightarrow> real matrix" where
  "mat_add A B = \<lparr>rows = rows A, cols = cols A, coeff = (\<lambda>i j. coeff A i j + coeff B i j)\<rparr>"

definition mat_sub :: "real matrix \<Rightarrow> real matrix \<Rightarrow> real matrix" where
  "mat_sub A B = \<lparr>rows = rows A, cols = cols A, coeff = (\<lambda>i j. coeff A i j - coeff B i j)\<rparr>"

definition mat_neg :: "real matrix \<Rightarrow> real matrix" where
  "mat_neg A = \<lparr>rows = rows A, cols = cols A, coeff = (\<lambda>i j. - coeff A i j)\<rparr>"

definition Identity :: "nat \<Rightarrow> nat \<Rightarrow> real matrix" where
  \<comment> \<open>\<^verbatim>\<open>Eigen::MatrixXd::Identity(r, c)\<close>\<close>
  "Identity r c = \<lparr>rows = r, cols = c, coeff = (\<lambda>i j. if i = j then 1 else 0)\<rparr>"

definition Zero :: "nat \<Rightarrow> nat \<Rightarrow> real matrix" where
  "Zero r c = \<lparr>rows = r, cols = c, coeff = (\<lambda>i j. 0)\<rparr>"

definition asDiagonal :: "vec \<Rightarrow> real matrix" where
  \<comment> \<open>\<^verbatim>\<open>v.asDiagonal()\<close>\<close>
  "asDiagonal v =
     \<lparr>rows = length v, cols = length v, coeff = (\<lambda>i j. if i = j then v ! i else 0)\<rparr>"

definition colwise_add :: "real matrix \<Rightarrow> vec \<Rightarrow> real matrix" where
  \<comment> \<open>\<^verbatim>\<open>M.colwise() + v\<close>\<close>
  "colwise_add M v = \<lparr>rows = rows M, cols = cols M, coeff = (\<lambda>i j. coeff M i j + v ! i)\<rparr>"

definition diagonal :: "'a matrix \<Rightarrow> 'a list" where
  \<comment> \<open>\<^verbatim>\<open>M.diagonal()\<close>\<close>
  "diagonal M = map (\<lambda>i. coeff M i i) [0..<min (rows M) (cols M)]"

definition vec_add :: "vec \<Rightarrow> vec \<Rightarrow> vec" where
  "vec_add u v = map2 (+) u v"

definition vec_sub :: "vec \<Rightarrow> vec \<Rightarrow> vec" where
  "vec_sub u v = map2 (-) u v"

definition vec_mul :: "vec \<Rightarrow> vec \<Rightarrow> vec" where
  \<comment> \<open>the coefficient-wise product \<^verbatim>\<open>u.array() * v.array()\<close>\<close>
  "vec_mul u v = map2 (*) u v"

definition tcrossprod :: "real matrix \<Rightarrow> real matrix" where
  \<comment> \<open>\<^verbatim>\<open>tcrossprod(x)\<close>: the rank update \<open>x * x\<^sup>T\<close> of a zero matrix, read back in full\<close>
  "tcrossprod x = mat_mul x (mat_transpose x)"

text \<open>A C++ exception (a \<^verbatim>\<open>std::exception\<close>, as the Stan libraries throw) with its message.\<close>

datatype exn = Exception string

text \<open>The structs \<^verbatim>\<open>taylor_approx_t\<close> and \<^verbatim>\<open>elbo_est_t\<close>.\<close>

record taylor_approx_t =
  x_center :: vec
  logdetcholHk :: dbl
  L_approx :: "real matrix"
  Qk :: "real matrix"
  alpha :: vec
  use_full :: bool

record elbo_est_t =
  elbo :: dbl
  fn_calls :: nat
  repeat_draws :: "real matrix"
  lp_mat :: "dbl matrix"
  lp_ratio :: "dbl list"

definition elbo_est_default :: elbo_est_t where
  \<comment> \<open>\<^verbatim>\<open>elbo_est_t{}\<close>: the member initialisers and empty matrices\<close>
  "elbo_est_default =
     \<lparr>elbo = NegInf, fn_calls = 0, repeat_draws = Zero 0 0,
      lp_mat = \<lparr>rows = 0, cols = 0, coeff = (\<lambda>i j. Finite 0)\<rparr>, lp_ratio = []\<rparr>"

text \<open>
  \<^verbatim>\<open>approximate_samples(u, taylor_approx)\<close>, the overload for a matrix \<open>u\<close> whose
  columns are the standard normal draws. Eigen evaluates the product
  \<^verbatim>\<open>Qk * (L_approx - I) * (Qk.transpose() * u)\<close> from the left.
\<close>

definition approximate_samples :: "real matrix \<Rightarrow> taylor_approx_t \<Rightarrow> real matrix" where
  "approximate_samples u taylor_approx =
     (if use_full taylor_approx then
        colwise_add (mat_mul (mat_transpose (L_approx taylor_approx)) u)
          (x_center taylor_approx)
      else
        colwise_add
          (mat_mul (asDiagonal (map sqrt (alpha taylor_approx)))
             (mat_add
                (mat_mul
                   (mat_mul (Qk taylor_approx)
                      (mat_sub (L_approx taylor_approx)
                         (Identity (rows (L_approx taylor_approx))
                            (cols (L_approx taylor_approx)))))
                   (mat_mul (mat_transpose (Qk taylor_approx)) u))
                u))
          (x_center taylor_approx))"

text \<open>
  The random number generator is a state \<open>'g\<close> with the function
  \<open>rand_unit_gaus\<close> that returns one standard normal variate and the next state.
  \<^verbatim>\<open>generate_matrix\<close> fills a matrix through \<^verbatim>\<open>NullaryExpr\<close>, one call of the
  generator per coefficient, column after column.
\<close>

fun draw_variates :: "('g \<Rightarrow> real \<times> 'g) \<Rightarrow> nat \<Rightarrow> 'g \<Rightarrow> real list \<times> 'g" where
  "draw_variates variate_generator 0 g = ([], g)"
| "draw_variates variate_generator (Suc n) g =
     (case variate_generator g of
        (x, g1) \<Rightarrow> (case draw_variates variate_generator n g1 of
                      (xs, g2) \<Rightarrow> (x # xs, g2)))"

definition generate_matrix ::
  "('g \<Rightarrow> real \<times> 'g) \<Rightarrow> nat \<Rightarrow> nat \<Rightarrow> 'g \<Rightarrow> real matrix \<times> 'g" where
  "generate_matrix variate_generator num_params num_samples g =
     (case draw_variates variate_generator (num_params * num_samples) g of
        (xs, g1) \<Rightarrow>
          (\<lparr>rows = num_params, cols = num_samples,
            coeff = (\<lambda>i j. xs ! (j * num_params + i))\<rparr>, g1))"

text \<open>
  The loop of \<^verbatim>\<open>est_approx_draws\<close> over the draws: \<^verbatim>\<open>lp_fun\<close> either returns a
  log density or throws; the \<^verbatim>\<open>catch\<close> of the loop body stores minus infinity.
  The call counter is incremented before the call.
\<close>

definition set_coeff :: "'a matrix \<Rightarrow> nat \<Rightarrow> nat \<Rightarrow> 'a \<Rightarrow> 'a matrix" where
  \<comment> \<open>\<^verbatim>\<open>M.coeffRef(i, j) = v\<close>\<close>
  "set_coeff M i j v = M\<lparr>coeff := (\<lambda>i' j'. if i' = i \<and> j' = j then v else coeff M i' j')\<rparr>"

function lp_loop ::
  "(vec \<Rightarrow> exn + dbl) \<Rightarrow> real matrix \<Rightarrow> nat \<Rightarrow> nat \<Rightarrow> dbl matrix \<Rightarrow> nat \<Rightarrow> dbl matrix \<times> nat" where
  "lp_loop lp_fun approx_samples num_samples i lp_mat' lp_fun_calls =
     (if i < num_samples then
        (case lp_fun (col approx_samples i) of
           Inr lp \<Rightarrow>
             lp_loop lp_fun approx_samples num_samples (i + 1)
               (set_coeff lp_mat' i 1 lp) (lp_fun_calls + 1)
         | Inl e \<Rightarrow>
             lp_loop lp_fun approx_samples num_samples (i + 1)
               (set_coeff lp_mat' i 1 NegInf) (lp_fun_calls + 1))
      else (lp_mat', lp_fun_calls))"
  by pat_completeness auto
termination
  by (relation "measure (\<lambda>(lp_fun, approx_samples, num_samples, i, m, c). num_samples - i)") auto

definition LOG_TWO_PI :: real where
  \<comment> \<open>\<^verbatim>\<open>stan::math::LOG_TWO_PI\<close>\<close>
  "LOG_TWO_PI = ln (2 * pi)"

text \<open>
  \<^verbatim>\<open>est_approx_draws<ReturnElbo>(lp_fun, constrain_fun, rng, taylor_approx,
  num_samples, alpha, iter_msg, logger)\<close>. The arguments \<^verbatim>\<open>constrain_fun\<close> and
  \<^verbatim>\<open>alpha\<close> are not used by the body, and the logger only prints; the model has
  the template argument as its first argument and returns the generator state with the
  record. The second column of \<^verbatim>\<open>lp_mat\<close> is not initialised before the loop, which
  writes every row of it; the model starts it at zero. \<^verbatim>\<open>logdetcholHk\<close> is a
  \<^verbatim>\<open>double\<close> that the builders of the approximation compute with \<^verbatim>\<open>log\<close>, so it
  can be infinite or NaN, and the first column of \<^verbatim>\<open>lp_mat\<close> with it.
\<close>

definition est_approx_draws ::
  "bool \<Rightarrow> (vec \<Rightarrow> exn + dbl) \<Rightarrow> ('g \<Rightarrow> real \<times> 'g) \<Rightarrow> 'g \<Rightarrow> taylor_approx_t \<Rightarrow> nat
     \<Rightarrow> elbo_est_t \<times> 'g" where
  "est_approx_draws ReturnElbo lp_fun rand_unit_gaus rng taylor_approx num_samples =
     (let num_params = length (x_center taylor_approx) in
      case generate_matrix rand_unit_gaus num_params num_samples rng of
        (unit_samps, rng1) \<Rightarrow>
          (let lp_mat0 =
                 \<lparr>rows = num_samples, cols = 2,
                  coeff = (\<lambda>i j. if j = 0
                      then dbl_add (dbl_neg (logdetcholHk taylor_approx))
                             (Finite (- 0.5 * ((\<Sum>k<num_params. (coeff unit_samps k i)\<^sup>2)
                                               + real num_params * LOG_TWO_PI)))
                      else Finite 0)\<rparr>;
               approx_samples = approximate_samples unit_samps taylor_approx
           in case lp_loop lp_fun approx_samples num_samples 0 lp_mat0 0 of
                (lp_mat1, lp_fun_calls) \<Rightarrow>
                  (let lp_ratio' = map (\<lambda>i. dbl_sub (coeff lp_mat1 i 1) (coeff lp_mat1 i 0))
                                      [0..<num_samples]
                   in if ReturnElbo then
                        (\<lparr>elbo = dbl_mean lp_ratio', fn_calls = lp_fun_calls,
                          repeat_draws = approx_samples, lp_mat = lp_mat1,
                          lp_ratio = lp_ratio'\<rparr>, rng1)
                      else
                        (\<lparr>elbo = NegInf, fn_calls = lp_fun_calls,
                          repeat_draws = approx_samples, lp_mat = lp_mat1,
                          lp_ratio = lp_ratio'\<rparr>, rng1))))"

section \<open>Pathfinder: the Taylor approximation\<close>

text \<open>
  The matrix decompositions come from Eigen, which is outside the repository; the model
  takes them as parameters: the lower Cholesky factor
  \<^verbatim>\<open>A.llt().matrixL()\<close>, the packed result \<^verbatim>\<open>matrixQR()\<close> and the orthogonal
  factor \<^verbatim>\<open>householderQ()\<close> of \<^verbatim>\<open>Eigen::HouseholderQR\<close>, and the triangular
  solve \<^verbatim>\<open>R.triangularView<Eigen::Upper>().solve(B)\<close>.
\<close>

record eigen_decompositions =
  llt_matrixL :: "real matrix \<Rightarrow> real matrix"
  householder_matrixQR :: "real matrix \<Rightarrow> real matrix"
  householder_Q :: "real matrix \<Rightarrow> real matrix"
  upper_solve :: "real matrix \<Rightarrow> real matrix \<Rightarrow> real matrix"

definition stack_rows :: "real matrix \<Rightarrow> real matrix \<Rightarrow> real matrix" where
  \<comment> \<open>a matrix given by its \<^verbatim>\<open>topRows\<close> and its \<^verbatim>\<open>bottomRows\<close>\<close>
  "stack_rows A B =
     \<lparr>rows = rows A + rows B, cols = cols A,
      coeff = (\<lambda>i j. if i < rows A then coeff A i j else coeff B (i - rows A) j)\<rparr>"

definition four_corners ::
  "nat \<Rightarrow> real matrix \<Rightarrow> real matrix \<Rightarrow> real matrix \<Rightarrow> real matrix \<Rightarrow> real matrix" where
  \<comment> \<open>a \<open>2h \<times> 2h\<close> matrix given by its four \<open>h \<times> h\<close> corners\<close>
  "four_corners h TL TR BL BR =
     \<lparr>rows = 2 * h, cols = 2 * h,
      coeff = (\<lambda>i j. if i < h then (if j < h then coeff TL i j else coeff TR i (j - h))
                       else (if j < h then coeff BL (i - h) j else coeff BR (i - h) (j - h)))\<rparr>"

definition topLeftCorner :: "real matrix \<Rightarrow> nat \<Rightarrow> nat \<Rightarrow> real matrix" where
  "topLeftCorner A r c = \<lparr>rows = r, cols = c, coeff = coeff A\<rparr>"

definition upper_part :: "real matrix \<Rightarrow> real matrix" where
  \<comment> \<open>the coefficients on and above the diagonal, zero below it\<close>
  "upper_part A =
     \<lparr>rows = rows A, cols = cols A, coeff = (\<lambda>i j. if i \<le> j then coeff A i j else 0)\<rparr>"

definition log_abs_sum :: "vec \<Rightarrow> dbl" where
  \<comment> \<open>\<^verbatim>\<open>v.array().abs().log().sum()\<close>\<close>
  "log_abs_sum v = dbl_sum (map (\<lambda>x. dbl_log \<bar>x\<bar>) v)"

definition log_sum :: "vec \<Rightarrow> dbl" where
  \<comment> \<open>\<^verbatim>\<open>v.array().log().sum()\<close>\<close>
  "log_sum v = dbl_sum (map dbl_log v)"

definition taylor_approximation_full ::
  "eigen_decompositions \<Rightarrow> real matrix \<Rightarrow> vec \<Rightarrow> vec \<Rightarrow> real matrix \<Rightarrow> vec \<Rightarrow> vec
     \<Rightarrow> taylor_approx_t" where
  "taylor_approximation_full E Ykt_mat alpha' Dk ninvRST point_est grad_est =
     (let y_tcrossprod_alpha =
            mat_add
              (tcrossprod (mat_mul (mat_transpose Ykt_mat) (asDiagonal (map sqrt alpha'))))
              (asDiagonal Dk);
          y_mul_alpha = mat_mul (mat_transpose Ykt_mat) (asDiagonal alpha');
          Hk = mat_add
                 (mat_add
                    (mat_mul (mat_transpose y_mul_alpha) ninvRST)
                    (mat_mul (mat_transpose ninvRST)
                       (mat_add y_mul_alpha (mat_mul y_tcrossprod_alpha ninvRST))))
                 (asDiagonal alpha');
          L_hk = mat_transpose (llt_matrixL E Hk);
          logdetcholHk' = log_abs_sum (diagonal L_hk);
          x_center' = vec_sub point_est (mat_vec Hk grad_est)
      in \<lparr>x_center = x_center', logdetcholHk = logdetcholHk', L_approx = L_hk,
          Qk = Zero 0 0, alpha = alpha', use_full = True\<rparr>)"

definition taylor_approximation_sparse ::
  "eigen_decompositions \<Rightarrow> real matrix \<Rightarrow> vec \<Rightarrow> vec \<Rightarrow> real matrix \<Rightarrow> vec \<Rightarrow> vec
     \<Rightarrow> taylor_approx_t" where
  "taylor_approximation_sparse E Ykt_mat alpha' Dk ninvRST point_est grad_est =
     (let history_size = cols Ykt_mat;
          history_size_times_2 = history_size * 2;
          num_params = length alpha';
          y_mul_sqrt_alpha = mat_mul (mat_transpose Ykt_mat) (asDiagonal (map sqrt alpha'));
          Wkbart = stack_rows y_mul_sqrt_alpha
                     (mat_mul ninvRST (asDiagonal (map sqrt (map inverse alpha'))));
          y_tcrossprod_alpha = mat_add (tcrossprod y_mul_sqrt_alpha) (asDiagonal Dk);
          Mkbar = four_corners history_size
                    (Zero history_size history_size)
                    (Identity history_size history_size)
                    (Identity history_size history_size)
                    y_tcrossprod_alpha;
          Wkbar = mat_transpose Wkbart;
          min_size = min num_params history_size_times_2;
          Rkbar = upper_part
                    (topLeftCorner (householder_matrixQR E Wkbar) min_size history_size_times_2);
          Qk' = mat_mul (householder_Q E Wkbar) (Identity num_params min_size);
          L_approx' = mat_transpose
                        (llt_matrixL E
                           (mat_add (mat_mul (mat_mul Rkbar Mkbar) (mat_transpose Rkbar))
                              (Identity min_size min_size)));
          logdetcholHk' = dbl_add (log_abs_sum (diagonal L_approx'))
                            (dbl_half (log_sum alpha'));
          ninvRSTg = mat_vec ninvRST grad_est;
          alpha_mul_grad = vec_mul alpha' grad_est;
          x_center' =
            vec_sub point_est
              (vec_add
                 (vec_add alpha_mul_grad (vec_mul alpha' (mat_vec Ykt_mat ninvRSTg)))
                 (mat_vec (mat_transpose ninvRST)
                    (vec_add (mat_vec (mat_transpose Ykt_mat) alpha_mul_grad)
                       (mat_vec y_tcrossprod_alpha ninvRSTg))))
      in \<lparr>x_center = x_center', logdetcholHk = logdetcholHk', L_approx = L_approx',
          Qk = Qk', alpha = alpha', use_full = False\<rparr>)"

text \<open>
  \<^verbatim>\<open>taylor_approximation\<close>: the test \<^verbatim>\<open>2 * Ykt_mat.cols() >= Ykt_mat.rows()\<close> is on
  \<^verbatim>\<open>Eigen::Index\<close> values; the number of columns is at most the history size, an
  \<^verbatim>\<open>int\<close>, so the product does not leave the 64-bit range.
\<close>

definition taylor_approximation ::
  "eigen_decompositions \<Rightarrow> real matrix \<Rightarrow> vec \<Rightarrow> vec \<Rightarrow> real matrix \<Rightarrow> vec \<Rightarrow> vec
     \<Rightarrow> taylor_approx_t" where
  "taylor_approximation E Ykt_mat alpha' Dk ninvRST point_est grad_est =
     (if 2 * cols Ykt_mat \<ge> rows Ykt_mat
      then taylor_approximation_full E Ykt_mat alpha' Dk ninvRST point_est grad_est
      else taylor_approximation_sparse E Ykt_mat alpha' Dk ninvRST point_est grad_est)"

text \<open>
  \<^verbatim>\<open>pathfinder_impl\<close>. The in-place solve overwrites \<^verbatim>\<open>Skt_mat\<close> with
  \<open>R\<^sup>-\<^sup>1 S\<^sup>T\<close> (transposed), which is then negated; the model names the result
  \<open>ninvRST\<close>. The \<^verbatim>\<open>catch\<close> around \<^verbatim>\<open>est_approx_draws\<close> has nothing to catch
  in the model, where that function has no throwing step left.
\<close>

definition pathfinder_impl ::
  "eigen_decompositions \<Rightarrow> ('g \<Rightarrow> real \<times> 'g) \<Rightarrow> 'g \<Rightarrow> (vec \<Rightarrow> exn + dbl) \<Rightarrow> vec \<Rightarrow> vec \<Rightarrow> vec
     \<Rightarrow> real matrix \<Rightarrow> real matrix \<Rightarrow> nat \<Rightarrow> (elbo_est_t \<times> taylor_approx_t) \<times> 'g" where
  "pathfinder_impl E rand_unit_gaus rng lp_fun alpha' current_params current_grads
       Ykt_mat Skt_mat num_elbo_draws =
     (let Rk = upper_part (mat_mul (mat_transpose Skt_mat) Ykt_mat);
          Dk = diagonal Rk;
          ninvRST = mat_neg (upper_solve E Rk (mat_transpose Skt_mat));
          taylor_appx = taylor_approximation E Ykt_mat alpha' Dk ninvRST
                          current_params current_grads
      in case est_approx_draws True lp_fun rand_unit_gaus rng taylor_appx num_elbo_draws of
           (elbo_est, rng1) \<Rightarrow> ((elbo_est, taylor_appx), rng1))"

section \<open>Pathfinder: the older implementation (namespace \<^verbatim>\<open>stan::services::optimize\<close>)\<close>

text \<open>
  The second \<^verbatim>\<open>single.hpp\<close> holds an older implementation. Its
  \<^verbatim>\<open>taylor_approx_t\<close> has no \<open>alpha\<close> member, and its history is a
  \<^verbatim>\<open>std::vector\<close> of column vectors. The names of its struct members carry the
  suffix \<open>0\<close> here.
\<close>

record optimize_taylor_approx_t =
  x_center0 :: vec
  logdetcholHk0 :: dbl
  L_approx0 :: "real matrix"
  Qk0 :: "real matrix"
  use_full0 :: bool

definition crossprod :: "real matrix \<Rightarrow> real matrix \<Rightarrow> real matrix" where
  \<comment> \<open>\<^verbatim>\<open>crossprod(x, y)\<close>: \<^verbatim>\<open>x.transpose() * y\<close>\<close>
  "crossprod x y = mat_mul (mat_transpose x) y"

definition crossprod_vec :: "real matrix \<Rightarrow> vec \<Rightarrow> vec" where
  \<comment> \<open>\<^verbatim>\<open>crossprod(x, y)\<close> for a column vector \<open>y\<close>\<close>
  "crossprod_vec x y = mat_vec (mat_transpose x) y"

definition std_vec_matrix_times_diagonal :: "vec list \<Rightarrow> vec \<Rightarrow> real matrix" where
  \<comment> \<open>row \<open>i\<close> is \<^verbatim>\<open>y_buff[i].array() * alpha.array()\<close>\<close>
  "std_vec_matrix_times_diagonal y_buff alpha' =
     \<lparr>rows = length y_buff, cols = length alpha',
      coeff = (\<lambda>i j. y_buff ! i ! j * alpha' ! j)\<rparr>"

definition std_vec_matrix_crossprod_vector :: "vec list \<Rightarrow> vec \<Rightarrow> vec" where
  \<comment> \<open>the sum of \<^verbatim>\<open>y_buff[i] * x[i]\<close>, a vector of the size of \<^verbatim>\<open>y_buff[0]\<close>\<close>
  "std_vec_matrix_crossprod_vector y_buff x =
     map (\<lambda>r. \<Sum>i<length y_buff. y_buff ! i ! r * x ! i) [0..<length (y_buff ! 0)]"

definition std_vec_matrix_mul_vector :: "vec list \<Rightarrow> vec \<Rightarrow> vec" where
  \<comment> \<open>coefficient \<open>i\<close> is \<^verbatim>\<open>y_buff[i].dot(alpha)\<close>\<close>
  "std_vec_matrix_mul_vector y_buff alpha' = map (\<lambda>y. dot y alpha') y_buff"

text \<open>\<^verbatim>\<open>get_rnorm_and_draws(u, taylor_approx, alpha)\<close>.\<close>

definition get_rnorm_and_draws ::
  "real matrix \<Rightarrow> optimize_taylor_approx_t \<Rightarrow> vec \<Rightarrow> real matrix" where
  "get_rnorm_and_draws u taylor_approx alpha' =
     (if use_full0 taylor_approx then
        colwise_add (crossprod (L_approx0 taylor_approx) u) (x_center0 taylor_approx)
      else
        (let u1 = mat_mul (mat_transpose (Qk0 taylor_approx)) u in
         colwise_add
           (mat_mul (asDiagonal (map sqrt alpha'))
              (mat_add
                 (mat_mul (Qk0 taylor_approx) (crossprod (L_approx0 taylor_approx) u1))
                 (mat_sub u (mat_mul (Qk0 taylor_approx) u1))))
           (x_center0 taylor_approx)))"

definition construct_taylor_approximation_full ::
  "eigen_decompositions \<Rightarrow> vec list \<Rightarrow> vec \<Rightarrow> vec \<Rightarrow> real matrix \<Rightarrow> vec \<Rightarrow> vec
     \<Rightarrow> optimize_taylor_approx_t" where
  "construct_taylor_approximation_full E Ykt_mat alpha' Dk ninvRST point_est grad_est =
     (let y_tcrossprod_alpha =
            mat_add (tcrossprod (std_vec_matrix_times_diagonal Ykt_mat (map sqrt alpha')))
              (asDiagonal Dk);
          y_mul_alpha = std_vec_matrix_times_diagonal Ykt_mat alpha';
          Hk = mat_add
                 (mat_add
                    (mat_add (crossprod y_mul_alpha ninvRST) (crossprod ninvRST y_mul_alpha))
                    (crossprod ninvRST (mat_mul y_tcrossprod_alpha ninvRST)))
                 (asDiagonal alpha');
          L_hk = mat_transpose (llt_matrixL E Hk);
          logdetcholHk' = log_abs_sum (diagonal L_hk);
          x_center' = vec_sub point_est (mat_vec Hk grad_est)
      in \<lparr>x_center0 = x_center', logdetcholHk0 = logdetcholHk', L_approx0 = L_hk,
          Qk0 = Zero 0 0, use_full0 = True\<rparr>)"

definition construct_taylor_approximation_sparse ::
  "eigen_decompositions \<Rightarrow> vec list \<Rightarrow> vec \<Rightarrow> vec \<Rightarrow> real matrix \<Rightarrow> vec \<Rightarrow> vec
     \<Rightarrow> optimize_taylor_approx_t" where
  "construct_taylor_approximation_sparse E Ykt_mat alpha' Dk ninvRST point_est grad_est =
     (let current_history_size' = length Ykt_mat;
          y_mul_sqrt_alpha = std_vec_matrix_times_diagonal Ykt_mat (map sqrt alpha');
          Wkbart = stack_rows y_mul_sqrt_alpha
                     (mat_mul ninvRST (asDiagonal (map sqrt (map inverse alpha'))));
          y_tcrossprod_alpha = mat_add (tcrossprod y_mul_sqrt_alpha) (asDiagonal Dk);
          Mkbar = four_corners current_history_size'
                    (Zero current_history_size' current_history_size')
                    (Identity current_history_size' current_history_size')
                    (Identity current_history_size' current_history_size')
                    y_tcrossprod_alpha;
          Wkbar = mat_transpose Wkbart;
          min_size = min (rows Wkbar) (cols Wkbar);
          Rkbar = upper_part (topLeftCorner (householder_matrixQR E Wkbar) min_size (cols Wkbar));
          Qk' = mat_mul (householder_Q E Wkbar) (Identity (rows Wkbar) min_size);
          L_approx' = mat_transpose
                        (llt_matrixL E
                           (mat_add (mat_mul (mat_mul Rkbar Mkbar) (mat_transpose Rkbar))
                              (Identity (rows Rkbar) (rows Rkbar))));
          logdetcholHk' = dbl_add (log_abs_sum (diagonal L_approx'))
                            (dbl_half (log_sum alpha'));
          ninvRSTg = mat_vec ninvRST grad_est;
          alpha_mul_grad = vec_mul alpha' grad_est;
          x_center' =
            vec_sub point_est
              (vec_add
                 (vec_add
                    (vec_add alpha_mul_grad
                       (vec_mul alpha' (std_vec_matrix_crossprod_vector Ykt_mat ninvRSTg)))
                    (crossprod_vec ninvRST (std_vec_matrix_mul_vector Ykt_mat alpha_mul_grad)))
                 (crossprod_vec ninvRST (mat_vec y_tcrossprod_alpha ninvRSTg)))
      in \<lparr>x_center0 = x_center', logdetcholHk0 = logdetcholHk', L_approx0 = L_approx',
          Qk0 = Qk', use_full0 = False\<rparr>)"

text \<open>
  \<^verbatim>\<open>construct_taylor_approximation\<close> tests
  \<^verbatim>\<open>2 * Ykt_mat.size() >= Ykt_mat[0].size()\<close>; for an empty history
  \<^verbatim>\<open>Ykt_mat[0]\<close> does not exist, and the model returns \<open>None\<close>.
\<close>

definition construct_taylor_approximation ::
  "eigen_decompositions \<Rightarrow> vec list \<Rightarrow> vec \<Rightarrow> vec \<Rightarrow> real matrix \<Rightarrow> vec \<Rightarrow> vec
     \<Rightarrow> optimize_taylor_approx_t option" where
  "construct_taylor_approximation E Ykt_mat alpha' Dk ninvRST point_est grad_est =
     (if Ykt_mat = [] then None
      else if 2 * length Ykt_mat \<ge> length (Ykt_mat ! 0)
      then Some (construct_taylor_approximation_full E Ykt_mat alpha' Dk ninvRST
                   point_est grad_est)
      else Some (construct_taylor_approximation_sparse E Ykt_mat alpha' Dk ninvRST
                   point_est grad_est))"

text \<open>
  The history of the older \<^verbatim>\<open>pathfinder_lbfgs_single\<close>. It keeps every iterate in
  \<^verbatim>\<open>param_vecs\<close> and \<^verbatim>\<open>grad_vecs\<close>, takes the differences of consecutive iterates
  as the columns of \<^verbatim>\<open>Ykt_diff\<close> and \<^verbatim>\<open>Skt_diff\<close>, applies the matrix overload of
  \<^verbatim>\<open>check_curve\<close> to them, and sets \<^verbatim>\<open>check_curve_vec[0] = true\<close> (the first pair is
  always kept). At iteration \<open>iter\<close> the history is \<^verbatim>\<open>ys_cols\<close>: the columns from
  \<open>iter\<close> down to \<open>0\<close> whose entry of \<^verbatim>\<open>check_curve_vec\<close> is true, at most
  \<^verbatim>\<open>history_size\<close> of them. Matrices are the lists of their columns here.
\<close>

definition column_diffs :: "vec list \<Rightarrow> vec list" where
  \<comment> \<open>column \<open>i\<close> is \<^verbatim>\<open>vecs[i + 1] - vecs[i]\<close>\<close>
  "column_diffs vecs = map (\<lambda>i. vec_sub (vecs ! (i + 1)) (vecs ! i)) [0..<length vecs - 1]"

definition check_curve_cols :: "vec list \<Rightarrow> vec list \<Rightarrow> bool list" where
  \<comment> \<open>the overload \<^verbatim>\<open>check_curve(Yk, Sk)\<close> on matrices, one result for each column\<close>
  "check_curve_cols Yk Sk =
     map2 (\<lambda>y s. let Dk = sum_list (map2 (*) y s);
                     thetak = \<bar>sum_list (map (\<lambda>x. x\<^sup>2) y) / Dk\<bar>
                 in Dk > 0 \<and> thetak \<le> 10 ^ 12)
          Yk Sk"

fun ys_cols_loop :: "bool list \<Rightarrow> nat \<Rightarrow> nat \<Rightarrow> nat list \<Rightarrow> nat list" where
  "ys_cols_loop check_curve_vec history_size' 0 ys_cols =
     (if check_curve_vec ! 0 then ys_cols @ [0] else ys_cols)"
| "ys_cols_loop check_curve_vec history_size' (Suc end_iter) ys_cols =
     (let ys_cols1 = (if check_curve_vec ! Suc end_iter then ys_cols @ [Suc end_iter]
                      else ys_cols)
      in if length ys_cols1 = history_size' then ys_cols1
         else ys_cols_loop check_curve_vec history_size' end_iter ys_cols1)"

definition older_history :: "vec list \<Rightarrow> vec list \<Rightarrow> nat \<Rightarrow> nat \<Rightarrow> nat list" where
  "older_history param_vecs grad_vecs history_size' iter =
     (let Ykt_diff = column_diffs param_vecs;
          Skt_diff = column_diffs grad_vecs;
          check_curve_vec = (check_curve_cols Ykt_diff Skt_diff)[0 := True]
      in ys_cols_loop check_curve_vec history_size' iter [])"

section \<open>Pathfinder: the driver \<^verbatim>\<open>pathfinder_lbfgs_single\<close>\<close>

text \<open>
  The driver works with collaborators whose code is not under \<^verbatim>\<open>src/\<close>; the model
  takes them as the fields of a record. The optimizer
  \<^verbatim>\<open>stan::optimization::BFGSLineSearch\<close> is a state \<open>'o\<close> with \<^verbatim>\<open>step()\<close> (the
  return code and the optimizer afterwards) and its accessors; the
  \<^verbatim>\<open>callbacks::interrupt\<close> is a state \<open>'i\<close> and a call that returns or throws; the
  model gives the log density (\<^verbatim>\<open>log_prob<false, true>\<close>, which returns or throws),
  \<^verbatim>\<open>write_array\<close> and \<^verbatim>\<open>log_prob_grad\<close>; \<^verbatim>\<open>util::initialize\<close> gives the initial
  point; the generator \<open>'g\<close> gives standard normal variates. Loggers and writers only
  receive output and are left out.
\<close>

record ('o, 'i, 'g) collaborators =
  lbfgs_init :: "vec \<Rightarrow> 'o"
  lbfgs_step :: "'o \<Rightarrow> int \<times> 'o"
  lbfgs_curr_x :: "'o \<Rightarrow> vec"
  lbfgs_curr_g :: "'o \<Rightarrow> vec"
  lbfgs_iter_num :: "'o \<Rightarrow> nat"
  lbfgs_grad_evals :: "'o \<Rightarrow> nat"
  interrupt :: "'i \<Rightarrow> exn + 'i"
  util_initialize :: "'g \<Rightarrow> (exn + vec) \<times> 'g"
  model_log_prob_grad :: "vec \<Rightarrow> exn + vec"
  model_log_prob :: "vec \<Rightarrow> exn + dbl"
  model_write_array :: "'g \<Rightarrow> vec \<Rightarrow> (exn + vec) \<times> 'g"
  unit_gaus :: "'g \<Rightarrow> real \<times> 'g"
  eigen :: eigen_decompositions

text \<open>
  The arguments of the driver that its results depend on. \<^verbatim>\<open>history_size\<close> and
  \<^verbatim>\<open>num_elbo_draws\<close> are \<^verbatim>\<open>int\<close> in the source and used as sizes; the model has
  them as natural numbers.
\<close>

record pathfinder_args =
  history_size :: nat
  num_elbo_draws :: nat
  num_draws :: int

text \<open>The local variables of the driver that live across the iterations of its loop.\<close>

record ('o, 'i, 'g) pathfinder_state =
  ret :: int
  lbfgs :: 'o
  interrupt_state :: 'i
  rng_state :: 'g
  prev_params :: vec
  prev_grads :: vec
  param_buff :: "vec list"
  grad_buff :: "vec list"
  current_history_size :: nat
  alpha_diag :: vec
  best_E :: int
  elbo_best :: elbo_est_t
  taylor_approx_best :: taylor_approx_t
  num_evals :: nat

definition taylor_approx_default :: taylor_approx_t where
  \<comment> \<open>the default-initialised \<^verbatim>\<open>taylor_approx_best\<close>: empty vectors and matrices; its two
      scalar members are not initialised and are assigned before they are read\<close>
  "taylor_approx_default =
     \<lparr>x_center = [], logdetcholHk = Finite 0, L_approx = Zero 0 0, Qk = Zero 0 0, alpha = [],
      use_full = False\<rparr>"

text \<open>
  Modelled from the spec: \<^verbatim>\<open>boost::circular_buffer\<close> is not under \<^verbatim>\<open>src/\<close>.
  The specification has the history hold at most \<open>m\<close> pairs, the newest appended and
  the oldest evicted when it is full; this is \<^verbatim>\<open>push_back\<close> on a buffer of capacity
  \<open>m\<close> (a buffer of capacity zero stays empty).
\<close>

definition cb_push_back :: "nat \<Rightarrow> 'a list \<Rightarrow> 'a \<Rightarrow> 'a list" where
  "cb_push_back capacity buf x =
     (if capacity = 0 then buf
      else if length buf < capacity then buf @ [x]
      else tl buf @ [x])"

text \<open>
  One pass through the body of \<^verbatim>\<open>while (ret == 0)\<close>. \<^verbatim>\<open>interrupt()\<close> is outside
  every \<^verbatim>\<open>try\<close> block, so an exception it throws leaves the function. The pair
  \<open>(s, y)\<close> is pushed into the two buffers before \<^verbatim>\<open>check_curve\<close> is called, and
  \<^verbatim>\<open>check_curve\<close> receives \<^verbatim>\<open>param_buff.back()\<close> first and \<^verbatim>\<open>grad_buff.back()\<close>
  second, while \<^verbatim>\<open>form_diag\<close> receives them in the other order.
\<close>

definition lbfgs_iteration ::
  "('o, 'i, 'g) collaborators \<Rightarrow> pathfinder_args \<Rightarrow> ('o, 'i, 'g) pathfinder_state
     \<Rightarrow> exn + ('o, 'i, 'g) pathfinder_state" where
  "lbfgs_iteration C A s =
     (case interrupt C (interrupt_state s) of
        Inl e \<Rightarrow> Inl e
      | Inr i1 \<Rightarrow>
          (case lbfgs_step C (lbfgs s) of
             (r, o1) \<Rightarrow>
               (if r = - 1 then
                  Inr (s\<lparr>ret := r, lbfgs := o1, interrupt_state := i1\<rparr>)
                else
                  (let num_parameters = length (prev_params s);
                       param_buff1 = cb_push_back (history_size A) (param_buff s)
                                       (vec_sub (lbfgs_curr_x C o1) (prev_params s));
                       grad_buff1 = cb_push_back (history_size A) (grad_buff s)
                                      (vec_sub (lbfgs_curr_g C o1) (prev_grads s));
                       current_history_size1 =
                         min (current_history_size s + 1) (history_size A);
                       alpha1 =
                         (if check_curve (last param_buff1) (last grad_buff1)
                          then form_diag (alpha_diag s) (last grad_buff1) (last param_buff1)
                          else alpha_diag s);
                       Ykt_map = mat_of_cols num_parameters
                                   (map (\<lambda>i. grad_buff1 ! i) [0..<current_history_size1]);
                       Skt_map = mat_of_cols num_parameters
                                   (map (\<lambda>i. param_buff1 ! i) [0..<current_history_size1])
                   in case pathfinder_impl (eigen C) (unit_gaus C) (rng_state s)
                             (model_log_prob C) alpha1 (lbfgs_curr_x C o1) (lbfgs_curr_g C o1)
                             Ykt_map Skt_map (num_elbo_draws A) of
                        ((elbo_est, taylor_appx), rng1) \<Rightarrow>
                          (let s1 = s\<lparr>ret := r, lbfgs := o1, interrupt_state := i1,
                                      rng_state := rng1,
                                      prev_params := lbfgs_curr_x C o1,
                                      prev_grads := lbfgs_curr_g C o1,
                                      param_buff := param_buff1, grad_buff := grad_buff1,
                                      current_history_size := current_history_size1,
                                      alpha_diag := alpha1,
                                      num_evals := num_evals s + fn_calls elbo_est\<rparr>
                           in if dbl_less (elbo (elbo_best s)) (elbo elbo_est)
                              then Inr (s1\<lparr>elbo_best := elbo_est,
                                          taylor_approx_best := taylor_appx,
                                          best_E := int (lbfgs_iter_num C o1)\<rparr>)
                              else Inr s1)))))"

text \<open>
  The loop \<^verbatim>\<open>while (ret == 0)\<close>. Whether it ends is up to the optimizer, so the
  loop is a partial function: \<open>None\<close> is a loop that never ends, \<open>Some (Inl e)\<close>
  an exception that leaves it, \<open>Some (Inr s)\<close> the state at its exit.
\<close>

partial_function (option) lbfgs_while ::
  "('o, 'i, 'g) collaborators \<Rightarrow> pathfinder_args \<Rightarrow> ('o, 'i, 'g) pathfinder_state
     \<Rightarrow> (exn + ('o, 'i, 'g) pathfinder_state) option" where
  "lbfgs_while C A s =
     (if ret s = 0 then
        (let step = lbfgs_iteration C A s in
         if isl step then Some (Inl (projl step)) else lbfgs_while C A (projr step))
      else Some (Inr s))"

text \<open>The first \<open>k\<close> passes through the loop, as long as it goes on.\<close>

fun lbfgs_iterations ::
  "nat \<Rightarrow> ('o, 'i, 'g) collaborators \<Rightarrow> pathfinder_args \<Rightarrow> ('o, 'i, 'g) pathfinder_state
     \<Rightarrow> exn + ('o, 'i, 'g) pathfinder_state" where
  "lbfgs_iterations 0 C A s = Inr s"
| "lbfgs_iterations (Suc k) C A s =
     (if ret s = 0 then
        (case lbfgs_iteration C A s of
           Inl e \<Rightarrow> Inl e
         | Inr s1 \<Rightarrow> lbfgs_iterations k C A s1)
      else Inr s)"

text \<open>
  Modelled from the spec: \<^verbatim>\<open>stan/services/error_codes.hpp\<close> is not under
  \<^verbatim>\<open>src/\<close>. The specification names the two codes the driver returns, \<open>OK\<close> and
  \<open>SOFTWARE\<close>.
\<close>

datatype error_codes = OK | SOFTWARE

text \<open>
  The result of the driver for \<^verbatim>\<open>ReturnLpSamples = true\<close>: the return code,
  \<^verbatim>\<open>lp_ratio\<close>, the matrix of constrained draws (as the list of its columns) and the
  number of log density evaluations.
\<close>

type_synonym pathfinder_result = "error_codes \<times> dbl list \<times> dbl list list \<times> nat"

text \<open>
  The loops that fill \<^verbatim>\<open>constrained_draws_mat\<close>: column \<open>i\<close> is the constrained
  image of draw \<open>i\<close> followed by row \<open>i\<close> of the two log density columns.
  \<^verbatim>\<open>constrain_fun\<close> (the model's \<^verbatim>\<open>write_array\<close>) may throw.
\<close>

fun constrain_columns ::
  "('g \<Rightarrow> vec \<Rightarrow> (exn + vec) \<times> 'g) \<Rightarrow> real matrix \<Rightarrow> dbl matrix \<Rightarrow> nat list \<Rightarrow> 'g
     \<Rightarrow> (exn + dbl list list) \<times> 'g" where
  "constrain_columns constrain_fun draws lps [] g = (Inr [], g)"
| "constrain_columns constrain_fun draws lps (i # is) g =
     (case constrain_fun g (col draws i) of
        (Inl e, g1) \<Rightarrow> (Inl e, g1)
      | (Inr constrained, g1) \<Rightarrow>
          (case constrain_columns constrain_fun draws lps is g1 of
             (Inl e, g2) \<Rightarrow> (Inl e, g2)
           | (Inr columns, g2) \<Rightarrow>
               (Inr ((map Finite constrained @ [coeff lps i 0, coeff lps i 1]) # columns),
                g2)))"

text \<open>
  The part of the driver after the loop. \<^verbatim>\<open>param_vecs\<close> is declared and never
  filled, so the early return for \<^verbatim>\<open>param_vecs.size() == 1\<close> is written out with the
  empty list. An exception inside the \<^verbatim>\<open>try\<close> block of the final sampling is caught
  and the draws of the ELBO estimate are returned; an exception of \<^verbatim>\<open>constrain_fun\<close>
  outside that block leaves the function.
\<close>

definition final_draws ::
  "('o, 'i, 'g) collaborators \<Rightarrow> pathfinder_args \<Rightarrow> ('o, 'i, 'g) pathfinder_state
     \<Rightarrow> exn + pathfinder_result" where
  "final_draws C A s =
     (let param_vecs = ([] :: vec list) in
      if ret s < 0 \<and> length param_vecs = 1 then
        Inr (SOFTWARE, [], [], num_evals s + lbfgs_grad_evals C (lbfgs s))
      else
        (let num_evals1 = num_evals s + lbfgs_grad_evals C (lbfgs s) in
         if best_E s = - 1 then Inr (SOFTWARE, [], [], num_evals1)
         else
           (let elbo_draws = repeat_draws (elbo_best s);
                elbo_lp_ratio = lp_ratio (elbo_best s);
                elbo_lp_mat = lp_mat (elbo_best s);
                remaining_draws = num_draws A - int (length elbo_lp_ratio)
            in if remaining_draws > 0 then
                 (case est_approx_draws False (model_log_prob C) (unit_gaus C) (rng_state s)
                         (taylor_approx_best s) (nat remaining_draws) of
                    (est_draws, rng1) \<Rightarrow>
                      (let num_evals2 = num_evals1 + fn_calls est_draws;
                           lp_ratio1 = elbo_lp_ratio @ lp_ratio est_draws
                       in case constrain_columns (model_write_array C) elbo_draws elbo_lp_mat
                                 [0..<cols elbo_draws] rng1 of
                            (Inr columns1, rng2) \<Rightarrow>
                              (case constrain_columns (model_write_array C)
                                      (repeat_draws est_draws) (lp_mat est_draws)
                                      [0..<cols (repeat_draws est_draws)] rng2 of
                                 (Inr columns2, rng3) \<Rightarrow>
                                   Inr (OK, lp_ratio1, columns1 @ columns2, num_evals2)
                               | (Inl e, rng3) \<Rightarrow>
                                   (case constrain_columns (model_write_array C) elbo_draws
                                           elbo_lp_mat [0..<cols elbo_draws] rng3 of
                                      (Inr columns, rng4) \<Rightarrow>
                                        Inr (OK, elbo_lp_ratio, columns, num_evals2)
                                    | (Inl e', rng4) \<Rightarrow> Inl e'))
                          | (Inl e, rng2) \<Rightarrow>
                              (case constrain_columns (model_write_array C) elbo_draws
                                      elbo_lp_mat [0..<cols elbo_draws] rng2 of
                                 (Inr columns, rng3) \<Rightarrow>
                                   Inr (OK, elbo_lp_ratio, columns, num_evals2)
                               | (Inl e', rng3) \<Rightarrow> Inl e')))
               else
                 (case constrain_columns (model_write_array C) elbo_draws elbo_lp_mat
                         [0..<cols elbo_draws] (rng_state s) of
                    (Inr columns, rng1) \<Rightarrow> Inr (OK, elbo_lp_ratio, columns, num_evals1)
                  | (Inl e, rng1) \<Rightarrow> Inl e))))"

text \<open>The state of the driver when it enters the loop.\<close>

definition initial_state ::
  "('o, 'i, 'g) collaborators \<Rightarrow> vec \<Rightarrow> vec \<Rightarrow> 'i \<Rightarrow> 'g \<Rightarrow> ('o, 'i, 'g) pathfinder_state" where
  "initial_state C cont_vector g1 i0 rng1 =
     \<lparr>ret = 0, lbfgs = lbfgs_init C cont_vector, interrupt_state = i0, rng_state = rng1,
      prev_params = cont_vector, prev_grads = g1, param_buff = [], grad_buff = [],
      current_history_size = 0, alpha_diag = replicate (length cont_vector) 1,
      best_E = - 1, elbo_best = elbo_est_default,
      taylor_approx_best = taylor_approx_default,
      num_evals = lbfgs_grad_evals C (lbfgs_init C cont_vector)\<rparr>"

text \<open>
  \<^verbatim>\<open>pathfinder_lbfgs_single<true>\<close>: \<open>None\<close> when the loop never ends,
  \<open>Some (Inl e)\<close> when an exception leaves the function, \<open>Some (Inr r)\<close> when it
  returns \<open>r\<close>.
\<close>

definition pathfinder_lbfgs_single ::
  "('o, 'i, 'g) collaborators \<Rightarrow> pathfinder_args \<Rightarrow> 'i \<Rightarrow> 'g
     \<Rightarrow> (exn + pathfinder_result) option" where
  "pathfinder_lbfgs_single C A i0 rng0 =
     (case util_initialize C rng0 of
        (Inl e, rng1) \<Rightarrow> Some (Inl e)
      | (Inr cont_vector, rng1) \<Rightarrow>
          (case model_log_prob_grad C cont_vector of
             Inl e \<Rightarrow> Some (Inl e)
           | Inr g1 \<Rightarrow>
               (case lbfgs_while C A (initial_state C cont_vector g1 i0 rng1) of
                  None \<Rightarrow> None
                | Some (Inl e) \<Rightarrow> Some (Inl e)
                | Some (Inr s) \<Rightarrow> Some (final_draws C A s))))"

section \<open>Example inputs\<close>

text \<open>
  Concrete collaborators for the evaluations below: a one-dimensional dense approximation
  with unit factor, a three-dimensional sparse approximation with a non-diagonal upper
  factor (as the newer and as the older struct), a log density that throws at the origin, and a generator that returns its
  counter.
\<close>

definition example_dense :: taylor_approx_t where
  "example_dense = \<lparr>x_center = [0], logdetcholHk = Finite 0, L_approx = Identity 1 1, Qk = Zero 0 0,
          alpha = [1], use_full = True\<rparr>"

definition throw_at_zero :: "vec \<Rightarrow> exn + dbl" where
  "throw_at_zero x = (if x ! 0 = 0 then Inl (Exception ''domain error'') else Inr (Finite 1))"

definition count_up :: "nat \<Rightarrow> real \<times> nat" where
  "count_up g = (real g, g + 1)"

definition example_sparse0 :: optimize_taylor_approx_t where
  "example_sparse0 = \<lparr>x_center0 = [0, 0, 0], logdetcholHk0 = Finite 0,
          L_approx0 = mat_of_cols 2 [[1, 0], [1, 1]],
          Qk0 = mat_of_cols 3 [[1, 0, 0], [0, 1, 0]],
          use_full0 = False\<rparr>"

definition example_sparse :: taylor_approx_t where
  "example_sparse = \<lparr>x_center = [0, 0, 0], logdetcholHk = Finite 0,
          L_approx = mat_of_cols 2 [[1, 0], [1, 1]],
          Qk = mat_of_cols 3 [[1, 0, 0], [0, 1, 0]],
          alpha = [1, 1, 1], use_full = False\<rparr>"

text \<open>
  Collaborators for one path in one dimension. The optimizer counts its steps: after
  step \<open>k\<close> the parameter is \<open>k\<close> and the gradient \<open>c * k\<close>; the first step returns
  code \<open>0\<close>, the later ones \<open>40\<close>. The interrupt callback counts its calls and throws
  at the call with count \<open>1\<close>. The decompositions are stand-ins that return their
  argument.
\<close>

definition example_eigen :: eigen_decompositions where
  "example_eigen =
     \<lparr>llt_matrixL = (\<lambda>A. A), householder_matrixQR = (\<lambda>A. A), householder_Q = (\<lambda>A. A),
      upper_solve = (\<lambda>R B. B)\<rparr>"

definition example_collaborators :: "real \<Rightarrow> (nat, nat, nat) collaborators" where
  "example_collaborators c =
     \<lparr>lbfgs_init = (\<lambda>x. 0),
      lbfgs_step = (\<lambda>k. (if k = 0 then 0 else 40, k + 1)),
      lbfgs_curr_x = (\<lambda>k. [real k]),
      lbfgs_curr_g = (\<lambda>k. [c * real k]),
      lbfgs_iter_num = (\<lambda>k. k),
      lbfgs_grad_evals = (\<lambda>k. k + 1),
      interrupt = (\<lambda>i. if i = 1 then Inl (Exception ''interrupted'') else Inr (i + 1)),
      util_initialize = (\<lambda>g. (Inr [0], g)),
      model_log_prob_grad = (\<lambda>x. Inr [0]),
      model_log_prob = (\<lambda>x. Inr (Finite 0)),
      model_write_array = (\<lambda>g x. (Inr x, g)),
      unit_gaus = count_up,
      eigen = example_eigen\<rparr>"

definition example_args :: pathfinder_args where
  "example_args = \<lparr>history_size = 5, num_elbo_draws = 1, num_draws = 1\<rparr>"

text \<open>
  A path of two steps in one dimension: the optimizer moves from \<open>x = 0\<close> to \<open>1\<close> and
  to \<open>2\<close> with return code \<open>0\<close>, and the gradient there is \<open>0\<close>, \<open>1\<close> and \<open>0\<close>.
\<close>

definition example_path :: "(nat, nat, nat) collaborators" where
  "example_path =
     (example_collaborators 0)
       \<lparr>lbfgs_step := (\<lambda>k. (if k < 2 then 0 else 40, k + 1)),
        lbfgs_curr_g := (\<lambda>k. [if k = 1 then 1 else 0])\<rparr>"

section \<open>Properties of the rounding\<close>

lemma round_half_even_bounds:
  "of_int (round_half_even x) \<le> x + 1 / 2" "x - 1 / 2 \<le> of_int (round_half_even x)"
  unfolding round_half_even_def Let_def by (auto; linarith)+

lemma round_half_even_of_int [simp]: "round_half_even (of_int n) = n"
  by (simp add: round_half_even_def)

lemma floor_log2_eq:
  assumes "2 powi e \<le> x" "x < 2 powi (e + 1)"
  shows "\<lfloor>log 2 x\<rfloor> = e"
proof -
  have pos: "0 < x" using assms(1) by (smt (verit) zero_less_power_int)
  have "real_of_int e \<le> log 2 x"
    using assms(1) pos by (simp add: le_log_iff powr_real_of_int')
  moreover have "log 2 x < real_of_int (e + 1)"
    using assms(2) pos by (simp add: log_less_iff powr_real_of_int' del: of_int_add)
  ultimately show ?thesis by (simp add: floor_eq_iff)
qed

lemma binary64_normal:
  assumes lo: "2 powi e \<le> \<bar>x\<bar>" and hi: "\<bar>x\<bar> < 2 powi (e + 1)"
    and e: "- 1022 \<le> e" "e \<le> 1022"
  shows "binary64 x = Finite (of_int (round_half_even (x / 2 powi (e - 52))) * 2 powi (e - 52))"
proof -
  have x0: "x \<noteq> 0" using lo by (smt (verit) zero_less_power_int)
  have ex: "binary64_exponent x = e"
    unfolding binary64_exponent_def using floor_log2_eq [OF lo hi] e by simp
  define q :: real where "q = 2 powi (e - 52)"
  have qpos: "0 < q" by (simp add: q_def)
  define z where "z = x / q"
  have zb: "\<bar>z\<bar> < 2 ^ 53"
  proof -
    have "\<bar>z\<bar> = \<bar>x\<bar> / q" using qpos by (simp add: z_def)
    also have "\<dots> < 2 powi (e + 1) / q" using hi qpos by (simp add: divide_strict_right_mono)
    also have "\<dots> = 2 powi ((e + 1) - (e - 52))"
      unfolding q_def by (rule power_int_diff [symmetric]) simp
    also have "\<dots> = 2 ^ 53" by simp
    finally show ?thesis .
  qed
  have rb: "\<bar>real_of_int (round_half_even z)\<bar> \<le> 2 ^ 53"
  proof -
    have "\<bar>real_of_int (round_half_even z)\<bar> \<le> \<bar>z\<bar> + 1 / 2"
      using round_half_even_bounds [of z] by linarith
    then have "real_of_int \<bar>round_half_even z\<bar> < real_of_int (2 ^ 53 + 1)"
      using zb by simp
    then have "\<bar>round_half_even z\<bar> < 2 ^ 53 + 1" by (simp only: of_int_less_iff)
    then have "\<bar>round_half_even z\<bar> \<le> 2 ^ 53" by linarith
    then have "real_of_int \<bar>round_half_even z\<bar> \<le> real_of_int (2 ^ 53)"
      by (simp only: of_int_le_iff)
    then show ?thesis by simp
  qed
  have "\<bar>real_of_int (round_half_even z) * q\<bar> \<le> 2 ^ 53 * q"
    using rb qpos by (simp add: abs_mult mult_right_mono)
  also have "2 ^ 53 * q = 2 powi 53 * 2 powi (e - 52)" by (simp add: q_def)
  also have "\<dots> = 2 powi (53 + (e - 52))" by (rule power_int_add [symmetric]) simp
  also have "\<dots> = 2 powi (e + 1)" by (rule arg_cong [where f = "\<lambda>k. 2 powi k"]) simp
  also have "\<dots> \<le> 2 powi 1023" using e by (intro power_int_increasing) auto
  also have "\<dots> < (2::real) ^ 1024" by simp
  finally have small: "\<not> 2 ^ 1024 \<le> \<bar>real_of_int (round_half_even z) * q\<bar>" by simp
  show ?thesis
    unfolding binary64_def Let_def ex using x0 small by (simp add: q_def z_def)
qed

lemma round_half_even_minus: "round_half_even (- x) = - round_half_even x"
proof (cases "x = of_int \<lfloor>x\<rfloor>")
  case True
  then obtain n where "x = of_int n" by metis
  then show ?thesis
    by (simp add: round_half_even_def flip: of_int_minus)
next
  case False
  then have fl: "\<lfloor>- x\<rfloor> = - \<lfloor>x\<rfloor> - 1"
    by (simp add: floor_eq_iff) linarith
  define f where "f = \<lfloor>x\<rfloor>"
  define r where "r = x - of_int f"
  have r: "0 < r" "r < 1" using False unfolding r_def f_def by linarith+
  have r': "- x - of_int (- f - 1) = 1 - r" by (simp add: r_def)
  have ev: "even (- f - 1) \<longleftrightarrow> odd f" by simp
  show ?thesis
    unfolding round_half_even_def Let_def fl f_def [symmetric] r' r_def [symmetric] ev
    using r by auto
qed

lemma binary64_minus: "binary64 (- x) = dbl_neg (binary64 x)"
  by (simp add: binary64_def Let_def binary64_exponent_def round_half_even_minus)

lemma round_half_even_ge:
  "of_int n \<le> x \<Longrightarrow> n \<le> round_half_even x"
proof -
  assume "of_int n \<le> x"
  then have "real_of_int n - 1 / 2 \<le> real_of_int (round_half_even x)"
    using round_half_even_bounds(2) [of x] by linarith
  then have "real_of_int n < real_of_int (round_half_even x) + 1" by linarith
  then have "real_of_int n < real_of_int (round_half_even x + 1)" by simp
  then have "n < round_half_even x + 1" by (simp only: of_int_less_iff)
  then show ?thesis by simp
qed

lemma round_half_even_le:
  "x \<le> of_int n \<Longrightarrow> round_half_even x \<le> n"
proof -
  assume "x \<le> of_int n"
  then have "real_of_int (round_half_even x) \<le> real_of_int n + 1 / 2"
    using round_half_even_bounds(1) [of x] by linarith
  then have "real_of_int (round_half_even x) < real_of_int (n + 1)" by simp
  then have "round_half_even x < n + 1" by (simp only: of_int_less_iff)
  then show ?thesis by simp
qed

lemma binary64_binade:
  assumes lo: "2 powi e \<le> x" and hi: "x < 2 powi (e + 1)"
    and e: "- 1022 \<le> e" "e \<le> 1022"
  shows "\<exists>y. binary64 x = Finite y \<and> 2 powi e \<le> y \<and> y \<le> 2 powi (e + 1)"
proof -
  have pos: "0 < x" using lo by (smt (verit) zero_less_power_int)
  define q :: real where "q = 2 powi (e - 52)"
  have qpos: "0 < q" by (simp add: q_def)
  define z where "z = x / q"
  have b: "binary64 x = Finite (of_int (round_half_even z) * q)"
    unfolding z_def q_def using binary64_normal [of e x] lo hi e pos by simp
  have q1: "2 powi e = 2 ^ 52 * q"
  proof -
    have "2 powi 52 * 2 powi (e - 52) = (2::real) powi (52 + (e - 52))"
      by (rule power_int_add [symmetric]) simp
    then show ?thesis by (simp add: q_def)
  qed
  have q2: "2 powi (e + 1) = 2 ^ 53 * q"
  proof -
    have "2 powi 53 * 2 powi (e - 52) = (2::real) powi (53 + (e - 52))"
      by (rule power_int_add [symmetric]) simp
    moreover have "53 + (e - 52) = e + 1" by simp
    ultimately show ?thesis by (simp add: q_def)
  qed
  have "real_of_int (2 ^ 52) \<le> z" using lo qpos unfolding q1 z_def by (simp add: field_simps)
  then have l: "2 ^ 52 \<le> round_half_even z" by (rule round_half_even_ge)
  have "z \<le> real_of_int (2 ^ 53)" using hi qpos unfolding q2 z_def by (simp add: field_simps)
  then have u: "round_half_even z \<le> 2 ^ 53" by (rule round_half_even_le)
  have "real_of_int (2 ^ 52) \<le> real_of_int (round_half_even z)" using l by (simp only: of_int_le_iff)
  then have "2 ^ 52 * q \<le> of_int (round_half_even z) * q" using qpos by simp
  moreover have "real_of_int (round_half_even z) \<le> real_of_int (2 ^ 53)" using u by (simp only: of_int_le_iff)
  then have "of_int (round_half_even z) * q \<le> 2 ^ 53 * q" using qpos by simp
  ultimately show ?thesis using b q1 q2 by simp
qed

lemma binary64_upper:
  assumes pos: "0 < x" and hi: "x < 2 powi k" and k: "- 1021 \<le> k" "k \<le> 1023"
  shows "\<exists>y. binary64 x = Finite y \<and> 0 \<le> y \<and> y \<le> 2 powi k"
proof -
  define e where "e = binary64_exponent x"
  have "log 2 x < real_of_int k"
    using hi pos by (simp add: log_less_iff powr_real_of_int')
  then have "\<lfloor>log 2 x\<rfloor> < k" by (simp add: floor_less_iff)
  then have e: "e \<le> k - 1" "- 1022 \<le> e"
    unfolding e_def binary64_exponent_def using pos k by simp_all
  define q :: real where "q = 2 powi (e - 52)"
  have qpos: "0 < q" by (simp add: q_def)
  define z where "z = x / q"
  define m where "m = nat (k - e + 52)"
  have qk: "2 powi k = 2 ^ m * q"
  proof -
    have "2 powi (int m) * 2 powi (e - 52) = (2::real) powi (int m + (e - 52))"
      by (rule power_int_add [symmetric]) simp
    moreover have "int m + (e - 52) = k" using e by (simp add: m_def)
    ultimately show ?thesis by (simp add: q_def)
  qed
  have "z \<le> real_of_int (2 ^ m)" using hi qpos unfolding qk z_def by (simp add: field_simps)
  then have u: "round_half_even z \<le> 2 ^ m" by (rule round_half_even_le)
  have "real_of_int 0 \<le> z" using pos qpos by (simp add: z_def)
  then have l: "0 \<le> round_half_even z" by (rule round_half_even_ge)
  have "real_of_int (round_half_even z) \<le> real_of_int (2 ^ m)" using u by (simp only: of_int_le_iff)
  then have yu: "of_int (round_half_even z) * q \<le> 2 powi k" using qpos unfolding qk by simp
  have yl: "0 \<le> real_of_int (round_half_even z) * q" using l qpos by simp
  have "(2::real) powi k \<le> 2 powi 1023" using k by (intro power_int_increasing) auto
  also have "\<dots> < (2::real) ^ 1024" by simp
  finally have "\<not> 2 ^ 1024 \<le> \<bar>real_of_int (round_half_even z) * q\<bar>" using yu yl by simp
  then have "binary64 x = Finite (of_int (round_half_even z) * q)"
    unfolding binary64_def Let_def e_def [symmetric] q_def [symmetric] z_def [symmetric]
    using pos by simp
  then show ?thesis using yu yl by simp
qed

lemma binary64_absorb:
  assumes e: "- 1022 \<le> e" "e \<le> 1022" and t: "0 \<le> t" "t < 2 powi (e - 53)"
  shows "binary64 (2 powi e + t) = Finite (2 powi e)"
proof -
  define q :: real where "q = 2 powi (e - 52)"
  have qpos: "0 < q" by (simp add: q_def)
  have q1: "2 powi e = 2 ^ 52 * q"
  proof -
    have "2 powi 52 * 2 powi (e - 52) = (2::real) powi (52 + (e - 52))"
      by (rule power_int_add [symmetric]) simp
    then show ?thesis by (simp add: q_def)
  qed
  have qh: "2 powi (e - 53) = q / 2"
  proof -
    have "2 powi (e - 52) = (2::real) powi ((e - 53) + 1)" by simp
    also have "\<dots> = 2 powi (e - 53) * 2 powi 1" by (rule power_int_add) simp
    finally show ?thesis by (simp add: q_def)
  qed
  have lo: "2 powi e \<le> \<bar>2 powi e + t\<bar>" using t by simp
  have "t < 2 powi e"
  proof -
    have "(2::real) powi (e - 53) \<le> 2 powi e" by (intro power_int_increasing) auto
    then show ?thesis using t by linarith
  qed
  moreover have "(2::real) powi (e + 1) = 2 powi e * 2 powi 1" by (rule power_int_add) simp
  ultimately have hi: "\<bar>2 powi e + t\<bar> < 2 powi (e + 1)" using t by simp
  define z where "z = (2 powi e + t) / q"
  have zz: "z = real_of_int (2 ^ 52) + t / q" using qpos by (simp add: z_def q1 field_simps)
  have r: "0 \<le> t / q" "t / q < 1 / 2" using t qpos unfolding qh by (simp_all add: field_simps)
  have fl: "\<lfloor>z\<rfloor> = 2 ^ 52"
  proof -
    have "real_of_int (2 ^ 52) \<le> z" "z < real_of_int (2 ^ 52) + 1"
      using r unfolding zz by linarith+
    then show ?thesis using floor_eq_iff [of z "2 ^ 52"] by blast
  qed
  have rhe: "round_half_even z = 2 ^ 52"
    unfolding round_half_even_def Let_def fl using r zz by simp
  have b: "binary64 (2 powi e + t)
      = Finite (of_int (round_half_even ((2 powi e + t) / 2 powi (e - 52))) * 2 powi (e - 52))"
    by (rule binary64_normal [OF lo hi e])
  have zdef: "(2 powi e + t) / 2 powi (e - 52) = z" by (simp add: z_def q_def)
  have "binary64 (2 powi e + t) = Finite (real_of_int (2 ^ 52) * q)"
    unfolding b zdef rhe q_def ..
  also have "real_of_int (2 ^ 52) * q = 2 powi e" unfolding q1 by simp
  finally show ?thesis .
qed

section \<open>Properties of the tail extraction\<close>

lemma LinSpaced_index_6: "LinSpaced_index 6 0 6 = [0, 1, 2, 3, 4, 5]"
  by (simp add: LinSpaced_index_def Let_def signed_divide_int_def
      upt_rec [of 0] upt_rec [of "Suc _"] numeral_eq_Suc)

lemma quick_sort_all_sorted_6:
  "quick_sort_all [- 6, - 5, - 4, - 3, - 2, - 1 :: real] [0, 1, 2, 3, 4, 5]
     = ([- 6, - 5, - 4, - 3, - 2, - 1], [0, 1, 2, 3, 4, 5])"
  by (simp add: quick_sort_all_def quick_sort_partition_def swap_coeff_def Let_def)

text \<open>
  The scan of \<open>max_n_elements\<close> starts at its own bound, so its body never runs:
  the result is the sorted head of \<open>lw_i\<close>, whatever follows the head.
\<close>

lemma max_n_elements_sorted_head:
  "0 \<le> n \<Longrightarrow> n \<le> int (length lw_i) \<Longrightarrow>
   max_n_elements lw_i n
     = Some (quick_sort_all (take (nat n) lw_i) (LinSpaced_index n 0 n))"
  by (simp add: max_n_elements_def Let_def split: prod.splits)

text \<open>
  Claim C1 at \<open>lw = [-6, -5, -4, -3, -2, -1, 0]\<close> with tail length \<open>5\<close>:
  \<open>max_n_elements lw 6\<close> returns the first six elements, sorted, with cutoff \<open>-6\<close>,
  while the six largest elements of \<open>lw\<close> are \<open>-5, \<dots>, 0\<close>; the largest
  element, at position \<open>6\<close>, is not in the extracted tail.
\<close>

theorem max_n_elements_misses_later_elements:
  "max_n_elements [- 6, - 5, - 4, - 3, - 2, - 1, 0 :: real] 6
     = Some ([- 6, - 5, - 4, - 3, - 2, - 1], [0, 1, 2, 3, 4, 5])
   \<and> largest_n [- 6, - 5, - 4, - 3, - 2, - 1, 0] 6 = [- 5, - 4, - 3, - 2, - 1, 0]"
  by (simp add: max_n_elements_def LinSpaced_index_6 quick_sort_all_sorted_6 largest_n_def)

section \<open>Properties of the smoothed weights\<close>

lemma length_swap_coeff: "length (swap_coeff arr i j) = length arr"
  by (simp add: swap_coeff_def)

lemma partition_loop_length:
  "partition_loop pivot high j i arr idx = (i1, arr1, idx1) \<Longrightarrow>
   length arr1 = length arr \<and> length idx1 = length idx"
proof (induction pivot high j i arr idx rule: partition_loop.induct)
  case (1 pivot high j i arr idx)
  show ?case
  proof (cases "j \<le> high - 1")
    case False
    with "1.prems" show ?thesis by (simp add: partition_loop.simps [of pivot high j])
  next
    case True
    show ?thesis
    proof (cases "arr ! nat j \<le> pivot")
      case le: True
      have "partition_loop pivot high (j + 1) (i + 1)
                (swap_coeff arr (i + 1) j) (swap_coeff idx (i + 1) j) = (i1, arr1, idx1)"
        using "1.prems" True le by (simp add: partition_loop.simps [of pivot high j])
      from "1.IH"(1) [OF True le this] show ?thesis by (simp add: length_swap_coeff)
    next
      case gt: False
      have "partition_loop pivot high (j + 1) i arr idx = (i1, arr1, idx1)"
        using "1.prems" True gt by (simp add: partition_loop.simps [of pivot high j])
      from "1.IH"(2) [OF True gt this] show ?thesis .
    qed
  qed
qed

lemma quick_sort_partition_length:
  "quick_sort_partition arr idx low high = (p, arr1, idx1) \<Longrightarrow>
   length arr1 = length arr \<and> length idx1 = length idx"
proof -
  assume a: "quick_sort_partition arr idx low high = (p, arr1, idx1)"
  obtain i a1 i1
    where loop: "partition_loop (arr ! nat high) high low (low - 1) arr idx = (i, a1, i1)"
    by (metis surj_pair)
  have l: "length a1 = length arr \<and> length i1 = length idx"
    using loop by (rule partition_loop_length)
  have "arr1 = swap_coeff a1 (i + 1) high" and "idx1 = swap_coeff i1 (i + 1) high"
    using a unfolding quick_sort_partition_def Let_def loop by auto
  then show ?thesis using l by (simp add: length_swap_coeff)
qed

lemma quick_sort_length:
  "quick_sort arr idx low high = (arr1, idx1) \<Longrightarrow>
   length arr1 = length arr \<and> length idx1 = length idx"
proof (induction arr idx low high arbitrary: arr1 idx1 rule: quick_sort.induct)
  case (1 arr idx low high)
  show ?case
  proof (cases "low < high")
    case False
    with "1.prems" show ?thesis by (simp add: quick_sort.simps [of arr idx low high])
  next
    case True
    obtain p a1 i1 where part: "quick_sort_partition arr idx low high = (p, a1, i1)"
      by (metis surj_pair)
    obtain a2 i2 where left: "quick_sort a1 i1 low (p - 1) = (a2, i2)"
      by (metis surj_pair)
    have right: "quick_sort a2 i2 (p + 1) high = (arr1, idx1)"
      using "1.prems" True part left by (simp add: quick_sort.simps [of arr idx low high])
    have l1: "length a1 = length arr \<and> length i1 = length idx"
      using part by (rule quick_sort_partition_length)
    have l2: "length a2 = length a1 \<and> length i2 = length i1"
      using "1.IH"(1) [OF True part [symmetric] refl left] .
    have l3: "length arr1 = length a2 \<and> length idx1 = length i2"
      using "1.IH"(2) [OF True part [symmetric] refl left [symmetric] right] .
    show ?thesis using l1 l2 l3 by simp
  qed
qed

lemma max_n_elements_length:
  assumes "0 \<le> n" and "n \<le> int (length lw_i)"
  shows "\<exists>top_n top_n_idx. max_n_elements lw_i n = Some (top_n, top_n_idx)
           \<and> length top_n = nat n"
proof -
  obtain a1 i1 where q: "quick_sort_all (take (nat n) lw_i) (LinSpaced_index n 0 n) = (a1, i1)"
    by (metis surj_pair)
  have "length a1 = length (take (nat n) lw_i)"
    using q quick_sort_length unfolding quick_sort_all_def by blast
  then have "length a1 = nat n" using assms by simp
  moreover have "max_n_elements lw_i n = Some (a1, i1)"
    using assms q by (simp add: max_n_elements_def Let_def)
  ultimately show ?thesis by blast
qed

lemma gpdfit_returns: "2 \<le> length x \<Longrightarrow> \<exists>sigma k. gpdfit rnd x m = Some (sigma, k)"
  by (simp add: gpdfit_def Let_def)

lemma psis_smooth_tail_returns:
  "2 \<le> length x \<Longrightarrow>
   \<exists>smoothed khat. psis_smooth_tail rnd x cutoff = Some (smoothed, khat)"
proof -
  assume "2 \<le> length x"
  then have "2 \<le> length (map (\<lambda>xi. fp_sub rnd (fp_exp rnd xi) (fp_exp rnd cutoff)) x)" by simp
  then obtain sigma k
    where "gpdfit rnd (map (\<lambda>xi. fp_sub rnd (fp_exp rnd xi) (fp_exp rnd cutoff)) x) 30
             = Some (sigma, k)"
    using gpdfit_returns by blast
  then show ?thesis by (simp add: psis_smooth_tail_def Let_def)
qed

text \<open>
  \<open>psis_weights\<close> returns a vector of weights whenever \<open>lw\<close> is not empty and holds
  more than \<open>tail_len\<close> elements or \<open>tail_len < 5\<close>, with either rounding.
\<close>

lemma psis_weights_returns:
  assumes ne: "lw \<noteq> []" and len: "tail_len < 5 \<or> tail_len + 1 \<le> length lw"
  shows "\<exists>w. psis_weights rnd lw tail_len = Some w"
proof (cases "tail_len \<ge> 5")
  case False
  then show ?thesis using ne by (simp add: psis_weights_def Let_def)
next
  case True
  define lw_i where "lw_i = map (\<lambda>r. fp_sub rnd r (maxCoeff lw)) lw"
  have "int tail_len + 1 \<le> int (length lw_i)" using True len by (simp add: lw_i_def)
  then obtain top_n top_n_idx
    where m: "max_n_elements lw_i (int tail_len + 1) = Some (top_n, top_n_idx)"
      and l: "length top_n = nat (int tail_len + 1)"
    using max_n_elements_length [of "int tail_len + 1" lw_i] by auto
  have "length (tail_coeffs top_n tail_len) = tail_len"
    using l by (simp add: tail_coeffs_def)
  then have "2 \<le> length (tail_coeffs top_n tail_len)" using True by simp
  then obtain smoothed khat
    where "psis_smooth_tail rnd (tail_coeffs top_n tail_len) (top_n ! 0) = Some (smoothed, khat)"
    using psis_smooth_tail_returns by blast
  then show ?thesis
    using ne True m unfolding psis_weights_def Let_def lw_i_def [symmetric]
    by simp
qed

text \<open>
  In exact arithmetic, adding a finite constant \<open>c\<close> to doubles commutes with the
  comparisons, the differences and the reductions of \<open>psis_weights\<close>.
\<close>

lemma fp_add_exact [simp]: "fp_add no_rounding a b = dbl_add a b"
  by (cases a; cases b) (simp_all add: no_rounding_def)

lemma fp_sub_exact [simp]: "fp_sub no_rounding a b = dbl_sub a b"
  by (simp add: fp_sub_def dbl_sub_def)

lemma dbl_less_shift: "dbl_add a (Finite c) < dbl_add b (Finite c) \<longleftrightarrow> a < b"
  by (cases a; cases b) (simp_all add: less_dbl_def)

lemma dbl_sub_shift: "dbl_sub (dbl_add a (Finite c)) (dbl_add b (Finite c)) = dbl_sub a b"
  by (cases a; cases b) (simp_all add: dbl_sub_def)

lemma is_finite_shift: "is_finite (dbl_add a (Finite c)) = is_finite a"
  by (cases a) simp_all

lemma not_finite_shift: "\<not> is_finite a \<Longrightarrow> dbl_add a (Finite c) = a"
  by (cases a) simp_all

lemma dbl_add_shift_left: "dbl_add (dbl_add a (Finite c)) b = dbl_add (dbl_add a b) (Finite c)"
  by (cases a; cases b) simp_all

lemma dbl_add_shift_right: "dbl_add a (dbl_add b (Finite c)) = dbl_add (dbl_add a b) (Finite c)"
  by (cases a; cases b) simp_all

lemma foldl_max_shift:
  "foldl (\<lambda>m x. if m < x then x else m) (dbl_add a (Finite c)) (map (\<lambda>d. dbl_add d (Finite c)) v)
     = dbl_add (foldl (\<lambda>m x. if m < x then x else m) a v) (Finite c)"
  by (induction v arbitrary: a) (simp_all add: dbl_less_shift)

lemma maxCoeff_shift:
  "v \<noteq> [] \<Longrightarrow>
   maxCoeff (map (\<lambda>d. dbl_add d (Finite c)) v) = dbl_add (maxCoeff v) (Finite c)"
  by (cases v) (simp_all add: maxCoeff_def foldl_max_shift)

lemma log_sum_exp_shift:
  "log_sum_exp no_rounding (map (\<lambda>d. dbl_add d (Finite c)) v)
     = dbl_add (log_sum_exp no_rounding v) (Finite c)"
proof (cases "v = []")
  case True
  then show ?thesis by (simp add: log_sum_exp_def)
next
  case False
  show ?thesis
  proof (cases "is_finite (maxCoeff v)")
    case False
    then show ?thesis
      using \<open>v \<noteq> []\<close>
      by (simp add: log_sum_exp_def maxCoeff_shift is_finite_shift not_finite_shift Let_def)
  next
    case True
    then show ?thesis
      using \<open>v \<noteq> []\<close>
      by (simp add: log_sum_exp_def maxCoeff_shift is_finite_shift Let_def comp_def
          dbl_sub_shift dbl_add_shift_left)
  qed
qed


text \<open>
  The evaluation of \<open>psis_weights\<close> in binary64 arithmetic on six equal log ratios
  \<open>a\<close> with tail length \<open>5\<close>: the differences to the maximum are zero, the tail is
  constant and is not smoothed, and every weight is \<open>exp(a - l)\<close> for the rounded
  \<open>l = a + log 6\<close>.
\<close>

lemma quick_sort_all_zeros_6:
  "quick_sort_all [Finite 0, Finite 0, Finite 0, Finite 0, Finite 0, Finite 0] [0, 1, 2, 3, 4, 5]
     = ([Finite 0, Finite 0, Finite 0, Finite 0, Finite 0, Finite 0], [0, 1, 2, 3, 4, 5])"
  by (simp add: quick_sort_all_def quick_sort_partition_def swap_coeff_def Let_def)

lemma binary64_small_integers:
  "binary64 1 = Finite 1" "binary64 2 = Finite 2" "binary64 3 = Finite 3"
  "binary64 4 = Finite 4" "binary64 5 = Finite 5" "binary64 6 = Finite 6"
  by (subst binary64_normal [where e = 0], simp_all add: round_half_even_def Let_def,
      subst binary64_normal [where e = 1], simp_all add: round_half_even_def Let_def,
      subst binary64_normal [where e = 1], simp_all add: round_half_even_def Let_def,
      subst binary64_normal [where e = 2], simp_all add: round_half_even_def Let_def,
      subst binary64_normal [where e = 2], simp_all add: round_half_even_def Let_def,
      subst binary64_normal [where e = 2], simp_all add: round_half_even_def Let_def)

lemma binary64_threshold: "fp_mul binary64 (Finite DBL_MIN) (Finite 10) = Finite (10 / 2 ^ 1022)"
  unfolding DBL_MIN_def
  by (simp, subst binary64_normal [where e = "- 1019"]) (simp_all add: round_half_even_def Let_def)

lemma ln_6_bounds: "1 \<le> ln (6::real)" "ln (6::real) < 2"
proof -
  have "exp (1::real) \<le> 3" by (rule exp_le)
  then have "exp (1::real) \<le> exp (ln 6)" by simp
  then show "1 \<le> ln (6::real)" by (simp only: exp_le_cancel_iff)
  have "(5/2::real) \<le> exp 1" using exp_lower_Taylor_quadratic [of "1::real"] by simp
  then have "(5/2) * (5/2) \<le> exp (1::real) * exp 1" by (intro mult_mono) auto
  then have "(6::real) < exp 2" by (simp flip: exp_add)
  then have "exp (ln 6) < exp (2::real)" by simp
  then show "ln (6::real) < 2" by (simp only: exp_less_cancel_iff)
qed

lemma binary64_ln_6: "\<exists>L. binary64 (ln 6) = Finite L \<and> 1 \<le> L \<and> L \<le> 2"
  using binary64_binade [where e = 0 and x = "ln 6"] ln_6_bounds by simp

lemma binary64_between_1_2:
  assumes "1 \<le> x" "x \<le> 2"
  shows "\<exists>y. binary64 x = Finite y \<and> 1 \<le> y \<and> y \<le> 2"
proof (cases "x = 2")
  case True
  then show ?thesis by (simp add: binary64_small_integers)
next
  case False
  then show ?thesis using binary64_binade [where e = 0 and x = x] assms by simp
qed


lemma psis_weights_six_equal:
  assumes a: "binary64 a = Finite a"
    and L: "binary64 (ln 6) = Finite L"
    and l: "binary64 (a + L) = Finite l"
    and d: "binary64 (a - l) = Finite d"
    and w: "binary64 (exp d) = Finite w"
  shows "psis_weights binary64 [Finite a, Finite a, Finite a, Finite a, Finite a, Finite a] 5
           = Some [Finite w, Finite w, Finite w, Finite w, Finite w, Finite w]"
proof -
  have mx: "maxCoeff [Finite a, Finite a, Finite a, Finite a, Finite a, Finite a] = Finite a"
    by (simp add: maxCoeff_def less_dbl_def)
  have sub: "fp_sub binary64 (Finite a) (Finite a) = Finite 0"
    by (simp add: fp_sub_def binary64_def)
  have sub0: "fp_sub binary64 (Finite 0) (Finite 0) = Finite 0"
    by (simp add: fp_sub_def binary64_def)
  have mn: "max_n_elements [Finite 0, Finite 0, Finite 0, Finite 0, Finite 0, Finite (0::real)] 6
      = Some ([Finite 0, Finite 0, Finite 0, Finite 0, Finite 0, Finite 0], [0, 1, 2, 3, 4, 5])"
    by (simp add: max_n_elements_def LinSpaced_index_6 quick_sort_all_zeros_6)
  have tl: "tail_coeffs [Finite 0, Finite 0, Finite 0, Finite 0, Finite 0, Finite (0::real)] 5
      = [Finite 0, Finite 0, Finite 0, Finite 0, Finite 0]"
    by (simp add: tail_coeffs_def)
  have mm: "maxCoeff [Finite 0, Finite 0, Finite 0, Finite 0, Finite (0::real)] = Finite 0"
    "minCoeff [Finite 0, Finite 0, Finite 0, Finite 0, Finite (0::real)] = Finite 0"
    by (simp_all add: maxCoeff_def minCoeff_def less_dbl_def)
  have add: "fp_add binary64 (Finite 0) (Finite a) = Finite a" using a by simp
  have e1: "fp_exp binary64 (Finite 0) = Finite 1" by (simp add: binary64_small_integers)
  have sum: "fp_sum binary64 [Finite 1, Finite 1, Finite 1, Finite 1, Finite 1, Finite 1] = Finite 6"
    by (simp add: binary64_small_integers)
  have lg: "fp_log binary64 (Finite 6) = Finite L" using L by simp
  have lse: "log_sum_exp binary64 [Finite a, Finite a, Finite a, Finite a, Finite a, Finite a] = Finite l"
    by (simp add: log_sum_exp_def mx Let_def sub binary64_small_integers(1) sum L l
        del: fp_sum.simps)
  have b0: "binary64 0 = Finite 0" by (simp add: binary64_def)
  have thr: "binary64 (DBL_MIN * 10) = Finite (10 / 2 ^ 1022)"
    using binary64_threshold by simp
  show ?thesis
    unfolding psis_weights_def Let_def mx
    by (simp add: b0 a sub mn tl mm sub0 thr add lse fp_sub_def d w less_dbl_def
        del: fp_sum.simps)
qed


lemma exp_minus_one_less_half: "x \<le> - 1 \<Longrightarrow> exp x < (1 / 2 :: real)"
proof -
  assume "x \<le> - 1"
  then have e1: "exp x \<le> exp (- 1 :: real)" by simp
  have "(5/2::real) \<le> exp 1" using exp_lower_Taylor_quadratic [of "1::real"] by simp
  then have e2: "exp (- 1 :: real) \<le> 2 / 5"
    by (simp add: exp_minus field_simps)
  show ?thesis using e1 e2 by linarith
qed

lemma psis_weights_zeros:
  "\<exists>w. psis_weights binary64 [Finite 0, Finite 0, Finite 0, Finite 0, Finite 0, Finite 0] 5
          = Some [Finite w, Finite w, Finite w, Finite w, Finite w, Finite w]
       \<and> w \<le> 1 / 2"
proof -
  have a: "binary64 0 = Finite 0" by (simp add: binary64_def)
  obtain L where L: "binary64 (ln 6) = Finite L" and Lb: "1 \<le> L" "L \<le> 2"
    using binary64_ln_6 by blast
  obtain l where l: "binary64 L = Finite l" and lb: "1 \<le> l" "l \<le> 2"
    using binary64_between_1_2 [OF Lb] by blast
  obtain l' where l': "binary64 l = Finite l'" and lb': "1 \<le> l'" "l' \<le> 2"
    using binary64_between_1_2 [OF lb] by blast
  have d: "binary64 (0 - l) = Finite (- l')"
    using binary64_minus [of l] l' by simp
  have "exp (- l') < 2 powi (- 1)" using exp_minus_one_less_half [of "- l'"] lb' by simp
  then obtain w where w: "binary64 (exp (- l')) = Finite w" and wb: "w \<le> 2 powi (- 1)"
    using binary64_upper [where x = "exp (- l')" and k = "- 1"] by auto
  have "psis_weights binary64 [Finite 0, Finite 0, Finite 0, Finite 0, Finite 0, Finite 0] 5
          = Some [Finite w, Finite w, Finite w, Finite w, Finite w, Finite w]"
    by (rule psis_weights_six_equal [OF a L _ d w]) (simp add: l)
  then show ?thesis using wb by auto
qed

lemma psis_weights_shifted_zeros:
  "psis_weights binary64
     [Finite (2 ^ 60), Finite (2 ^ 60), Finite (2 ^ 60), Finite (2 ^ 60), Finite (2 ^ 60),
      Finite (2 ^ 60)] 5
     = Some [Finite 1, Finite 1, Finite 1, Finite 1, Finite 1, Finite 1]"
proof -
  define c :: real where "c = 2 ^ 60"
  have c: "c = 2 powi 60" by (simp add: c_def)
  have a: "binary64 c = Finite c"
    using binary64_absorb [where e = 60 and t = 0] by (simp add: c)
  obtain L where L: "binary64 (ln 6) = Finite L" and Lb: "1 \<le> L" "L \<le> 2"
    using binary64_ln_6 by blast
  have l: "binary64 (c + L) = Finite c"
    unfolding c by (rule binary64_absorb) (use Lb in simp_all)
  have d: "binary64 (c - c) = Finite 0" by (simp add: binary64_def)
  have w: "binary64 (exp 0) = Finite 1" by (simp add: binary64_small_integers)
  show ?thesis
    using psis_weights_six_equal [OF a L l d w] unfolding c_def .
qed


section \<open>Properties of the diagonal update\<close>

lemma dot_sum_nth:
  "length xs = length ys \<Longrightarrow> dot xs ys = (\<Sum>j<length xs. xs ! j * ys ! j)"
proof -
  assume len: "length xs = length ys"
  have "dot xs ys = (\<Sum>j = 0..<length (map2 (*) xs ys). map2 (*) xs ys ! j)"
    unfolding dot_def by (rule sum_list_sum_nth)
  also have "\<dots> = (\<Sum>j<length xs. xs ! j * ys ! j)"
    using len by (simp add: lessThan_atLeast0)
  finally show ?thesis .
qed

lemma form_diag_nth:
  assumes "length Yk = length al" "length Sk = length al" "i < length al"
  shows "form_diag al Yk Sk ! i =
           dot Yk Sk / (dot Yk (map2 (*) al Yk) / al ! i + (Yk ! i)\<^sup>2
             - (dot Yk (map2 (*) al Yk) / dot Sk (map2 (*) (map inverse al) Sk))
               * (Sk ! i / al ! i)\<^sup>2)"
  using assms by (simp add: form_diag_def Let_def)

lemma length_form_diag:
  "length Yk = length al \<Longrightarrow> length Sk = length al \<Longrightarrow>
   length (form_diag al Yk Sk) = length al"
  by (simp add: form_diag_def Let_def)

lemma form_diag_eq_spec:
  assumes "length Yk = length al" "length Sk = length al"
  shows "form_diag al Yk Sk = gilbert_lemarechal_update al Yk Sk"
proof (rule nth_equalityI)
  show "length (form_diag al Yk Sk) = length (gilbert_lemarechal_update al Yk Sk)"
    using assms by (simp add: length_form_diag gilbert_lemarechal_update_def Let_def)
next
  fix i assume "i < length (form_diag al Yk Sk)"
  then have i: "i < length al" using assms by (simp add: length_form_diag)
  have a: "dot Yk (map2 (*) al Yk) = (\<Sum>j<length al. Yk ! j * (al ! j * Yk ! j))"
    using assms by (simp add: dot_sum_nth)
  have b: "dot Sk (map2 (*) (map inverse al) Sk)
             = (\<Sum>j<length al. Sk ! j * (inverse (al ! j) * Sk ! j))"
    using assms by (simp add: dot_sum_nth)
  have c: "dot Yk Sk = (\<Sum>j<length al. Yk ! j * Sk ! j)"
    using assms by (simp add: dot_sum_nth)
  show "form_diag al Yk Sk ! i = gilbert_lemarechal_update al Yk Sk ! i"
    using i assms by (simp add: form_diag_nth a b c gilbert_lemarechal_update_def Let_def)
qed

lemma gl_denominator_pos:
  fixes a y s :: "nat \<Rightarrow> real"
  assumes apos: "\<forall>j<d. 0 < a j"
    and ys: "0 < (\<Sum>j<d. y j * s j)"
    and i: "i < d"
  defines "A \<equiv> (\<Sum>j<d. y j * (a j * y j))"
    and "B \<equiv> (\<Sum>j<d. s j * (inverse (a j) * s j))"
  shows "0 < A / a i + (y i)\<^sup>2 - (A / B) * (s i / a i)\<^sup>2" and "0 < B"
proof -
  define t where "t j = s j * (inverse (a j) * s j)" for j
  have t_nonneg: "0 \<le> t j" if "j < d" for j
  proof -
    have e: "t j = (s j)\<^sup>2 * inverse (a j)" by (simp add: t_def power2_eq_square)
    have "0 < inverse (a j)" using apos that by simp
    then have "0 \<le> (s j)\<^sup>2 * inverse (a j)" by simp
    then show ?thesis unfolding e .
  qed
  have t_zero: "s j = 0" if "j < d" "t j = 0" for j
  proof -
    have e: "t j = (s j)\<^sup>2 * inverse (a j)" by (simp add: t_def power2_eq_square)
    have "inverse (a j) \<noteq> 0" using apos that by auto
    then show ?thesis using that(2) unfolding e by simp
  qed
  have B: "B = (\<Sum>j<d. t j)" by (simp add: B_def t_def)
  have ai: "0 < a i" using apos i by simp
  have ti_le: "t i \<le> B" unfolding B
    by (rule member_le_sum) (use i t_nonneg in auto)
  have B_nonneg: "0 \<le> B" unfolding B by (rule sum_nonneg) (use t_nonneg in auto)
  have B_pos: "0 < B"
  proof (rule ccontr)
    assume "\<not> 0 < B"
    then have "(\<Sum>j<d. t j) = 0" using B_nonneg B by simp
    then have "\<forall>j\<in>{..<d}. t j = 0"
      by (subst (asm) sum_nonneg_eq_0_iff) (use t_nonneg in auto)
    then have "\<forall>j\<in>{..<d}. y j * s j = 0" using t_zero by auto
    then have "(\<Sum>j<d. y j * s j) = 0" by (rule sum.neutral)
    with ys show False by simp
  qed
  have A_terms: "0 \<le> y j * (a j * y j)" if "j < d" for j
  proof -
    have e: "y j * (a j * y j) = a j * (y j)\<^sup>2" by (simp add: power2_eq_square)
    have "0 < a j" using apos that by simp
    then have "0 \<le> a j * (y j)\<^sup>2" by simp
    then show ?thesis unfolding e .
  qed
  have A_nonneg: "0 \<le> A" unfolding A_def by (rule sum_nonneg) (use A_terms in auto)
  have A_pos: "0 < A"
  proof (rule ccontr)
    assume "\<not> 0 < A"
    then have "(\<Sum>j<d. y j * (a j * y j)) = 0" using A_nonneg A_def by simp
    then have z: "\<forall>j\<in>{..<d}. y j * (a j * y j) = 0"
      by (subst (asm) sum_nonneg_eq_0_iff) (use A_terms in auto)
    have "y j = 0" if "j < d" for j
    proof -
      have "a j \<noteq> 0" using apos that by auto
      then show ?thesis using z that by auto
    qed
    then have "\<forall>j\<in>{..<d}. y j * s j = 0" by simp
    then have "(\<Sum>j<d. y j * s j) = 0" by (rule sum.neutral)
    with ys show False by simp
  qed
  have sq: "(s i / a i)\<^sup>2 = t i / a i"
    using ai by (simp add: t_def power2_eq_square field_simps)
  have denom: "A / a i + (y i)\<^sup>2 - (A / B) * (s i / a i)\<^sup>2
                 = (A / a i) * (1 - t i / B) + (y i)\<^sup>2"
    unfolding sq using ai B_pos by (simp add: field_simps)
  have coef: "0 < A / a i" using A_pos ai by simp
  show "0 < B" by (rule B_pos)
  show "0 < A / a i + (y i)\<^sup>2 - (A / B) * (s i / a i)\<^sup>2"
  proof (cases "t i < B")
    case True
    then have "0 < 1 - t i / B" using B_pos by simp
    with coef have "0 < (A / a i) * (1 - t i / B)" by (rule mult_pos_pos)
    moreover have "0 \<le> (y i)\<^sup>2" by simp
    ultimately show ?thesis unfolding denom by linarith
  next
    case False
    then have eq: "t i = B" using ti_le by simp
    have "B = t i + (\<Sum>j\<in>{..<d} - {i}. t j)"
      unfolding B by (rule sum.remove) (use i in auto)
    then have "(\<Sum>j\<in>{..<d} - {i}. t j) = 0" using eq by simp
    then have "\<forall>j\<in>{..<d} - {i}. t j = 0"
      by (subst (asm) sum_nonneg_eq_0_iff) (use t_nonneg in auto)
    then have rest: "\<forall>j\<in>{..<d} - {i}. y j * s j = 0" using t_zero by auto
    have "(\<Sum>j<d. y j * s j) = y i * s i + (\<Sum>j\<in>{..<d} - {i}. y j * s j)"
      by (rule sum.remove) (use i in auto)
    also have "(\<Sum>j\<in>{..<d} - {i}. y j * s j) = 0" using rest by (rule sum.neutral)
    finally have "0 < y i * s i" using ys by simp
    then have "y i \<noteq> 0" by auto
    then have ypos: "0 < (y i)\<^sup>2" by simp
    have "t i / B = 1" using eq B_pos by simp
    then have "(A / a i) * (1 - t i / B) = 0" by simp
    then have "(A / a i) * (1 - t i / B) + (y i)\<^sup>2 = (y i)\<^sup>2" by linarith
    then show ?thesis unfolding denom using ypos by linarith
  qed
qed

text \<open>
  With doubles read as real numbers, \<open>form_diag\<close> is the Gilbert-Lemarechal update
  and positive.
\<close>

lemma form_diag_update_positive:
  assumes len: "length y = length al" "length s = length al"
    and apos: "\<forall>a\<in>set al. 0 < a"
    and curve: "check_curve y s"
  shows "form_diag al y s = gilbert_lemarechal_update al y s
         \<and> length (form_diag al y s) = length al
         \<and> (\<forall>a'\<in>set (form_diag al y s). 0 < a')"
proof -
  have ys: "0 < dot y s" using curve by (simp add: check_curve_def Let_def)
  have ys': "0 < (\<Sum>j<length al. y ! j * s ! j)"
    using ys len by (simp add: dot_sum_nth)
  have apos': "\<forall>j<length al. 0 < al ! j" using apos by simp
  have pos: "0 < form_diag al y s ! i" if i: "i < length al" for i
  proof -
    have a: "dot y (map2 (*) al y) = (\<Sum>j<length al. y ! j * (al ! j * y ! j))"
      using len by (simp add: dot_sum_nth)
    have b: "dot s (map2 (*) (map inverse al) s)
               = (\<Sum>j<length al. s ! j * (inverse (al ! j) * s ! j))"
      using len by (simp add: dot_sum_nth)
    have den: "0 < dot y (map2 (*) al y) / al ! i + (y ! i)\<^sup>2
                 - (dot y (map2 (*) al y) / dot s (map2 (*) (map inverse al) s))
                   * (s ! i / al ! i)\<^sup>2"
      unfolding a b by (rule gl_denominator_pos(1) [OF apos' ys' i])
    show ?thesis
      unfolding form_diag_nth [OF len i] using ys den by (rule divide_pos_pos)
  qed
  have "\<forall>a'\<in>set (form_diag al y s). 0 < a'"
    using pos by (auto simp: in_set_conv_nth length_form_diag [OF len])
  then show ?thesis
    using form_diag_eq_spec [OF len] length_form_diag [OF len] by simp
qed

text \<open>
  In exact arithmetic the operations on doubles are the operations on real numbers, and
  \<open>form_diag_fp no_rounding\<close> is \<open>form_diag\<close> wherever no division by zero occurs.
\<close>

lemma fp_sum_exact_foldl:
  "foldl (fp_add no_rounding) (Finite a) (map Finite xs) = Finite (a + sum_list xs)"
  by (induction xs arbitrary: a) (simp_all add: no_rounding_def algebra_simps)

lemma fp_sum_exact: "fp_sum no_rounding (map Finite xs) = Finite (sum_list xs)"
  by (cases xs) (simp_all add: fp_sum_exact_foldl)

lemma fp_mul_exact_map2:
  "map2 (fp_mul no_rounding) (map Finite xs) (map Finite ys) = map Finite (map2 (*) xs ys)"
  by (simp add: zip_map_map no_rounding_def split_def comp_def)

lemma fp_dot_exact: "fp_dot no_rounding (map Finite xs) (map Finite ys) = Finite (dot xs ys)"
  by (simp only: fp_dot_def fp_mul_exact_map2 fp_sum_exact dot_def)

lemma fp_inverse_exact:
  "\<forall>a\<in>set al. a \<noteq> 0 \<Longrightarrow>
   map (fp_div no_rounding (Finite 1)) (map Finite al) = map Finite (map inverse al)"
  by (simp add: no_rounding_def inverse_eq_divide comp_def)

lemma form_diag_fp_exact:
  assumes len: "length y = length al" "length s = length al"
    and apos: "\<forall>a\<in>set al. 0 < a"
    and ys: "0 < dot y s"
  shows "form_diag_fp no_rounding (map Finite al) (map Finite y) (map Finite s)
           = map Finite (form_diag al y s)"
proof (rule nth_equalityI)
  show "length (form_diag_fp no_rounding (map Finite al) (map Finite y) (map Finite s))
          = length (map Finite (form_diag al y s))"
    using len by (simp add: form_diag_fp_def form_diag_def Let_def)
next
  fix i assume "i < length (form_diag_fp no_rounding (map Finite al) (map Finite y) (map Finite s))"
  then have i: "i < length al" using len by (simp add: form_diag_fp_def Let_def)
  define A where "A = dot y (map2 (*) al y)"
  define B where "B = dot s (map2 (*) (map inverse al) s)"
  define D where "D = dot y s"
  have ys': "0 < (\<Sum>j<length al. y ! j * s ! j)" using ys len by (simp add: dot_sum_nth)
  have apos': "\<forall>j<length al. 0 < al ! j" using apos by simp
  have a: "A = (\<Sum>j<length al. y ! j * (al ! j * y ! j))"
    unfolding A_def using len by (simp add: dot_sum_nth)
  have b: "B = (\<Sum>j<length al. s ! j * (inverse (al ! j) * s ! j))"
    unfolding B_def using len by (simp add: dot_sum_nth)
  have den: "0 < A / al ! i + (y ! i)\<^sup>2 - (A / B) * (s ! i / al ! i)\<^sup>2"
    unfolding a b by (rule gl_denominator_pos(1) [OF apos' ys' i])
  have Bpos: "0 < B"
    unfolding b by (rule gl_denominator_pos(2) [OF apos' ys' i])
  have ai: "0 < al ! i" using apos' i by simp
  have nz: "\<forall>a\<in>set al. a \<noteq> 0" using apos by auto
  have d1: "fp_dot no_rounding (map Finite y)
              (map2 (fp_mul no_rounding) (map Finite al) (map Finite y)) = Finite A"
    by (simp only: fp_mul_exact_map2 fp_dot_exact A_def)
  have d2: "fp_dot no_rounding (map Finite y) (map Finite s) = Finite D"
    by (simp only: fp_dot_exact D_def)
  have d3: "fp_dot no_rounding (map Finite s)
              (map2 (fp_mul no_rounding)
                 (map (fp_div no_rounding (Finite 1)) (map Finite al)) (map Finite s)) = Finite B"
    by (simp only: fp_inverse_exact [OF nz] fp_mul_exact_map2 fp_dot_exact B_def)
  have ratio: "fp_div no_rounding (Finite A) (Finite B) = Finite (A / B)"
    using Bpos by (simp add: no_rounding_def)
  have F: "form_diag_fp no_rounding (map Finite al) (map Finite y) (map Finite s)
      = map (\<lambda>(a, y, s).
                fp_div no_rounding (Finite D)
                  (fp_sub no_rounding
                     (fp_add no_rounding (fp_div no_rounding (Finite A) a) (fp_mul no_rounding y y))
                     (fp_mul no_rounding (Finite (A / B))
                        (fp_mul no_rounding (fp_div no_rounding s a) (fp_div no_rounding s a)))))
             (zip (map Finite al) (zip (map Finite y) (map Finite s)))"
    by (simp only: form_diag_fp_def Let_def d1 d2 d3 ratio)
  have den': "A / al ! i + y ! i * y ! i - A / B * (s ! i / al ! i * (s ! i / al ! i)) \<noteq> 0"
    using den by (simp add: power2_eq_square)
  have "form_diag_fp no_rounding (map Finite al) (map Finite y) (map Finite s) ! i
      = Finite (D / (A / al ! i + y ! i * y ! i - A / B * (s ! i / al ! i * (s ! i / al ! i))))"
    unfolding F using i len ai den' by (simp add: fp_sub_def no_rounding_def)
  also have "\<dots> = map Finite (form_diag al y s) ! i"
    using i len
    by (simp add: form_diag_nth length_form_diag power2_eq_square A_def B_def D_def)
  finally show "form_diag_fp no_rounding (map Finite al) (map Finite y) (map Finite s) ! i
      = map Finite (form_diag al y s) ! i" .
qed

text \<open>
  Claim C8, amended. For an elementwise-positive \<open>alpha\<close> and a pair \<open>(y, s)\<close> that
  passes the curvature check, \<open>form_diag\<close> evaluates the expression of the
  Gilbert-Lemarechal diagonal update; evaluated in exact arithmetic its result is that
  update, and every coefficient of it is positive. (Evaluated in binary64 arithmetic the
  difference in the denominator can cancel, and the computed coefficient need not be
  positive: see \<open>form_diag_binary64_negative\<close> below.)
\<close>

theorem form_diag_exact_gilbert_lemarechal_positive:
  assumes len: "length y = length al" "length s = length al"
    and apos: "\<forall>a\<in>set al. 0 < a"
    and curve: "check_curve y s"
  shows "form_diag_fp no_rounding (map Finite al) (map Finite y) (map Finite s)
           = map Finite (gilbert_lemarechal_update al y s)
         \<and> length (gilbert_lemarechal_update al y s) = length al
         \<and> (\<forall>a'\<in>set (gilbert_lemarechal_update al y s). 0 < a')"
proof -
  have ys: "0 < dot y s" using curve by (simp add: check_curve_def Let_def)
  have "form_diag_fp no_rounding (map Finite al) (map Finite y) (map Finite s)
          = map Finite (form_diag al y s)"
    by (rule form_diag_fp_exact [OF len apos ys])
  moreover have "form_diag al y s = gilbert_lemarechal_update al y s"
    and "length (form_diag al y s) = length al"
    and "\<forall>a'\<in>set (form_diag al y s). 0 < a'"
    using form_diag_update_positive [OF len apos curve] by blast+
  ultimately show ?thesis by metis
qed

theorem form_diag_exact_gilbert_lemarechal_positive_witness:
  "length [1, 2 :: real] = length [1, 1 :: real]
   \<and> length [3, 1 :: real] = length [1, 1 :: real]
   \<and> list_all (\<lambda>a. 0 < a) [1, 1 :: real]
   \<and> check_curve [1, 2] [3, 1]
   \<and> form_diag_fp no_rounding (map Finite [1, 1]) (map Finite [1, 2]) (map Finite [3, 1])
       = map Finite (gilbert_lemarechal_update [1, 1] [1, 2] [3, 1])
   \<and> length (gilbert_lemarechal_update [1, 1] [1, 2] [3, 1]) = length [1, 1 :: real]
   \<and> list_all (\<lambda>a'. 0 < a') (gilbert_lemarechal_update [1, 1] [1, 2] [3, 1])"
proof -
  have h1: "length [1, 2 :: real] = length [1, 1 :: real]" by simp
  have h2: "length [3, 1 :: real] = length [1, 1 :: real]" by simp
  have h3: "\<forall>a\<in>set [1, 1 :: real]. 0 < a" by simp
  have h4: "check_curve [1, 2] [3, 1]"
    by (simp add: check_curve_def dot_def squared_sum_def Let_def)
  show ?thesis
    using h1 h2 h3 h4 form_diag_exact_gilbert_lemarechal_positive [OF h1 h2 h3 h4]
    unfolding list_all_iff by blast
qed

text \<open>
  Claim C8 as stated fails in binary64 arithmetic. At \<open>alpha = (1, 1)\<close>,
  \<open>y = (2\<^sup>-\<^sup>2\<^sup>7, 15)\<close>, \<open>s = (7, 2\<^sup>-\<^sup>2\<^sup>7)\<close> the pair passes the curvature check, as
  real numbers and as the code computes it, in either order of the arguments. \<open>y_alpha_y\<close> rounds to
  \<open>225\<close> and \<open>s_inv_alpha_s\<close> to \<open>49\<close>; the quotient \<open>225 / 49\<close> rounds up, and its
  product with \<open>49\<close> rounds to \<open>225 + 2\<^sup>-\<^sup>4\<^sup>5\<close>, so the denominator of the first
  coefficient is \<open>- 2\<^sup>-\<^sup>4\<^sup>5\<close> and the coefficient is \<open>22 * 2\<^sup>-\<^sup>2\<^sup>7 / (- 2\<^sup>-\<^sup>4\<^sup>5)\<close>,
  a negative number.
\<close>

theorem form_diag_binary64_negative:
  "list_all (\<lambda>a. 0 < a) [1, 1 :: real]
   \<and> check_curve [1 / 2 ^ 27, 15] [7, 1 / 2 ^ 27]
   \<and> check_curve [7, 1 / 2 ^ 27] [1 / 2 ^ 27, 15]
   \<and> check_curve_fp binary64 (map Finite [1 / 2 ^ 27, 15]) (map Finite [7, 1 / 2 ^ 27])
   \<and> check_curve_fp binary64 (map Finite [7, 1 / 2 ^ 27]) (map Finite [1 / 2 ^ 27, 15])
   \<and> form_diag_fp binary64 (map Finite [1, 1]) (map Finite [1 / 2 ^ 27, 15])
         (map Finite [7, 1 / 2 ^ 27]) ! 0 = Finite (- 5767168)"
proof -
  define e :: real where "e = 1 / 2 ^ 27"
  define e2 :: real where "e2 = 1 / 2 ^ 54"
  define r :: real where "r = 5169948551828376 / 2 ^ 50"
  define p :: real where "p = 225 + 1 / 2 ^ 45"
  define n :: real where "n = - (1 / 2 ^ 45)"
  define d :: real where "d = 22 / 2 ^ 27"
  define d1 :: real where "d1 = 7 / 2 ^ 27"
  define d2 :: real where "d2 = 15 / 2 ^ 27"
  have one_e: "fp_mul binary64 (Finite 1) (Finite e) = Finite e"
    unfolding e_def
    by (simp, subst binary64_normal [where e = "- 27"]) (simp_all add: round_half_even_def Let_def)
  have one_15: "fp_mul binary64 (Finite 1) (Finite 15) = Finite 15"
    by (simp, subst binary64_normal [where e = 3]) (simp_all add: round_half_even_def Let_def)
  have one_7: "fp_mul binary64 (Finite 1) (Finite 7) = Finite 7"
    by (simp, subst binary64_normal [where e = 2]) (simp_all add: round_half_even_def Let_def)
  have e_e: "fp_mul binary64 (Finite e) (Finite e) = Finite e2"
    unfolding e_def e2_def
    by (simp, subst binary64_normal [where e = "- 54"]) (simp_all add: round_half_even_def Let_def)
  have sq15: "fp_mul binary64 (Finite 15) (Finite 15) = Finite 225"
    by (simp, subst binary64_normal [where e = 7]) (simp_all add: round_half_even_def Let_def)
  have sq7: "fp_mul binary64 (Finite 7) (Finite 7) = Finite 49"
    by (simp, subst binary64_normal [where e = 5]) (simp_all add: round_half_even_def Let_def)
  have add225: "fp_add binary64 (Finite e2) (Finite 225) = Finite 225"
    unfolding e2_def
    by (simp, subst binary64_normal [where e = 7]) (simp_all add: round_half_even_def Let_def)
  have add225': "fp_add binary64 (Finite 225) (Finite e2) = Finite 225"
    unfolding e2_def
    by (simp, subst binary64_normal [where e = 7]) (simp_all add: round_half_even_def Let_def)
  have add49: "fp_add binary64 (Finite 49) (Finite e2) = Finite 49"
    unfolding e2_def
    by (simp, subst binary64_normal [where e = 5]) (simp_all add: round_half_even_def Let_def)
  have e_7: "fp_mul binary64 (Finite e) (Finite 7) = Finite d1"
    unfolding e_def d1_def
    by (simp, subst binary64_normal [where e = "- 25"]) (simp_all add: round_half_even_def Let_def)
  have f15_e: "fp_mul binary64 (Finite 15) (Finite e) = Finite d2"
    unfolding e_def d2_def
    by (simp, subst binary64_normal [where e = "- 24"]) (simp_all add: round_half_even_def Let_def)
  have add_d: "fp_add binary64 (Finite d1) (Finite d2) = Finite d"
    unfolding d_def d1_def d2_def
    by (simp, subst binary64_normal [where e = "- 23"]) (simp_all add: round_half_even_def Let_def)
  have inv1: "fp_div binary64 (Finite 1) (Finite 1) = Finite 1"
    by (simp, subst binary64_normal [where e = 0]) (simp_all add: round_half_even_def Let_def)
  have ratio: "fp_div binary64 (Finite 225) (Finite 49) = Finite r"
    unfolding r_def
    by (simp, subst binary64_normal [where e = 2]) (simp_all add: round_half_even_def Let_def)
  have div225: "fp_div binary64 (Finite 225) (Finite 1) = Finite 225"
    by (simp, subst binary64_normal [where e = 7]) (simp_all add: round_half_even_def Let_def)
  have div7: "fp_div binary64 (Finite 7) (Finite 1) = Finite 7"
    by (simp, subst binary64_normal [where e = 2]) (simp_all add: round_half_even_def Let_def)
  have prod: "fp_mul binary64 (Finite r) (Finite 49) = Finite p"
    unfolding r_def p_def
    by (simp, subst binary64_normal [where e = 7]) (simp_all add: round_half_even_def Let_def)
  have diff: "fp_sub binary64 (Finite 225) (Finite p) = Finite n"
    unfolding p_def n_def fp_sub_def
    by (simp, subst binary64_normal [where e = "- 45"]) (simp_all add: round_half_even_def Let_def)
  have quot: "fp_div binary64 (Finite d) (Finite n) = Finite (- 5767168)"
    unfolding d_def n_def
    by (simp, subst binary64_normal [where e = 22]) (simp_all add: round_half_even_def Let_def)
  have main: "form_diag_fp binary64 [Finite 1, Finite 1] [Finite e, Finite 15] [Finite 7, Finite e] ! 0
      = Finite (- 5767168)"
    by (simp only: form_diag_fp_def fp_dot_def Let_def list.map zip_Cons_Cons zip_Nil fp_sum.simps
        foldl.simps prod.case nth_Cons_0
        one_e one_15 one_7 e_e sq15 sq7 add225 add225' add49 e_7 f15_e add_d inv1 ratio div225
        div7 prod diff quot)
  have seven_e: "fp_mul binary64 (Finite 7) (Finite e) = Finite d1"
    unfolding e_def d1_def
    by (simp, subst binary64_normal [where e = "- 25"]) (simp_all add: round_half_even_def Let_def)
  have e_15: "fp_mul binary64 (Finite e) (Finite 15) = Finite d2"
    unfolding e_def d2_def
    by (simp, subst binary64_normal [where e = "- 24"]) (simp_all add: round_half_even_def Let_def)
  have dpos: "Finite 0 < Finite d" by (simp add: less_dbl_def d_def)
  have "0 < 225 / d" "225 / d < 2 powi 31" by (simp_all add: d_def)
  then obtain t1 where t1: "binary64 (225 / d) = Finite t1" and t1b: "0 \<le> t1" "t1 \<le> 2 powi 31"
    using binary64_upper [where x = "225 / d" and k = 31] by auto
  have "0 < 49 / d" "49 / d < 2 powi 31" by (simp_all add: d_def)
  then obtain t2 where t2: "binary64 (49 / d) = Finite t2" and t2b: "0 \<le> t2" "t2 \<le> 2 powi 31"
    using binary64_upper [where x = "49 / d" and k = 31] by auto
  have dnz: "d \<noteq> 0" by (simp add: d_def)
  have th1: "dbl_abs (fp_div binary64 (Finite 225) (Finite d)) \<le> Finite (10 ^ 12)"
    using t1 t1b dnz by simp
  have th2: "dbl_abs (fp_div binary64 (Finite 49) (Finite d)) \<le> Finite (10 ^ 12)"
    using t2 t2b dnz by simp
  have ccf1: "check_curve_fp binary64 [Finite e, Finite 15] [Finite 7, Finite e]"
    using dpos th1
    by (simp only: check_curve_fp_def fp_dot_def Let_def list.map zip_Cons_Cons zip_Nil
        fp_sum.simps foldl.simps prod.case e_7 f15_e add_d e_e sq15 add225 simp_thms)
  have ccf2: "check_curve_fp binary64 [Finite 7, Finite e] [Finite e, Finite 15]"
    using dpos th2
    by (simp only: check_curve_fp_def fp_dot_def Let_def list.map zip_Cons_Cons zip_Nil
        fp_sum.simps foldl.simps prod.case seven_e e_15 add_d e_e sq7 add49 simp_thms)
  have cc: "check_curve [1 / 2 ^ 27, 15] [7, 1 / 2 ^ 27]" "check_curve [7, 1 / 2 ^ 27] [1 / 2 ^ 27, 15]"
    by (simp_all add: check_curve_def dot_def squared_sum_def Let_def power2_eq_square)
  show ?thesis using main cc ccf1 ccf2 unfolding e_def by simp
qed

section \<open>Properties of the ELBO estimator and of the approximation\<close>

lemma lp_loop_result:
  assumes "lp_loop lp_fun S n i M c = (M', c')" and "i \<le> n"
  shows "c' = c + (n - i) \<and> rows M' = rows M \<and> cols M' = cols M
         \<and> (\<forall>r k. coeff M' r k
               = (if k = 1 \<and> i \<le> r \<and> r < n
                  then (case lp_fun (col S r) of Inr lp \<Rightarrow> lp | Inl e \<Rightarrow> NegInf)
                  else coeff M r k))"
  using assms
proof (induction lp_fun S n i M c rule: lp_loop.induct)
  case (1 lp_fun S n i M c)
  show ?case
  proof (cases "i < n")
    case False
    with "1.prems" show ?thesis by (auto simp: lp_loop.simps [of lp_fun S n i])
  next
    case True
    show ?thesis
    proof (cases "lp_fun (col S i)")
      case (Inr lp)
      have step: "lp_loop lp_fun S n (i + 1) (set_coeff M i 1 lp) (c + 1) = (M', c')"
        using "1.prems"(1) True Inr by (simp add: lp_loop.simps [of lp_fun S n i])
      have IH: "c' = c + 1 + (n - (i + 1)) \<and> rows M' = rows (set_coeff M i 1 lp)
            \<and> cols M' = cols (set_coeff M i 1 lp)
            \<and> (\<forall>r k. coeff M' r k
               = (if k = 1 \<and> i + 1 \<le> r \<and> r < n
                  then (case lp_fun (col S r) of Inr lp \<Rightarrow> lp | Inl e \<Rightarrow> NegInf)
                  else coeff (set_coeff M i 1 lp) r k))"
        using "1.IH"(2) [OF True Inr step] True by simp
      show ?thesis
        using IH True Inr by (auto simp: set_coeff_def)
    next
      case (Inl e)
      have step: "lp_loop lp_fun S n (i + 1) (set_coeff M i 1 NegInf) (c + 1) = (M', c')"
        using "1.prems"(1) True Inl by (simp add: lp_loop.simps [of lp_fun S n i])
      have IH: "c' = c + 1 + (n - (i + 1)) \<and> rows M' = rows (set_coeff M i 1 NegInf)
            \<and> cols M' = cols (set_coeff M i 1 NegInf)
            \<and> (\<forall>r k. coeff M' r k
               = (if k = 1 \<and> i + 1 \<le> r \<and> r < n
                  then (case lp_fun (col S r) of Inr lp \<Rightarrow> lp | Inl e \<Rightarrow> NegInf)
                  else coeff (set_coeff M i 1 NegInf) r k))"
        using "1.IH"(1) [OF True Inl step] True by simp
      show ?thesis
        using IH True Inl by (auto simp: set_coeff_def)
    qed
  qed
qed

lemma est_approx_draws_fields:
  fixes lp_fun :: "vec \<Rightarrow> exn + dbl" and rand_unit_gaus :: "'g \<Rightarrow> real \<times> 'g"
    and rng :: 'g and T :: taylor_approx_t and num_samples :: nat and ReturnElbo :: bool
  defines "E \<equiv> fst (est_approx_draws ReturnElbo lp_fun rand_unit_gaus rng T num_samples)"
  defines "U \<equiv> fst (generate_matrix rand_unit_gaus (length (x_center T)) num_samples rng)"
  shows "repeat_draws E = approximate_samples U T"
    and "fn_calls E = num_samples"
    and "rows (lp_mat E) = num_samples" and "cols (lp_mat E) = 2"
    and "\<And>i. i < num_samples \<Longrightarrow> coeff (lp_mat E) i 1
           = (case lp_fun (col (approximate_samples U T) i) of Inr lp \<Rightarrow> lp | Inl e \<Rightarrow> NegInf)"
    and "\<And>i. coeff (lp_mat E) i 0
           = dbl_add (dbl_neg (logdetcholHk T))
               (Finite (- 0.5 * ((\<Sum>k<length (x_center T). (coeff U k i)\<^sup>2)
                                 + real (length (x_center T)) * LOG_TWO_PI)))"
    and "lp_ratio E = map (\<lambda>i. dbl_sub (coeff (lp_mat E) i 1) (coeff (lp_mat E) i 0))
                          [0..<num_samples]"
    and "elbo E = (if ReturnElbo then dbl_mean (lp_ratio E) else NegInf)"
proof -
  obtain U' g1 where gm:
    "generate_matrix rand_unit_gaus (length (x_center T)) num_samples rng = (U', g1)"
    by (cases "generate_matrix rand_unit_gaus (length (x_center T)) num_samples rng") blast
  have U: "U = U'" by (simp add: U_def gm)
  define M0 :: "dbl matrix" where "M0 =
    \<lparr>rows = num_samples, cols = 2,
     coeff = (\<lambda>i j. if j = 0
        then dbl_add (dbl_neg (logdetcholHk T))
               (Finite (- 0.5 * ((\<Sum>k<length (x_center T). (coeff U' k i)\<^sup>2)
                                 + real (length (x_center T)) * LOG_TWO_PI)))
        else Finite 0)\<rparr>"
  obtain M1 c1 where loop:
    "lp_loop lp_fun (approximate_samples U' T) num_samples 0 M0 0 = (M1, c1)"
    by (cases "lp_loop lp_fun (approximate_samples U' T) num_samples 0 M0 0") blast
  note res = lp_loop_result [OF loop, simplified]
  have E: "E = \<lparr>elbo = (if ReturnElbo
                 then dbl_mean (map (\<lambda>i. dbl_sub (coeff M1 i 1) (coeff M1 i 0)) [0..<num_samples])
                 else NegInf),
             fn_calls = c1, repeat_draws = approximate_samples U' T, lp_mat = M1,
             lp_ratio = map (\<lambda>i. dbl_sub (coeff M1 i 1) (coeff M1 i 0)) [0..<num_samples]\<rparr>"
    unfolding E_def est_approx_draws_def Let_def gm
    using loop by (simp add: M0_def)
  show "repeat_draws E = approximate_samples U T" by (simp add: E U)
  show "fn_calls E = num_samples" using res by (simp add: E)
  show "rows (lp_mat E) = num_samples" using res by (simp add: E M0_def)
  show "cols (lp_mat E) = 2" using res by (simp add: E M0_def)
  show "coeff (lp_mat E) i 1
           = (case lp_fun (col (approximate_samples U T) i) of Inr lp \<Rightarrow> lp | Inl e \<Rightarrow> NegInf)"
    if "i < num_samples" for i
    using res that by (simp add: E U)
  show "coeff (lp_mat E) i 0
           = dbl_add (dbl_neg (logdetcholHk T))
               (Finite (- 0.5 * ((\<Sum>k<length (x_center T). (coeff U k i)\<^sup>2)
                                 + real (length (x_center T)) * LOG_TWO_PI)))" for i
    using res by (simp add: E U M0_def)
  show "lp_ratio E = map (\<lambda>i. dbl_sub (coeff (lp_mat E) i 1) (coeff (lp_mat E) i 0))
                          [0..<num_samples]"
    by (simp add: E)
  show "elbo E = (if ReturnElbo then dbl_mean (lp_ratio E) else NegInf)"
    by (simp add: E)
qed

lemma dbl_value_Finite: "dbl_value (Finite r) = r"
  by (simp add: dbl_value_def)

lemma foldl_dbl_add_NegInf:
  "\<forall>x\<in>set xs. x = NegInf \<or> is_finite x \<Longrightarrow> foldl dbl_add NegInf xs = NegInf"
proof (induction xs)
  case Nil
  show ?case by simp
next
  case (Cons x xs)
  then have "x = NegInf \<or> is_finite x" by simp
  then have "dbl_add NegInf x = NegInf" by (cases x) auto
  then show ?case using Cons by simp
qed

lemma foldl_dbl_add_Finite:
  "\<forall>x\<in>set xs. x = NegInf \<or> is_finite x \<Longrightarrow>
   foldl dbl_add (Finite a) xs
     = (if list_all is_finite xs then Finite (a + sum_list (map dbl_value xs)) else NegInf)"
proof (induction xs arbitrary: a)
  case Nil
  show ?case by simp
next
  case (Cons x xs)
  then have x: "x = NegInf \<or> is_finite x" and rest: "\<forall>x\<in>set xs. x = NegInf \<or> is_finite x"
    by simp_all
  show ?case
  proof (cases x)
    case (Finite r)
    then show ?thesis using Cons.IH [OF rest, of "a + r"]
      by (simp add: dbl_value_Finite add.assoc)
  next
    case NegInf
    then show ?thesis using foldl_dbl_add_NegInf [OF rest] by simp
  next
    case PosInf
    then show ?thesis using x by simp
  next
    case NaN
    then show ?thesis using x by simp
  qed
qed

lemma dbl_mean_finite_or_neginf:
  assumes "\<forall>x\<in>set xs. x = NegInf \<or> is_finite x" and "xs \<noteq> []"
  shows "dbl_mean xs
     = (if list_all is_finite xs
        then Finite (sum_list (map dbl_value xs) / real (length xs)) else NegInf)"
  using assms by (simp add: dbl_mean_def dbl_sum_def foldl_dbl_add_Finite)

lemma not_posinf_nan_cases: "d \<noteq> PosInf \<Longrightarrow> d \<noteq> NaN \<Longrightarrow> d = NegInf \<or> is_finite d"
  by (cases d) auto


text \<open>
  Claim C7. If \<open>lp_fun\<close> throws on the \<open>i\<close>-th draw, \<open>est_approx_draws\<close> records
  \<open>lp_mat[i,1] = -infinity\<close> and goes on: the function returns its record, \<open>lp_fun\<close>
  has been called on every one of the \<open>num_samples\<close> draws, and every row holds the
  value returned for its draw, or minus infinity where the call threw.
\<close>

theorem est_approx_draws_catches_lp_fun_throw:
  fixes lp_fun :: "vec \<Rightarrow> exn + dbl" and rand_unit_gaus :: "'g \<Rightarrow> real \<times> 'g"
  assumes E: "E = fst (est_approx_draws ReturnElbo lp_fun rand_unit_gaus rng T num_samples)"
    and i: "i < num_samples"
    and throw: "lp_fun (col (repeat_draws E) i) = Inl e"
  shows "coeff (lp_mat E) i 1 = NegInf
       \<and> fn_calls E = num_samples
       \<and> (\<forall>j<num_samples. coeff (lp_mat E) j 1
             = (case lp_fun (col (repeat_draws E) j) of Inr lp \<Rightarrow> lp | Inl e' \<Rightarrow> NegInf))"
proof -
  note f = est_approx_draws_fields [where ReturnElbo = ReturnElbo and lp_fun = lp_fun
      and rand_unit_gaus = rand_unit_gaus and rng = rng and T = T and num_samples = num_samples,
      folded E]
  have all: "coeff (lp_mat E) j 1
             = (case lp_fun (col (repeat_draws E) j) of Inr lp \<Rightarrow> lp | Inl e' \<Rightarrow> NegInf)"
    if "j < num_samples" for j
    unfolding f(1) by (rule f(5) [OF that])
  have "coeff (lp_mat E) i 1 = NegInf" using all [OF i] throw by simp
  then show ?thesis using all f(2) by simp
qed

text \<open>
  Claim C6. \<open>taylor_approximation\<close> builds the dense approximation, with
  \<open>use_full = true\<close>, if and only if \<open>2 * n \<ge> d\<close> for a history matrix with \<open>n\<close>
  columns and \<open>d\<close> rows, and the sparse approximation, with \<open>use_full = false\<close>,
  otherwise. (The older \<open>construct_taylor_approximation\<close> does the same on its list of
  columns: \<open>construct_taylor_approximation_use_full\<close> below.)
\<close>

theorem taylor_approximation_use_full:
  "taylor_approximation E Ykt_mat al Dk ninvRST point_est grad_est
     = (if 2 * cols Ykt_mat \<ge> rows Ykt_mat
        then taylor_approximation_full E Ykt_mat al Dk ninvRST point_est grad_est
        else taylor_approximation_sparse E Ykt_mat al Dk ninvRST point_est grad_est)
   \<and> use_full (taylor_approximation_full E Ykt_mat al Dk ninvRST point_est grad_est)
   \<and> \<not> use_full (taylor_approximation_sparse E Ykt_mat al Dk ninvRST point_est grad_est)
   \<and> (use_full (taylor_approximation E Ykt_mat al Dk ninvRST point_est grad_est)
        \<longleftrightarrow> 2 * cols Ykt_mat \<ge> rows Ykt_mat)"
  by (simp add: taylor_approximation_def taylor_approximation_full_def
      taylor_approximation_sparse_def Let_def)



lemma dbl_mean_single: "dbl_mean [d] = dbl_add (Finite 0) d"
  by (cases d) (simp_all add: dbl_mean_def dbl_sum_def)






lemma example_draws:
  "generate_matrix count_up (Suc 0) 2 0
     = (\<lparr>rows = Suc 0, cols = 2, coeff = (\<lambda>i j. [0, 1] ! (j * Suc 0 + i))\<rparr>, 2)"
  by (simp add: generate_matrix_def numeral_2_eq_2 count_up_def)

lemma example_samples:
  "col (approximate_samples (fst (generate_matrix count_up (length (x_center example_dense)) 2 0)) example_dense) j
     = [[0, 1] ! j]"
  by (simp add: example_dense_def example_draws approximate_samples_def col_def colwise_add_def
      mat_mul_def mat_transpose_def Identity_def)

lemma example_record:
  defines "E \<equiv> fst (est_approx_draws True throw_at_zero count_up 0 example_dense 2)"
  shows "col (repeat_draws E) 0 = [0]" and "col (repeat_draws E) 1 = [1]"
    and "coeff (lp_mat E) 0 1 = NegInf" and "coeff (lp_mat E) 1 1 = Finite 1"
    and "\<exists>c0 c1. lp_ratio E = [dbl_sub NegInf (Finite c0), dbl_sub (Finite 1) (Finite c1)]"
    and "lp_ratio E = [NegInf, Finite (1 + 0.5 * (1 + LOG_TWO_PI))]"
proof -
  note f = est_approx_draws_fields [where ReturnElbo = True and lp_fun = throw_at_zero
      and rand_unit_gaus = count_up and rng = 0 and T = example_dense and num_samples = 2,
      folded E_def]
  show c0: "col (repeat_draws E) 0 = [0]" unfolding f(1) example_samples by simp
  show c1: "col (repeat_draws E) 1 = [1]" unfolding f(1) example_samples by simp
  have "coeff (lp_mat E) 0 1
          = (case throw_at_zero (col (repeat_draws E) 0) of Inr lp \<Rightarrow> lp | Inl e \<Rightarrow> NegInf)"
    unfolding f(1) by (rule f(5)) simp
  then show t0: "coeff (lp_mat E) 0 1 = NegInf" unfolding c0 by (simp add: throw_at_zero_def)
  have "coeff (lp_mat E) 1 1
          = (case throw_at_zero (col (repeat_draws E) 1) of Inr lp \<Rightarrow> lp | Inl e \<Rightarrow> NegInf)"
    unfolding f(1) by (rule f(5)) simp
  then show t1: "coeff (lp_mat E) 1 1 = Finite 1" unfolding c1 by (simp add: throw_at_zero_def)
  obtain a0 where a0: "coeff (lp_mat E) 0 0 = Finite a0"
    using f(6) [of 0] by (simp add: example_dense_def)
  obtain a1 where a1: "coeff (lp_mat E) 1 0 = Finite a1"
    using f(6) [of 1] by (simp add: example_dense_def)
  have "[0..<2] = [0, 1]" by (simp add: upt_rec numeral_2_eq_2)
  then have "lp_ratio E = [dbl_sub NegInf (Finite a0), dbl_sub (Finite 1) (Finite a1)]"
    using f(7) t0 t1 a0 a1 by simp
  then show "\<exists>c0 c1. lp_ratio E = [dbl_sub NegInf (Finite c0), dbl_sub (Finite 1) (Finite c1)]"
    by blast
  have a1': "coeff (lp_mat E) 1 0 = Finite (- 0.5 * (1 + LOG_TWO_PI))"
    using f(6) [of 1] by (simp add: example_dense_def example_draws)
  have "lp_ratio E = [dbl_sub NegInf (Finite a0), dbl_sub (Finite 1) (Finite (- 0.5 * (1 + LOG_TWO_PI)))]"
    using f(7) t0 t1 a0 a1' \<open>[0..<2] = [0, 1]\<close> by simp
  then show "lp_ratio E = [NegInf, Finite (1 + 0.5 * (1 + LOG_TWO_PI))]"
    by (simp add: dbl_sub_def)
qed

theorem est_approx_draws_catches_lp_fun_throw_witness:
  "(0::nat) < 2
   \<and> throw_at_zero (col (repeat_draws (fst (est_approx_draws True throw_at_zero count_up 0 example_dense 2))) 0)
       = Inl (Exception ''domain error'')
   \<and> coeff (lp_mat (fst (est_approx_draws True throw_at_zero count_up 0 example_dense 2))) 0 1 = NegInf
   \<and> fn_calls (fst (est_approx_draws True throw_at_zero count_up 0 example_dense 2)) = 2
   \<and> coeff (lp_mat (fst (est_approx_draws True throw_at_zero count_up 0 example_dense 2))) 1 1 = Finite 1"
proof -
  have h2: "(0::nat) < 2" by simp
  have h3: "throw_at_zero
      (col (repeat_draws (fst (est_approx_draws True throw_at_zero count_up 0 example_dense 2))) 0)
       = Inl (Exception ''domain error'')"
    unfolding example_record(1) by (simp add: throw_at_zero_def)
  show ?thesis
    using est_approx_draws_catches_lp_fun_throw [where ReturnElbo = True
        and lp_fun = throw_at_zero and rand_unit_gaus = count_up and rng = 0 and T = example_dense
        and num_samples = 2 and i = 0, OF refl h2 h3] h2 h3 example_record(4)
    by simp
qed


text \<open>
  An entry of \<open>lp_ratio\<close> that is not finite need not come from the log density: for
  an approximation whose \<open>logdetcholHk\<close> is NaN the ELBO is NaN although the log density
  is finite.
\<close>

lemma est_approx_draws_elbo_nan_logdetcholHk:
  "elbo (fst (est_approx_draws True (\<lambda>x. Inr (Finite 0)) (\<lambda>g::nat. (0, g)) 0
                (example_dense\<lparr>logdetcholHk := NaN\<rparr>) 1)) = NaN"
proof -
  define E where "E = fst (est_approx_draws True (\<lambda>x. Inr (Finite 0)) (\<lambda>g::nat. (0, g)) 0
                (example_dense\<lparr>logdetcholHk := NaN\<rparr>) 1)"
  note f = est_approx_draws_fields [where ReturnElbo = True and lp_fun = "\<lambda>x. Inr (Finite 0)"
      and rand_unit_gaus = "\<lambda>g::nat. (0, g)" and rng = 0
      and T = "example_dense\<lparr>logdetcholHk := NaN\<rparr>" and num_samples = 1,
      folded E_def]
  have t: "coeff (lp_mat E) 0 1 = Finite 0" using f(5) [of 0] by simp
  have a: "coeff (lp_mat E) 0 0 = NaN" using f(6) [of 0] by simp
  have "lp_ratio E = [NaN]" using f(7) t a by (simp add: dbl_sub_def)
  then have "elbo E = NaN" using f(8) by (simp add: dbl_mean_single)
  then show ?thesis unfolding E_def .
qed

text \<open>
  The sparse branch of \<open>approximate_samples\<close> is the sparse branch of the older
  \<open>get_rnorm_and_draws\<close> with the factor \<open>L_approx\<close> transposed.
\<close>

lemma sparse_product_transposed:
  fixes Q L v :: "nat \<Rightarrow> nat \<Rightarrow> real"
  shows "(\<Sum>k<K. (\<Sum>m<K. Q i m * (L m k - (if m = k then 1 else 0))) * v k j)
       = (\<Sum>m<K. Q i m * (\<Sum>k<K. L m k * v k j)) - (\<Sum>m<K. Q i m * v m j)"
proof -
  have "(\<Sum>k<K. (\<Sum>m<K. Q i m * (L m k - (if m = k then 1 else 0))) * v k j)
      = (\<Sum>k<K. (\<Sum>m<K. Q i m * L m k * v k j) - (\<Sum>m<K. Q i m * (if m = k then 1 else 0) * v k j))"
    by (simp add: sum_distrib_right sum_subtractf right_diff_distrib left_diff_distrib)
  also have "\<dots> = (\<Sum>k<K. \<Sum>m<K. Q i m * L m k * v k j)
                  - (\<Sum>k<K. \<Sum>m<K. Q i m * (if m = k then 1 else 0) * v k j)"
    by (simp add: sum_subtractf)
  also have "(\<Sum>k<K. \<Sum>m<K. Q i m * L m k * v k j)
           = (\<Sum>m<K. Q i m * (\<Sum>k<K. L m k * v k j))"
    by (subst sum.swap) (simp add: sum_distrib_left mult.assoc)
  also have "(\<Sum>k<K. \<Sum>m<K. Q i m * (if m = k then 1 else 0) * v k j)
           = (\<Sum>k<K. Q i k * v k j)"
  proof (rule sum.cong)
    fix k assume "k \<in> {..<K}"
    have "(\<Sum>m<K. Q i m * (if m = k then 1 else 0) * v k j)
            = (\<Sum>m<K. if k = m then Q i m * v k j else 0)"
      by (rule sum.cong) auto
    also have "\<dots> = Q i k * v k j" using \<open>k \<in> {..<K}\<close> by (simp add: sum.delta)
    finally show "(\<Sum>m<K. Q i m * (if m = k then 1 else 0) * v k j) = Q i k * v k j" .
  qed simp
  finally show ?thesis .
qed

lemma approximate_samples_sparse_transposed:
  assumes sparse: "\<not> use_full T"
    and dims: "rows (L_approx T) = cols (Qk T)" "cols (L_approx T) = cols (Qk T)"
  shows "coeff (approximate_samples u T) i j
       = coeff (get_rnorm_and_draws u
                \<lparr>x_center0 = x_center T, logdetcholHk0 = logdetcholHk T,
                 L_approx0 = mat_transpose (L_approx T), Qk0 = Qk T, use_full0 = False\<rparr>
                (alpha T)) i j"
proof -
  have inner: "coeff (mat_add
                (mat_mul
                   (mat_mul (Qk T)
                      (mat_sub (L_approx T)
                         (Identity (rows (L_approx T)) (cols (L_approx T)))))
                   (mat_mul (mat_transpose (Qk T)) u))
                u) i' j
      = coeff (mat_add
                 (mat_mul (Qk T)
                    (crossprod (mat_transpose (L_approx T)) (mat_mul (mat_transpose (Qk T)) u)))
                 (mat_sub u (mat_mul (Qk T) (mat_mul (mat_transpose (Qk T)) u)))) i' j" for i'
    using sparse_product_transposed [where K = "cols (Qk T)" and Q = "coeff (Qk T)" and i = i'
        and L = "coeff (L_approx T)" and v = "coeff (mat_mul (mat_transpose (Qk T)) u)"
        and j = j]
    by (simp add: mat_add_def mat_mul_def mat_sub_def Identity_def crossprod_def
        mat_transpose_def dims)
  show ?thesis
    using sparse
    by (simp add: approximate_samples_def get_rnorm_and_draws_def Let_def colwise_add_def
        mat_mul_def [of "asDiagonal _"] inner)
qed

lemma construct_taylor_approximation_use_full:
  "Ykt_mat \<noteq> [] \<Longrightarrow>
   \<exists>T. construct_taylor_approximation E Ykt_mat al Dk ninvRST point_est grad_est = Some T
     \<and> (use_full0 T \<longleftrightarrow> 2 * length Ykt_mat \<ge> length (Ykt_mat ! 0))"
  by (simp add: construct_taylor_approximation_def construct_taylor_approximation_full_def
      construct_taylor_approximation_sparse_def Let_def)

text \<open>
  Claim C10 at a sparse approximation with the upper factor \<open>[[1, 1], [0, 1]]\<close>,
  \<open>Qk\<close> the first two unit vectors of dimension three, \<open>alpha = 1\<close>, centre zero,
  and the single draw \<open>u = (0, 1, 0)\<close>: \<open>approximate_samples\<close> multiplies by
  \<open>L_approx - I\<close> and returns \<open>(1, 1, 0)\<close>, \<open>get_rnorm_and_draws\<close> multiplies
  by the transpose of \<open>L_approx\<close> and returns \<open>(0, 1, 0)\<close>.
\<close>

theorem approximate_samples_differs_from_get_rnorm_and_draws:
  "col (approximate_samples (mat_of_cols 3 [[0, 1, 0]]) example_sparse) 0 = [1, 1, 0]
   \<and> col (get_rnorm_and_draws (mat_of_cols 3 [[0, 1, 0]]) example_sparse0
           (alpha example_sparse)) 0 = [0, 1, 0]"
  by (simp add: example_sparse_def example_sparse0_def approximate_samples_def
      get_rnorm_and_draws_def col_def colwise_add_def
      mat_mul_def mat_add_def mat_sub_def mat_transpose_def Identity_def asDiagonal_def
      crossprod_def mat_of_cols_def Let_def upt_rec [of 0] upt_rec [of "Suc _"]
      numeral_2_eq_2 numeral_3_eq_3 lessThan_Suc)

section \<open>Properties of the driver loop\<close>

lemma lbfgs_iteration_interrupt_throws:
  "interrupt C (interrupt_state s) = Inl e \<Longrightarrow> lbfgs_iteration C A s = Inl e"
  by (simp add: lbfgs_iteration_def)

lemma lbfgs_iteration_linesearch_reset:
  "interrupt C (interrupt_state s) = Inr i1 \<Longrightarrow> lbfgs_step C (lbfgs s) = (- 1, o1) \<Longrightarrow>
   lbfgs_iteration C A s = Inr (s\<lparr>ret := - 1, lbfgs := o1, interrupt_state := i1\<rparr>)"
  by (simp add: lbfgs_iteration_def)

lemma lbfgs_iteration_fields:
  fixes C :: "('o, 'i, 'g) collaborators" and A :: pathfinder_args
    and s :: "('o, 'i, 'g) pathfinder_state"
  assumes intr: "interrupt C (interrupt_state s) = Inr i1"
    and step: "lbfgs_step C (lbfgs s) = (r, o1)"
    and r: "r \<noteq> - 1"
    and pb: "pb = cb_push_back (history_size A) (param_buff s)
                   (vec_sub (lbfgs_curr_x C o1) (prev_params s))"
    and gb: "gb = cb_push_back (history_size A) (grad_buff s)
                   (vec_sub (lbfgs_curr_g C o1) (prev_grads s))"
  shows "\<exists>s1. lbfgs_iteration C A s = Inr s1
           \<and> ret s1 = r \<and> lbfgs s1 = o1 \<and> interrupt_state s1 = i1
           \<and> param_buff s1 = pb \<and> grad_buff s1 = gb
           \<and> current_history_size s1 = min (current_history_size s + 1) (history_size A)
           \<and> alpha_diag s1 = (if check_curve (last pb) (last gb)
                               then form_diag (alpha_diag s) (last gb) (last pb)
                               else alpha_diag s)
           \<and> prev_params s1 = lbfgs_curr_x C o1 \<and> prev_grads s1 = lbfgs_curr_g C o1"
  unfolding lbfgs_iteration_def pb gb using intr step r
  by (auto simp: Let_def split: prod.splits)

lemma lbfgs_iterations_throw_while:
  "lbfgs_iterations k C A s = Inl e \<Longrightarrow> lbfgs_while C A s = Some (Inl e)"
proof (induction k arbitrary: s)
  case 0
  then show ?case by simp
next
  case (Suc k)
  show ?case
  proof (cases "ret s = 0")
    case False
    with Suc.prems show ?thesis by simp
  next
    case True
    show ?thesis
    proof (cases "lbfgs_iteration C A s")
      case (Inl e')
      then have "e' = e" using Suc.prems True by simp
      then show ?thesis using True Inl by (subst lbfgs_while.simps) simp
    next
      case (Inr s1)
      then have "lbfgs_iterations k C A s1 = Inl e" using Suc.prems True by simp
      then have "lbfgs_while C A s1 = Some (Inl e)" by (rule Suc.IH)
      then show ?thesis using True Inr by (subst lbfgs_while.simps) simp
    qed
  qed
qed

lemma lbfgs_iterations_Suc_end:
  "lbfgs_iterations k C A s = Inr s1 \<Longrightarrow>
   lbfgs_iterations (Suc k) C A s
     = (if ret s1 = 0 then lbfgs_iteration C A s1 else Inr s1)"
proof (induction k arbitrary: s)
  case 0
  then show ?case by (simp split: sum.splits)
next
  case (Suc k)
  show ?case
  proof (cases "ret s = 0")
    case False
    with Suc.prems show ?thesis by simp
  next
    case True
    show ?thesis
    proof (cases "lbfgs_iteration C A s")
      case (Inl e')
      then show ?thesis using Suc.prems True by simp
    next
      case (Inr s2)
      then have "lbfgs_iterations k C A s2 = Inr s1" using Suc.prems True by simp
      then have "lbfgs_iterations (Suc k) C A s2
          = (if ret s1 = 0 then lbfgs_iteration C A s1 else Inr s1)" by (rule Suc.IH)
      then show ?thesis using True Inr by (simp del: lbfgs_iterations.simps(2) add: lbfgs_iterations.simps(2) [of "Suc k"])
    qed
  qed
qed

text \<open>
  Claim C4, amended. If the \<open>interrupt\<close> callback throws during an outer L-BFGS
  step (the first \<open>k\<close> steps having completed with return code \<open>0\<close>),
  \<open>pathfinder_lbfgs_single\<close> does not catch the exception: it leaves the function,
  which returns neither a return code nor outputs.
\<close>

theorem pathfinder_lbfgs_single_interrupt_propagates:
  assumes init: "util_initialize C rng0 = (Inr cont_vector, rng1)"
    and grad: "model_log_prob_grad C cont_vector = Inr g1"
    and steps: "lbfgs_iterations k C A (initial_state C cont_vector g1 i0 rng1) = Inr s"
    and go_on: "ret s = 0"
    and throw: "interrupt C (interrupt_state s) = Inl e"
  shows "pathfinder_lbfgs_single C A i0 rng0 = Some (Inl e)"
proof -
  have "lbfgs_iterations (Suc k) C A (initial_state C cont_vector g1 i0 rng1) = Inl e"
    using lbfgs_iterations_Suc_end [OF steps] go_on lbfgs_iteration_interrupt_throws [OF throw]
    by simp
  then have "lbfgs_while C A (initial_state C cont_vector g1 i0 rng1) = Some (Inl e)"
    by (rule lbfgs_iterations_throw_while)
  then show ?thesis using init grad by (simp add: pathfinder_lbfgs_single_def)
qed

lemma example_first_iteration:
  fixes c :: real
  defines "C \<equiv> example_collaborators c"
  defines "s0 \<equiv> initial_state C [0] [0] 0 0"
  shows "\<exists>s1. lbfgs_iteration C example_args s0 = Inr s1
           \<and> ret s1 = 0 \<and> interrupt_state s1 = 1
           \<and> param_buff s1 = [[1]] \<and> grad_buff s1 = [[c]]
           \<and> current_history_size s1 = 1
           \<and> alpha_diag s1 = (if check_curve [1] [c] then form_diag [1] [c] [1] else [1])"
proof -
  have intr: "interrupt C (interrupt_state s0) = Inr 1"
    by (simp add: C_def s0_def example_collaborators_def initial_state_def)
  have step: "lbfgs_step C (lbfgs s0) = (0, 1)"
    by (simp add: C_def s0_def example_collaborators_def initial_state_def)
  have pb: "[[1]] = cb_push_back (history_size example_args) (param_buff s0)
                   (vec_sub (lbfgs_curr_x C 1) (prev_params s0))"
    by (simp add: C_def s0_def example_collaborators_def initial_state_def example_args_def
        cb_push_back_def vec_sub_def)
  have gb: "[[c]] = cb_push_back (history_size example_args) (grad_buff s0)
                   (vec_sub (lbfgs_curr_g C 1) (prev_grads s0))"
    by (simp add: C_def s0_def example_collaborators_def initial_state_def example_args_def
        cb_push_back_def vec_sub_def)
  have chs: "min (current_history_size s0 + 1) (history_size example_args) = 1"
    by (simp add: s0_def initial_state_def example_args_def)
  have al: "alpha_diag s0 = [1]" by (simp add: s0_def initial_state_def)
  show ?thesis
    using lbfgs_iteration_fields [OF intr step _ pb gb] unfolding chs al by auto
qed

lemma example_path_first:
  defines "s0 \<equiv> initial_state example_path [0] [0] 2 0"
  shows "\<exists>s1. lbfgs_iteration example_path example_args s0 = Inr s1
           \<and> ret s1 = 0 \<and> lbfgs s1 = 1 \<and> interrupt_state s1 = 3
           \<and> param_buff s1 = [[1]] \<and> grad_buff s1 = [[1]]
           \<and> prev_params s1 = [1] \<and> prev_grads s1 = [1]"
proof -
  have intr: "interrupt example_path (interrupt_state s0) = Inr 3"
    by (simp add: s0_def example_path_def example_collaborators_def initial_state_def)
  have step: "lbfgs_step example_path (lbfgs s0) = (0, 1)"
    by (simp add: s0_def example_path_def example_collaborators_def initial_state_def)
  have pb: "[[1]] = cb_push_back (history_size example_args) (param_buff s0)
                   (vec_sub (lbfgs_curr_x example_path 1) (prev_params s0))"
    by (simp add: s0_def example_path_def example_collaborators_def initial_state_def
        example_args_def cb_push_back_def vec_sub_def)
  have gb: "[[1]] = cb_push_back (history_size example_args) (grad_buff s0)
                   (vec_sub (lbfgs_curr_g example_path 1) (prev_grads s0))"
    by (simp add: s0_def example_path_def example_collaborators_def initial_state_def
        example_args_def cb_push_back_def vec_sub_def)
  have x: "lbfgs_curr_x example_path 1 = [1]" "lbfgs_curr_g example_path 1 = [1]"
    by (simp_all add: example_path_def example_collaborators_def)
  show ?thesis
    using lbfgs_iteration_fields [OF intr step _ pb gb] unfolding x by auto
qed

lemma example_path_second:
  assumes "ret s1 = 0" "lbfgs s1 = 1" "interrupt_state s1 = 3"
     "param_buff s1 = [[1]]" "grad_buff s1 = [[1]]"
     "prev_params s1 = [1]" "prev_grads s1 = [1]"
  shows "\<exists>s2. lbfgs_iteration example_path example_args s1 = Inr s2
           \<and> param_buff s2 = [[1], [1]] \<and> grad_buff s2 = [[1], [- 1]]"
proof -
  have intr: "interrupt example_path (interrupt_state s1) = Inr 4"
    using assms by (simp add: example_path_def example_collaborators_def)
  have step: "lbfgs_step example_path (lbfgs s1) = (0, 2)"
    using assms by (simp add: example_path_def example_collaborators_def)
  have pb: "[[1], [1]] = cb_push_back (history_size example_args) (param_buff s1)
                   (vec_sub (lbfgs_curr_x example_path 2) (prev_params s1))"
    using assms by (simp add: example_path_def example_collaborators_def
        example_args_def cb_push_back_def vec_sub_def)
  have gb: "[[1], [- 1]] = cb_push_back (history_size example_args) (grad_buff s1)
                   (vec_sub (lbfgs_curr_g example_path 2) (prev_grads s1))"
    using assms by (simp add: example_path_def example_collaborators_def
        example_args_def cb_push_back_def vec_sub_def)
  show ?thesis
    using lbfgs_iteration_fields [OF intr step _ pb gb] by auto
qed

text \<open>
  Claim C2 at the second step of a path in one dimension that moves from \<open>x = 0\<close> to
  \<open>1\<close> and to \<open>2\<close> while the gradient goes from \<open>0\<close> to \<open>1\<close> and back to \<open>0\<close>.
  The first pair \<open>(y, s) = (1, 1)\<close> passes the curvature check. The second pair
  \<open>(y, s) = (-1, 1)\<close> has \<open>s\<^sup>T y < 0\<close> and fails it, in either order of the
  arguments, and the step still appends it to both history buffers, which held the
  first pair. The older driver keeps only the first pair in its history at that
  iteration.
\<close>

theorem rejected_pair_enters_history:
  "\<not> check_curve [- 1] [1] \<and> \<not> check_curve [1] [- 1] \<and> check_curve [1] [1]
   \<and> \<not> isl (lbfgs_iterations 1 example_path example_args (initial_state example_path [0] [0] 2 0))
   \<and> grad_buff (projr (lbfgs_iterations 1 example_path example_args
               (initial_state example_path [0] [0] 2 0))) = [[1]]
   \<and> \<not> isl (lbfgs_iterations 2 example_path example_args (initial_state example_path [0] [0] 2 0))
   \<and> grad_buff (projr (lbfgs_iterations 2 example_path example_args
               (initial_state example_path [0] [0] 2 0))) = [[1], [- 1]]
   \<and> param_buff (projr (lbfgs_iterations 2 example_path example_args
               (initial_state example_path [0] [0] 2 0))) = [[1], [1]]
   \<and> older_history [[0], [1], [2]] [[0], [1], [0]] 5 1 = [0]"
proof -
  have cc: "\<not> check_curve [- 1] [1]" "\<not> check_curve [1] [- 1]" "check_curve [1] [1]"
    by (simp_all add: check_curve_def dot_def squared_sum_def Let_def)
  obtain s1 where s1: "lbfgs_iteration example_path example_args
        (initial_state example_path [0] [0] 2 0) = Inr s1"
    and f1: "ret s1 = 0" "lbfgs s1 = 1" "interrupt_state s1 = 3"
     "param_buff s1 = [[1]]" "grad_buff s1 = [[1]]"
     "prev_params s1 = [1]" "prev_grads s1 = [1]"
    using example_path_first by blast
  obtain s2 where s2: "lbfgs_iteration example_path example_args s1 = Inr s2"
    and f2: "param_buff s2 = [[1], [1]]" "grad_buff s2 = [[1], [- 1]]"
    using example_path_second [OF f1] by blast
  have r0: "ret (initial_state example_path [0] [0] 2 0) = 0" by (simp add: initial_state_def)
  have i1: "lbfgs_iterations 1 example_path example_args (initial_state example_path [0] [0] 2 0) = Inr s1"
    using s1 r0 by simp
  have i2: "lbfgs_iterations 2 example_path example_args (initial_state example_path [0] [0] 2 0) = Inr s2"
    using s1 s2 r0 f1(1) by (simp add: numeral_2_eq_2)
  have old: "older_history [[0], [1], [2]] [[0], [1], [0]] 5 1 = [0]"
    by (simp add: older_history_def column_diffs_def check_curve_cols_def vec_sub_def Let_def
        upt_rec [of 0] upt_rec [of "Suc _"] numeral_2_eq_2 numeral_3_eq_3)
  show ?thesis using cc i1 i2 f1 f2 old by simp
qed

text \<open>
  Claim C3 at the first step of a path that moves from \<open>x = 0\<close> to \<open>x = 1\<close> while
  the gradient moves from \<open>0\<close> to \<open>10\<^sup>1\<^sup>3\<close>: the pair \<open>y = 10\<^sup>1\<^sup>3\<close>, \<open>s = 1\<close>
  has \<open>|y|\<^sup>2 / y\<^sup>T s = 10\<^sup>1\<^sup>3 > 10\<^sup>1\<^sup>2\<close> and fails the curvature check, but the
  driver calls \<open>check_curve\<close> with \<open>s\<close> first, tests \<open>|s|\<^sup>2 / s\<^sup>T y\<close>, and
  replaces \<open>alpha = 1\<close> by \<open>form_diag alpha y s = 10\<^sup>-\<^sup>1\<^sup>3\<close>.
\<close>

theorem alpha_updated_for_rejected_pair:
  "\<not> check_curve [10 ^ 13] [1]
   \<and> \<not> isl (lbfgs_iteration (example_collaborators (10 ^ 13)) example_args
               (initial_state (example_collaborators (10 ^ 13)) [0] [0] 0 0))
   \<and> grad_buff (projr (lbfgs_iteration (example_collaborators (10 ^ 13)) example_args
               (initial_state (example_collaborators (10 ^ 13)) [0] [0] 0 0))) = [[10 ^ 13]]
   \<and> param_buff (projr (lbfgs_iteration (example_collaborators (10 ^ 13)) example_args
               (initial_state (example_collaborators (10 ^ 13)) [0] [0] 0 0))) = [[1]]
   \<and> alpha_diag (initial_state (example_collaborators (10 ^ 13)) [0] [0] 0 0) = [1]
   \<and> alpha_diag (projr (lbfgs_iteration (example_collaborators (10 ^ 13)) example_args
               (initial_state (example_collaborators (10 ^ 13)) [0] [0] 0 0))) = [1 / 10 ^ 13]"
proof -
  have claim_check: "\<not> check_curve [10 ^ 13] [1]"
    by (simp add: check_curve_def dot_def squared_sum_def Let_def)
  have code_check: "check_curve [1] [10 ^ 13]"
    by (simp add: check_curve_def dot_def squared_sum_def Let_def)
  have upd: "form_diag [1] [10 ^ 13] [1] = [1 / 10 ^ 13]"
    by (simp add: form_diag_def dot_def Let_def)
  have a0: "alpha_diag (initial_state (example_collaborators (10 ^ 13)) [0] [0] 0 0) = [1]"
    by (simp add: initial_state_def)
  obtain s1 where "lbfgs_iteration (example_collaborators (10 ^ 13)) example_args
               (initial_state (example_collaborators (10 ^ 13)) [0] [0] 0 0) = Inr s1"
    and "param_buff s1 = [[1]]" and "grad_buff s1 = [[10 ^ 13]]"
    and "alpha_diag s1 = (if check_curve [1] [10 ^ 13] then form_diag [1] [10 ^ 13] [1] else [1])"
    using example_first_iteration [of "10 ^ 13"] by blast
  then show ?thesis using claim_check code_check upd a0 by simp
qed

text \<open>
  Claim C4 as stated fails: with a callback that throws at its first call the driver
  does not return \<open>SOFTWARE\<close> with empty outputs, the exception leaves it.
\<close>

theorem interrupt_exception_leaves_pathfinder:
  "pathfinder_lbfgs_single (example_collaborators 1) example_args 1 0
     = Some (Inl (Exception ''interrupted''))"
proof -
  have "lbfgs_iteration (example_collaborators 1) example_args
          (initial_state (example_collaborators 1) [0] [0] 1 0) = Inl (Exception ''interrupted'')"
    by (rule lbfgs_iteration_interrupt_throws)
       (simp add: example_collaborators_def initial_state_def)
  then have "lbfgs_while (example_collaborators 1) example_args
          (initial_state (example_collaborators 1) [0] [0] 1 0)
            = Some (Inl (Exception ''interrupted''))"
    by (subst lbfgs_while.simps) (simp add: initial_state_def)
  then show ?thesis
    by (simp add: pathfinder_lbfgs_single_def example_collaborators_def)
qed

theorem pathfinder_lbfgs_single_interrupt_propagates_witness:
  "util_initialize (example_collaborators 1) 0 = (Inr [0], 0)
   \<and> model_log_prob_grad (example_collaborators 1) [0] = Inr [0]
   \<and> lbfgs_iterations 1 (example_collaborators 1) example_args
         (initial_state (example_collaborators 1) [0] [0] 0 0)
       = Inr (projr (lbfgs_iteration (example_collaborators 1) example_args
                (initial_state (example_collaborators 1) [0] [0] 0 0)))
   \<and> ret (projr (lbfgs_iteration (example_collaborators 1) example_args
                (initial_state (example_collaborators 1) [0] [0] 0 0))) = 0
   \<and> interrupt (example_collaborators 1)
         (interrupt_state (projr (lbfgs_iteration (example_collaborators 1) example_args
                (initial_state (example_collaborators 1) [0] [0] 0 0))))
       = Inl (Exception ''interrupted'')
   \<and> pathfinder_lbfgs_single (example_collaborators 1) example_args 0 0
       = Some (Inl (Exception ''interrupted''))"
proof -
  obtain s1 where it: "lbfgs_iteration (example_collaborators 1) example_args
               (initial_state (example_collaborators 1) [0] [0] 0 0) = Inr s1"
    and r: "ret s1 = 0" and i: "interrupt_state s1 = 1"
    using example_first_iteration [of 1] by blast
  have h1: "util_initialize (example_collaborators 1) 0 = (Inr [0], 0)"
    by (simp add: example_collaborators_def)
  have h2: "model_log_prob_grad (example_collaborators 1) [0] = Inr [0]"
    by (simp add: example_collaborators_def)
  have h3: "lbfgs_iterations 1 (example_collaborators 1) example_args
         (initial_state (example_collaborators 1) [0] [0] 0 0) = Inr s1"
    using it by (simp add: initial_state_def)
  have h5: "interrupt (example_collaborators 1) (interrupt_state s1)
       = Inl (Exception ''interrupted'')"
    unfolding i by (simp add: example_collaborators_def)
  show ?thesis
    using pathfinder_lbfgs_single_interrupt_propagates [OF h1 h2 h3 r h5] h1 h2 h3 r h5 it
    by simp
qed

end
